(* ===== verification/Prelude.thy ===== *)
theory Prelude
  imports Main "HOL-Library.AList" "HOL-Library.Char_ord" "HOL-Library.List_Lexorder"
    "HOL-Library.Product_Lexorder" "HOL-Library.Option_ord"
begin

text \<open>
  Shared vocabulary of the development: the exceptions of the Python sources as one
  datatype, dictionaries as association lists, results as sums, effectful code as
  functions from a world to a result and a world, and the generic lemmas the component
  theories use. Nothing in this theory is specific to one module of the program.
\<close>

named_theorems dict_simps \<open>lookup after an update or a removal of a dictionary entry\<close>
named_theorems io_simps \<open>evaluation of effectful code\<close>
named_theorems store_simps \<open>evaluation of the database operations\<close>

section \<open>Exceptions\<close>

text \<open>
  The five exception families of the device boundary (\<open>failures.py\<close>) share the base class
  \<open>DeviceBoundaryError\<close>; its \<open>device_failure\<close> flag is the Boolean of \<open>BoundaryError\<close>.
  \<open>HTTPRetryAfter\<close> is an \<open>HTTPException\<close> with a \<open>Retry-After\<close> header.
  \<open>Unmodelled\<close> marks the few value combinations the model does not follow.
\<close>

datatype boundary = FilesBoundary | CallBoundary | SendBoundary | SimsBoundary | ContactsBoundary

datatype exn =
    ValueError string
  | TypeError string
  | KeyError string
  | AttributeError string
  | RuntimeError string
  | FileNotFoundError string
  | OSError string
  | AdbError string
  | TimeoutExpired
  | IntegrityError string
  | ProgrammingError string
  | OverflowError string
  | FilterConfigError string
  | GatewayConfigError string
  | BoundaryError boundary bool string
  | SessionBusy string int string
  | HTTPException int string
  | HTTPRetryAfter int string int
  | SystemExit string
  | Unmodelled string

type_synonym 'a result = "exn + 'a"

definition rbind :: "'a result \<Rightarrow> ('a \<Rightarrow> 'b result) \<Rightarrow> 'b result" where
  "rbind r f = (case r of Inl e \<Rightarrow> Inl e | Inr x \<Rightarrow> f x)"

lemma rbind_simps [simp]: "rbind (Inl e) f = Inl e" "rbind (Inr x) f = f x"
  by (simp_all add: rbind_def)

lemma rbind_eq_Inr: "rbind r f = Inr y \<longleftrightarrow> (\<exists>x. r = Inr x \<and> f x = Inr y)"
  by (cases r) simp_all

fun rmap :: "('a \<Rightarrow> 'b result) \<Rightarrow> 'a list \<Rightarrow> 'b list result" where
  "rmap f [] = Inr []"
| "rmap f (x # xs) = rbind (f x) (\<lambda>y. rbind (rmap f xs) (\<lambda>ys. Inr (y # ys)))"

lemma rmap_Inr_mem: "rmap f xs = Inr ys \<Longrightarrow> y \<in> set ys \<Longrightarrow> \<exists>x \<in> set xs. f x = Inr y"
  by (induction xs arbitrary: ys) (auto simp: rbind_eq_Inr)

lemma rmap_Inr_length: "rmap f xs = Inr ys \<Longrightarrow> length ys = length xs"
  by (induction xs arbitrary: ys) (auto simp: rbind_eq_Inr)

text \<open>All the values, when every one is there.\<close>

fun all_some :: "'a option list \<Rightarrow> 'a list option" where
  "all_some [] = Some []"
| "all_some (None # xs) = None"
| "all_some (Some x # xs) = map_option (\<lambda>ys. x # ys) (all_some xs)"

section \<open>Dictionaries\<close>

text \<open>
  A Python dictionary keeps its insertion order and overwrites a present key in place,
  which is what \<open>AList.update\<close> does; \<open>AList.delete\<close> is \<open>pop\<close> with a default.
\<close>

type_synonym ('k, 'v) dict = "('k \<times> 'v) list"

definition dict_get :: "'k \<Rightarrow> ('k, 'v) dict \<Rightarrow> 'v option" where
  "dict_get k d = map_of d k"

definition dict_set :: "'k \<Rightarrow> 'v \<Rightarrow> ('k, 'v) dict \<Rightarrow> ('k, 'v) dict" where
  "dict_set k v d = AList.update k v d"

definition dict_pop :: "'k \<Rightarrow> ('k, 'v) dict \<Rightarrow> ('k, 'v) dict" where
  "dict_pop k d = AList.delete k d"

lemma dict_get_set [dict_simps, simp]:
  "dict_get k (dict_set j v d) = (if k = j then Some v else dict_get k d)"
  by (simp add: dict_get_def dict_set_def update_conv)

lemma dict_get_pop [dict_simps, simp]:
  "dict_get k (dict_pop j d) = (if k = j then None else dict_get k d)"
  by (simp add: dict_get_def dict_pop_def delete_conv)

lemma dict_get_Nil [dict_simps, simp]: "dict_get k [] = None"
  by (simp add: dict_get_def)

lemma dict_get_Cons [dict_simps, simp]:
  "dict_get k ((j, v) # d) = (if k = j then Some v else dict_get k d)"
  by (simp add: dict_get_def)

lemma dict_get_Some_mem: "dict_get k d = Some v \<Longrightarrow> (k, v) \<in> set d"
  by (simp add: dict_get_def map_of_SomeD)

definition dict_keys :: "('k, 'v) dict \<Rightarrow> 'k list" where
  "dict_keys d = map fst d"

definition dict_ok :: "('k, 'v) dict \<Rightarrow> bool" where
  "dict_ok d \<longleftrightarrow> distinct (map fst d)"

lemma dict_ok_Nil [simp]: "dict_ok []"
  by (simp add: dict_ok_def)

lemma dict_ok_set [simp]: "dict_ok d \<Longrightarrow> dict_ok (dict_set k v d)"
  by (simp add: dict_ok_def dict_set_def distinct_update)

lemma dict_ok_pop [simp]: "dict_ok d \<Longrightarrow> dict_ok (dict_pop k d)"
  by (simp add: dict_ok_def dict_pop_def distinct_delete)

lemma dict_get_mem: "dict_ok d \<Longrightarrow> (k, v) \<in> set d \<longleftrightarrow> dict_get k d = Some v"
  by (auto simp: dict_ok_def dict_get_def)

section \<open>Effectful code\<close>

text \<open>
  Code that reaches the phone or the host is a function of a world \<open>'w\<close>: it returns a
  value or an exception, and the world after it. The world is a parameter throughout.
\<close>

type_synonym ('w, 'a) io = "'w \<Rightarrow> 'a result \<times> 'w"

definition io_ret :: "'a \<Rightarrow> ('w, 'a) io" where
  "io_ret x = (\<lambda>w. (Inr x, w))"

definition io_raise :: "exn \<Rightarrow> ('w, 'a) io" where
  "io_raise e = (\<lambda>w. (Inl e, w))"

definition io_bind :: "('w, 'a) io \<Rightarrow> ('a \<Rightarrow> ('w, 'b) io) \<Rightarrow> ('w, 'b) io" where
  "io_bind m f = (\<lambda>w. case m w of (Inl e, w') \<Rightarrow> (Inl e, w') | (Inr x, w') \<Rightarrow> f x w')"

definition io_catch :: "('w, 'a) io \<Rightarrow> (exn \<Rightarrow> ('w, 'a) io) \<Rightarrow> ('w, 'a) io" where
  "io_catch m h = (\<lambda>w. case m w of (Inl e, w') \<Rightarrow> h e w' | (Inr x, w') \<Rightarrow> (Inr x, w'))"

definition io_lift :: "'a result \<Rightarrow> ('w, 'a) io" where
  "io_lift r = (\<lambda>w. (r, w))"

lemma io_ret_app [io_simps, simp]: "io_ret x w = (Inr x, w)"
  by (simp add: io_ret_def)

lemma io_raise_app [io_simps, simp]: "io_raise e w = (Inl e, w)"
  by (simp add: io_raise_def)

lemma io_lift_app [io_simps, simp]: "io_lift r w = (r, w)"
  by (simp add: io_lift_def)

lemma io_bind_app [io_simps]:
  "io_bind m f w = (case m w of (Inl e, w') \<Rightarrow> (Inl e, w') | (Inr x, w') \<Rightarrow> f x w')"
  by (simp add: io_bind_def)

lemma io_catch_app [io_simps]:
  "io_catch m h w = (case m w of (Inl e, w') \<Rightarrow> h e w' | (Inr x, w') \<Rightarrow> (Inr x, w'))"
  by (simp add: io_catch_def)

text \<open>\<open>finally\<close>: the cleanup always runs, and an exception of its own takes over.\<close>

definition io_finally :: "('w, 'a) io \<Rightarrow> ('w, unit) io \<Rightarrow> ('w, 'a) io" where
  "io_finally m c = (\<lambda>w. case m w of (r, w1) \<Rightarrow>
     (case c w1 of (Inl e, w2) \<Rightarrow> (Inl e, w2) | (Inr u, w2) \<Rightarrow> (r, w2)))"

lemma snd_io_finally: "snd (io_finally m c w) = snd (c (snd (m w)))"
  by (simp add: io_finally_def split: prod.splits sum.splits)

lemma io_finally_Inr:
  "io_finally m c w = (Inr x, w') \<longleftrightarrow> (\<exists>w1 u. m w = (Inr x, w1) \<and> c w1 = (Inr u, w'))"
  by (auto simp: io_finally_def split: prod.splits sum.splits)

lemma io_bind_ret [simp]: "io_bind (io_ret x) f = f x"
  by (simp add: io_bind_def io_ret_def)

lemma io_bind_raise [simp]: "io_bind (io_raise e) f = io_raise e"
  by (simp add: io_bind_def io_raise_def)

lemma io_bind_Inr:
  "io_bind m f w = (Inr y, w') \<longleftrightarrow> (\<exists>x w1. m w = (Inr x, w1) \<and> f x w1 = (Inr y, w'))"
  by (auto simp: io_bind_def split: prod.splits sum.splits)

lemma io_bind_Inl:
  "io_bind m f w = (Inl e, w') \<longleftrightarrow>
     m w = (Inl e, w') \<or> (\<exists>x w1. m w = (Inr x, w1) \<and> f x w1 = (Inl e, w'))"
  by (auto simp: io_bind_def split: prod.splits sum.splits)

lemma snd_io_bind:
  "snd (io_bind f g w) = (case fst (f w) of Inl e \<Rightarrow> snd (f w) | Inr x \<Rightarrow> snd (g x (snd (f w))))"
  by (simp add: io_bind_def split: prod.splits sum.splits)

text \<open>A property of the world that both halves of a sequence keep, the sequence keeps.\<close>

lemma io_bind_keeps:
  "P w \<Longrightarrow> (\<And>w. P w \<Longrightarrow> P (snd (m w))) \<Longrightarrow> (\<And>x w. P w \<Longrightarrow> P (snd (f x w))) \<Longrightarrow> P (snd (io_bind m f w))"
  by (auto simp: snd_io_bind split: sum.splits)

lemma snd_io_catch:
  "snd (io_catch m f w) = (case fst (m w) of Inl e \<Rightarrow> snd (f e (snd (m w))) | Inr x \<Rightarrow> snd (m w))"
  by (simp add: io_catch_def split: prod.splits sum.splits)

lemma io_catch_keeps:
  "P w \<Longrightarrow> (\<And>w. P w \<Longrightarrow> P (snd (m w))) \<Longrightarrow> (\<And>e w. P w \<Longrightarrow> P (snd (f e w))) \<Longrightarrow> P (snd (io_catch m f w))"
  by (auto simp: snd_io_catch split: sum.splits)

lemma io_catch_Inr:
  "io_catch m h w = (Inr y, w') \<longleftrightarrow>
     m w = (Inr y, w') \<or> (\<exists>e w1. m w = (Inl e, w1) \<and> h e w1 = (Inr y, w'))"
  by (auto simp: io_catch_def split: prod.splits sum.splits)

lemma io_catch_Inl:
  "io_catch m h w = (Inl e, w') \<longleftrightarrow> (\<exists>e' w1. m w = (Inl e', w1) \<and> h e' w1 = (Inl e, w'))"
  by (auto simp: io_catch_def split: prod.splits sum.splits)

section \<open>Lists\<close>

text \<open>
  The first element with a property, as \<open>next((x for x in xs if p(x)), None)\<close>, is
  \<open>List.find\<close>; these rules read its two outcomes.
\<close>

lemma find_SomeD: "List.find p xs = Some x \<Longrightarrow> x \<in> set xs \<and> p x"
  by (induction xs) (auto split: if_splits)

lemma find_None_iff: "List.find p xs = None \<longleftrightarrow> (\<forall>x \<in> set xs. \<not> p x)"
  by (induction xs) (auto split: if_splits)

lemma find_filter: "List.find p (filter q xs) = List.find (\<lambda>x. q x \<and> p x) xs"
  by (induction xs) auto

lemma find_cong_set: "(\<And>x. x \<in> set xs \<Longrightarrow> p x = q x) \<Longrightarrow> List.find p xs = List.find q xs"
  by (induction xs) auto

text \<open>\<open>ORDER BY k DESC\<close> over a unique key: the ascending stable sort, reversed.\<close>

definition order_desc :: "('a \<Rightarrow> 'k::linorder) \<Rightarrow> 'a list \<Rightarrow> 'a list" where
  "order_desc k xs = rev (sort_key k xs)"

lemma set_order_desc [simp]: "set (order_desc k xs) = set xs"
  by (simp add: order_desc_def)

lemma length_order_desc [simp]: "length (order_desc k xs) = length xs"
  by (simp add: order_desc_def)

lemma order_desc_sorted: "sorted_wrt (\<lambda>a b. k b \<le> k a) (order_desc k xs)"
proof -
  have "sorted (map k (sort_key k xs))"
    by simp
  then have "sorted_wrt (\<lambda>a b. k a \<le> k b) (sort_key k xs)"
    by (simp add: sorted_map)
  then show ?thesis
    by (simp add: order_desc_def sorted_wrt_rev)
qed

lemma distinct_order_desc [simp]: "distinct (order_desc k xs) = distinct xs"
  by (simp add: order_desc_def)

lemma sorted_wrt_take: "sorted_wrt P xs \<Longrightarrow> sorted_wrt P (take n xs)"
  by (metis append_take_drop_id sorted_wrt_append)

lemma sorted_wrt_filter': "sorted_wrt P xs \<Longrightarrow> sorted_wrt P (filter q xs)"
  by (induction xs) auto

text \<open>The largest key of a list of rows, 0 for an empty one: \<open>COALESCE(MAX(id), 0)\<close>.\<close>

definition max_or0 :: "int list \<Rightarrow> int" where
  "max_or0 xs = (case xs of [] \<Rightarrow> 0 | _ \<Rightarrow> foldr max (tl xs) (hd xs))"

lemma foldr_max_ge: "x \<in> set xs \<or> x = a \<Longrightarrow> (x::int) \<le> foldr max xs a"
  by (induction xs) (auto intro: max.coboundedI1 max.coboundedI2)

lemma foldr_max_mem: "foldr max xs (a::int) \<in> insert a (set xs)"
  by (induction xs) (auto simp: max_def)

lemma max_or0_ge: "x \<in> set xs \<Longrightarrow> x \<le> max_or0 xs"
  by (cases xs) (auto simp: max_or0_def intro: foldr_max_ge)

lemma max_or0_mem: "xs \<noteq> [] \<Longrightarrow> max_or0 xs \<in> set xs"
  using foldr_max_mem by (cases xs) (auto simp: max_or0_def)

lemma max_or0_Nil [simp]: "max_or0 [] = 0"
  by (simp add: max_or0_def)

text \<open>The smallest, 0 for an empty one: \<open>COALESCE(MIN(id), 0)\<close>.\<close>

definition min_or0 :: "int list \<Rightarrow> int" where
  "min_or0 xs = (case xs of [] \<Rightarrow> 0 | _ \<Rightarrow> foldr min (tl xs) (hd xs))"

lemma foldr_min_le: "x \<in> set xs \<or> x = a \<Longrightarrow> foldr min xs a \<le> (x::int)"
  by (induction xs) (auto intro: min.coboundedI1 min.coboundedI2)

lemma min_or0_le: "x \<in> set xs \<Longrightarrow> min_or0 xs \<le> x"
  by (cases xs) (auto simp: min_or0_def intro: foldr_min_le)

end
