(* ===== verification/PyStr.thy ===== *)
theory PyStr
  imports Prelude
begin

text \<open>
  The string operations of the Python standard library that the sources use, on ASCII
  text: case folding, stripping, splitting, joining, substring search, and the decimal
  notation of integers read by \<open>int()\<close> and written by \<open>str()\<close>.
\<close>

definition code :: "char \<Rightarrow> nat" where
  "code c = of_char c"

section \<open>Characters\<close>

definition lower_char :: "char \<Rightarrow> char" where
  "lower_char c = (if 65 \<le> code c \<and> code c \<le> 90 then char_of (code c + 32) else c)"

definition is_space :: "char \<Rightarrow> bool" where
  "is_space c \<longleftrightarrow> (9 \<le> code c \<and> code c \<le> 13) \<or> (28 \<le> code c \<and> code c \<le> 32)"

definition is_digit :: "char \<Rightarrow> bool" where
  "is_digit c \<longleftrightarrow> 48 \<le> code c \<and> code c \<le> 57"

definition is_alpha :: "char \<Rightarrow> bool" where
  "is_alpha c \<longleftrightarrow> (65 \<le> code c \<and> code c \<le> 90) \<or> (97 \<le> code c \<and> code c \<le> 122)"

text \<open>The line boundaries of \<open>str.splitlines\<close>.\<close>

definition is_break :: "char \<Rightarrow> bool" where
  "is_break c \<longleftrightarrow> (10 \<le> code c \<and> code c \<le> 13) \<or> (28 \<le> code c \<and> code c \<le> 30)"

definition chr_nl :: char where "chr_nl = CHR 0x0A"
definition chr_cr :: char where "chr_cr = CHR 0x0D"
definition chr_tab :: char where "chr_tab = CHR 0x09"
definition chr_nul :: char where "chr_nul = CHR 0x00"
definition chr_quote :: char where "chr_quote = CHR 0x27"
definition chr_dquote :: char where "chr_dquote = CHR 0x22"
definition chr_backslash :: char where "chr_backslash = CHR 0x5C"

lemmas chr_defs = chr_nl_def chr_cr_def chr_tab_def chr_nul_def chr_quote_def chr_dquote_def
  chr_backslash_def

lemma code_char_of [simp]: "n < 256 \<Longrightarrow> code (char_of n) = n"
  by (simp add: code_def)

lemma is_break_space: "is_break c \<Longrightarrow> is_space c"
  by (auto simp: is_break_def is_space_def)

lemma lower_char_idem [simp]: "lower_char (lower_char c) = lower_char c"
  by (auto simp: lower_char_def)

section \<open>Strings\<close>

definition lower :: "string \<Rightarrow> string" where
  "lower s = map lower_char s"

definition lstrip :: "string \<Rightarrow> string" where
  "lstrip s = dropWhile is_space s"

definition rstrip :: "string \<Rightarrow> string" where
  "rstrip s = rev (dropWhile is_space (rev s))"

definition strip :: "string \<Rightarrow> string" where
  "strip s = rstrip (lstrip s)"

fun starts_with :: "string \<Rightarrow> string \<Rightarrow> bool" where
  "starts_with [] s = True"
| "starts_with (p # ps) [] = False"
| "starts_with (p # ps) (c # cs) = (p = c \<and> starts_with ps cs)"

fun contains_sub :: "string \<Rightarrow> string \<Rightarrow> bool" where
  "contains_sub p [] = (p = [])"
| "contains_sub p (c # cs) = (starts_with p (c # cs) \<or> contains_sub p cs)"

fun join :: "string \<Rightarrow> string list \<Rightarrow> string" where
  "join sep [] = []"
| "join sep [x] = x"
| "join sep (x # y # zs) = x @ sep @ join sep (y # zs)"

text \<open>\<open>s.split(c)\<close> for a one-character separator.\<close>

fun split_on :: "char \<Rightarrow> string \<Rightarrow> string list" where
  "split_on c [] = [[]]"
| "split_on c (x # xs) =
     (if x = c then [] # split_on c xs
      else (case split_on c xs of [] \<Rightarrow> [[x]] | w # ws \<Rightarrow> (x # w) # ws))"

text \<open>\<open>s.split()\<close>: the maximal runs of characters that are not white space.\<close>

fun split_ws :: "string \<Rightarrow> string list" where
  "split_ws [] = []"
| "split_ws (x # xs) =
     (if is_space x then split_ws xs
      else (case xs of
          [] \<Rightarrow> [[x]]
        | y # ys \<Rightarrow> if is_space y then [x] # split_ws xs
            else (case split_ws xs of [] \<Rightarrow> [[x]] | w # ws \<Rightarrow> (x # w) # ws)))"

text \<open>
  \<open>s.splitlines()\<close>: no empty line after a final boundary; CR LF is one boundary, and so are the
  characters U+0085, U+2028 and U+2029, here in their UTF-8 bytes.
\<close>

definition break_rest :: "string \<Rightarrow> string option" where
  "break_rest s =
     (case s of
        [] \<Rightarrow> None
      | c # r \<Rightarrow>
          if is_break c then Some (if c = chr_cr \<and> starts_with [chr_nl] r then tl r else r)
          else if c = CHR 0xE2 \<and> (starts_with [CHR 0x80, CHR 0xA8] r \<or> starts_with [CHR 0x80, CHR 0xA9] r)
          then Some (drop 2 r)
          else if c = CHR 0xC2 \<and> starts_with [CHR 0x85] r then Some (tl r)
          else None)"

lemma break_rest_shorter: "break_rest s = Some r \<Longrightarrow> length r < length s"
  by (auto simp: break_rest_def split: list.splits if_splits)

function splitlines :: "string \<Rightarrow> string list" where
  "splitlines [] = []"
| "splitlines (x # xs) =
     (case break_rest (x # xs) of
        Some r \<Rightarrow> [] # splitlines r
      | None \<Rightarrow> (case xs of [] \<Rightarrow> [[x]]
          | _ \<Rightarrow> (case splitlines xs of [] \<Rightarrow> [[x]] | w # ws \<Rightarrow> (x # w) # ws)))"
  by pat_completeness auto
termination by (relation "measure length") (auto dest: break_rest_shorter)

lemma starts_with_append [simp]: "starts_with p (p @ s)"
  by (induction p) auto

lemma starts_with_iff: "starts_with p s \<longleftrightarrow> (\<exists>r. s = p @ r)"
  by (induction p s rule: starts_with.induct) auto

lemma contains_sub_iff: "contains_sub p s \<longleftrightarrow> (\<exists>a b. s = a @ p @ b)"
proof (induction p s rule: contains_sub.induct)
  case (1 p)
  show ?case by simp
next
  case (2 p c cs)
  show ?case
  proof
    assume "contains_sub p (c # cs)"
    then consider "starts_with p (c # cs)" | "contains_sub p cs" by auto
    then show "\<exists>a b. c # cs = a @ p @ b"
    proof cases
      case 1
      then obtain r where "c # cs = [] @ p @ r" by (auto simp: starts_with_iff)
      then show ?thesis by blast
    next
      case 2
      with "2.IH" obtain a b where "cs = a @ p @ b" by blast
      then have "c # cs = (c # a) @ p @ b" by simp
      then show ?thesis by blast
    qed
  next
    assume "\<exists>a b. c # cs = a @ p @ b"
    then obtain a b where ab: "c # cs = a @ p @ b" by blast
    show "contains_sub p (c # cs)"
    proof (cases a)
      case Nil
      with ab have "starts_with p (c # cs)" by (simp add: starts_with_iff)
      then show ?thesis by simp
    next
      case (Cons d a')
      with ab have "cs = a' @ p @ b" by simp
      with "2.IH" show ?thesis by auto
    qed
  qed
qed

lemma lstrip_id: "s = [] \<or> \<not> is_space (hd s) \<Longrightarrow> lstrip s = s"
  by (cases s) (auto simp: lstrip_def)

lemma rstrip_id: "s = [] \<or> \<not> is_space (last s) \<Longrightarrow> rstrip s = s"
  by (cases s rule: rev_cases) (auto simp: rstrip_def)

lemma lstrip_hd: "lstrip s \<noteq> [] \<Longrightarrow> \<not> is_space (hd (lstrip s))"
  by (simp add: lstrip_def hd_dropWhile)

lemma rstrip_last: "rstrip s \<noteq> [] \<Longrightarrow> \<not> is_space (last (rstrip s))"
  by (simp add: rstrip_def last_rev hd_dropWhile)

lemma rstrip_hd: "rstrip s \<noteq> [] \<Longrightarrow> hd (rstrip s) = hd s"
proof -
  assume ne: "rstrip s \<noteq> []"
  have "s = rstrip s @ rev (takeWhile is_space (rev s))"
    unfolding rstrip_def by (metis rev_append rev_rev_ident takeWhile_dropWhile_id)
  with ne show ?thesis by (metis hd_append2)
qed

lemma strip_strip [simp]: "strip (strip s) = strip s"
proof (cases "strip s = []")
  case True
  moreover have "strip [] = []" by (simp add: strip_def lstrip_def rstrip_def)
  ultimately show ?thesis by simp
next
  case False
  then have ne: "rstrip (lstrip s) \<noteq> []" by (simp add: strip_def)
  then have "lstrip s \<noteq> []" by (auto simp: rstrip_def)
  then have "\<not> is_space (hd (strip s))"
    using ne rstrip_hd lstrip_hd by (simp add: strip_def)
  moreover have "\<not> is_space (last (strip s))"
    using ne rstrip_last by (simp add: strip_def)
  ultimately show ?thesis
    by (metis lstrip_id rstrip_id strip_def)
qed

lemma set_lstrip: "set (lstrip s) \<subseteq> set s"
  by (auto simp: lstrip_def dest: set_dropWhileD)

lemma set_rstrip: "set (rstrip s) \<subseteq> set s"
  by (auto simp: rstrip_def dest: set_dropWhileD)

lemma set_strip: "set (strip s) \<subseteq> set s"
  using set_lstrip set_rstrip by (fastforce simp: strip_def)

lemma split_on_ne [simp]: "split_on c s \<noteq> []"
  by (induction s) (auto split: list.splits)

lemma split_on_free: "c \<notin> set s \<Longrightarrow> split_on c s = [s]"
  by (induction s) auto

lemma split_on_append: "c \<notin> set a \<Longrightarrow> split_on c (a @ c # b) = a # split_on c b"
  by (induction a) auto

lemma split_on_join1: "c \<notin> set a \<Longrightarrow> c \<notin> set b \<Longrightarrow> split_on c (a @ [c] @ b) = [a, b]"
  by (simp add: split_on_append split_on_free)

lemma split_on_prefix: "\<exists>ws. ws \<noteq> [] \<and> split_on c (a @ c # b) = ws @ split_on c b"
proof (induction a)
  case Nil
  have "split_on c ([] @ c # b) = [[]] @ split_on c b" by simp
  then show ?case by blast
next
  case (Cons x a)
  then obtain ws where ws: "ws \<noteq> []" "split_on c (a @ c # b) = ws @ split_on c b" by blast
  then obtain v vs where v: "ws = v # vs" by (cases ws) auto
  have "split_on c ((x # a) @ c # b) =
      (if x = c then [] # ws else (x # v) # vs) @ split_on c b"
    using ws v by simp
  then show ?case by (metis list.distinct(1))
qed

lemma split_on_last: "last (split_on c (a @ c # b)) = last (split_on c b)"
  by (metis last_append split_on_ne split_on_prefix)

text \<open>A text without a line boundary, and plain characters, which neither are one nor begin one.\<close>

fun line_free :: "string \<Rightarrow> bool" where
  "line_free [] = True"
| "line_free (c # cs) = (break_rest (c # cs) = None \<and> line_free cs)"

definition plain :: "char \<Rightarrow> bool" where
  "plain c \<longleftrightarrow> \<not> is_break c \<and> c \<noteq> CHR 0xE2 \<and> c \<noteq> CHR 0xC2"

lemma line_free_plain: "list_all plain a \<Longrightarrow> line_free (a @ b) = line_free b"
  by (induction a) (auto simp: plain_def break_rest_def)

lemma plain_line_free: "list_all plain a \<Longrightarrow> line_free a"
  using line_free_plain [of a "[]"] by simp

lemma break_rest_nl: "break_rest (chr_nl # rest) = Some rest"
  by (simp add: break_rest_def chr_defs is_break_def code_def)

lemma break_rest_append_nl:
  "break_rest (c # cs) = None \<Longrightarrow> break_rest (c # cs @ chr_nl # rest) = None"
  by (cases cs; cases "tl cs")
     (auto simp: break_rest_def chr_defs is_break_def code_def split: if_splits)

text \<open>Lines joined with LF and closed by one split into the same lines.\<close>

lemma splitlines_line: "line_free l \<Longrightarrow> splitlines (l @ chr_nl # rest) = l # splitlines rest"
proof (induction l)
  case Nil
  show ?case by (simp add: break_rest_nl)
next
  case (Cons c l)
  then have "break_rest (c # l @ chr_nl # rest) = None" using break_rest_append_nl by simp
  with Cons show ?case by (cases "l @ chr_nl # rest") simp_all
qed

lemma splitlines_join:
  "list_all line_free ls \<Longrightarrow> ls \<noteq> [] \<Longrightarrow> splitlines (join [chr_nl] ls @ [chr_nl]) = ls"
proof (induction "[chr_nl]" ls rule: join.induct)
  case (2 x)
  then show ?case using splitlines_line [of x "[]"] by simp
next
  case (3 x y zs)
  then show ?case using splitlines_line [of x "join [chr_nl] (y # zs) @ [chr_nl]"] by simp
qed simp

lemma splitlines_concat:
  "list_all line_free ls \<Longrightarrow> splitlines (concat (map (\<lambda>l. l @ [chr_nl]) ls)) = ls"
  by (induction ls) (simp_all add: splitlines_line)

text \<open>Every line that \<open>splitlines\<close> returns is free of boundaries, and so is any part of it.\<close>

lemma break_rest_prefix: "break_rest (x # v @ r) = None \<Longrightarrow> break_rest (x # v) = None"
  by (auto simp: break_rest_def starts_with_iff split: if_splits)

lemma break_rest_tail: "line_free (c # s) \<Longrightarrow> line_free s"
  by simp

lemma line_free_suffix: "line_free s \<Longrightarrow> a @ b = s \<Longrightarrow> line_free b"
  by (induction a arbitrary: s) auto

lemma line_free_dropWhile: "line_free s \<Longrightarrow> line_free (dropWhile P s)"
  using line_free_suffix [of s "takeWhile P s"] by simp

lemma line_free_drop: "line_free s \<Longrightarrow> line_free (drop n s)"
  using line_free_suffix [of s "take n s"] by simp

lemma line_free_prefix: "line_free (a @ b) \<Longrightarrow> line_free a"
  by (induction a) (auto dest: break_rest_prefix)

lemma line_free_strip:
  assumes "line_free s" shows "line_free (strip s)"
proof -
  have "line_free (lstrip s)"
    unfolding lstrip_def by (rule line_free_dropWhile [OF assms])
  moreover have "lstrip s = strip s @ rev (takeWhile is_space (rev (lstrip s)))"
    unfolding strip_def rstrip_def by (metis rev_append rev_rev_ident takeWhile_dropWhile_id)
  ultimately show ?thesis using line_free_prefix by metis
qed

lemma splitlines_prefix: "splitlines s = v # vs \<Longrightarrow> \<exists>r. s = v @ r"
proof (induction s arbitrary: v vs rule: splitlines.induct)
  case (2 x xs)
  show ?case
  proof (cases "break_rest (x # xs)")
    case None
    show ?thesis
    proof (cases xs)
      case Nil
      then show ?thesis using 2(3) None by simp
    next
      case (Cons y ys)
      show ?thesis
      proof (cases "splitlines xs")
        case Nil
        then have "v = [x]" using 2(3) None Cons by simp
        then show ?thesis by simp
      next
        case sp: (Cons w ws)
        then obtain r where "xs = w @ r" using "2.IH"(1) [OF None Cons] Cons by blast
        moreover have "v = x # w" using 2(3) None Cons sp by simp
        ultimately show ?thesis by simp
      qed
    qed
  qed (use 2 in auto)
qed simp

lemma splitlines_free: "l \<in> set (splitlines s) \<Longrightarrow> line_free l"
proof (induction s arbitrary: l rule: splitlines.induct)
  case (2 x xs)
  show ?case
  proof (cases "break_rest (x # xs)")
    case (Some r)
    with 2 show ?thesis by auto
  next
    case None
    have one: "break_rest [x] = None" using None break_rest_prefix [of x "[]" xs] by simp
    show ?thesis
    proof (cases xs)
      case Nil
      then show ?thesis using 2(3) None one by simp
    next
      case (Cons y ys)
      have IH: "line_free k" if "k \<in> set (splitlines xs)" for k
        using "2.IH"(1) [OF None Cons] Cons that by simp
      show ?thesis
      proof (cases "splitlines xs")
        case Nil
        then show ?thesis using 2(3) None one Cons by simp
      next
        case (Cons v vs)
        then obtain r where "xs = v @ r" using splitlines_prefix by blast
        then have "break_rest (x # v) = None" using None break_rest_prefix by simp
        moreover have "l \<in> set ((x # v) # vs)" using 2(3) None Cons \<open>xs = y # ys\<close> by simp
        ultimately show ?thesis using IH Cons by auto
      qed
    qed
  qed
qed simp

lemma line_free_no_nl: "line_free s \<Longrightarrow> chr_nl \<notin> set s"
  by (induction s) (auto simp: break_rest_nl)

text \<open>\<open>f"{s:<n}"\<close> and \<open>f"{s:>n}"\<close>: blanks up to width \<open>n\<close>, a longer text as it is.\<close>

definition ljust :: "nat \<Rightarrow> string \<Rightarrow> string" where
  "ljust n s = s @ replicate (n - length s) (CHR '' '')"

definition rjust :: "nat \<Rightarrow> string \<Rightarrow> string" where
  "rjust n s = replicate (n - length s) (CHR '' '') @ s"

section \<open>Decimal notation\<close>

definition digit_char :: "nat \<Rightarrow> char" where
  "digit_char d = char_of (48 + d)"

definition digit_val :: "char \<Rightarrow> int" where
  "digit_val c = int (code c) - 48"

fun show_nat :: "nat \<Rightarrow> string" where
  "show_nat n =
     (if n < 10 then [digit_char n] else show_nat (n div 10) @ [digit_char (n mod 10)])"

declare show_nat.simps [simp del]

definition show_int :: "int \<Rightarrow> string" where
  "show_int i = (if i < 0 then CHR ''-'' # show_nat (nat (- i)) else show_nat (nat i))"

text \<open>
  Python's \<open>int(s)\<close>: surrounding white space, an optional sign, digits with single
  underscores between them.
\<close>

fun int_digits :: "int \<Rightarrow> bool \<Rightarrow> string \<Rightarrow> int option" where
  "int_digits acc ok [] = (if ok then Some acc else None)"
| "int_digits acc ok (c # cs) =
     (if is_digit c then int_digits (10 * acc + digit_val c) True cs
      else if c = CHR ''_'' \<and> ok then int_digits acc False cs
      else None)"

definition parse_int :: "string \<Rightarrow> int option" where
  "parse_int s =
     (case strip s of
        [] \<Rightarrow> None
      | c # cs \<Rightarrow>
          if c = CHR ''-'' then map_option uminus (int_digits 0 False cs)
          else if c = CHR ''+'' then int_digits 0 False cs
          else int_digits 0 False (c # cs))"

lemma digit_char_digit [simp]: "d < 10 \<Longrightarrow> is_digit (digit_char d)"
  by (simp add: is_digit_def digit_char_def)

lemma digit_val_char [simp]: "d < 10 \<Longrightarrow> digit_val (digit_char d) = int d"
  by (simp add: digit_val_def digit_char_def)

lemma show_nat_digits: "\<forall>c \<in> set (show_nat n). is_digit c"
proof (induction n rule: show_nat.induct)
  case (1 n)
  then show ?case by (subst show_nat.simps) auto
qed

lemma show_nat_ne [simp]: "show_nat n \<noteq> []"
  by (subst show_nat.simps) simp

lemma int_digits_foldl:
  "\<forall>c \<in> set xs. is_digit c \<Longrightarrow> xs \<noteq> [] \<or> ok \<Longrightarrow>
     int_digits acc ok xs = Some (foldl (\<lambda>a c. 10 * a + digit_val c) acc xs)"
  by (induction xs arbitrary: acc ok) auto

lemma foldl_show_nat: "foldl (\<lambda>a c. 10 * a + digit_val c) 0 (show_nat n) = int n"
proof (induction n rule: show_nat.induct)
  case (1 n)
  show ?case
  proof (cases "n < 10")
    case True
    then show ?thesis by (simp add: show_nat.simps [of n])
  next
    case False
    with "1.IH" have "foldl (\<lambda>a c. 10 * a + digit_val c) 0 (show_nat (n div 10)) = int (n div 10)"
      by simp
    moreover have "10 * int (n div 10) + int (n mod 10) = int (10 * (n div 10) + n mod 10)"
      by (simp only: of_nat_add of_nat_mult of_nat_numeral)
    ultimately show ?thesis using False by (simp add: show_nat.simps [of n])
  qed
qed

lemma digit_not_space: "is_digit c \<Longrightarrow> \<not> is_space c"
  by (auto simp: is_digit_def is_space_def)

lemma strip_id: "s \<noteq> [] \<Longrightarrow> \<not> is_space (hd s) \<Longrightarrow> \<not> is_space (last s) \<Longrightarrow> strip s = s"
  by (simp add: strip_def lstrip_id rstrip_id)

lemma strip_no_space: "\<forall>c \<in> set s. \<not> is_space c \<Longrightarrow> strip s = s"
  by (cases "s = []") (auto simp: strip_id, simp add: strip_def lstrip_def rstrip_def)

lemma show_nat_no_space: "\<forall>c \<in> set (show_nat n). \<not> is_space c"
  using show_nat_digits digit_not_space by blast

lemma show_int_no_space: "\<forall>c \<in> set (show_int i). \<not> is_space c"
  using show_nat_no_space by (auto simp: show_int_def is_space_def code_def)

lemma digits_parse: "int_digits 0 False (show_nat n) = Some (int n)"
  using int_digits_foldl [OF show_nat_digits, of n False 0] foldl_show_nat by simp

lemma show_nat_hd: "is_digit (hd (show_nat n))"
  using show_nat_digits by (meson hd_in_set show_nat_ne)

lemma parse_show_int [simp]: "parse_int (show_int i) = Some i"
proof (cases "i < 0")
  case True
  have "strip (show_int i) = show_int i"
    by (rule strip_no_space) (rule show_int_no_space)
  with True show ?thesis
    by (simp add: parse_int_def show_int_def digits_parse)
next
  case False
  have "strip (show_int i) = show_int i"
    by (rule strip_no_space) (rule show_int_no_space)
  moreover obtain c cs where c: "show_nat (nat i) = c # cs"
    by (meson neq_Nil_conv show_nat_ne)
  moreover have "is_digit c"
    using show_nat_hd [of "nat i"] c by simp
  then have "c \<noteq> CHR ''-''" "c \<noteq> CHR ''+''"
    by (auto simp: is_digit_def code_def)
  ultimately show ?thesis
    using False digits_parse [of "nat i"] by (simp add: parse_int_def show_int_def)
qed

lemma show_int_free: "\<not> is_digit c \<Longrightarrow> c \<noteq> CHR ''-'' \<Longrightarrow> c \<notin> set (show_int i)"
  using show_nat_digits by (auto simp: show_int_def)

section \<open>UTF-8\<close>

text \<open>
  A text is represented by its UTF-8 bytes; these are the byte strings that decode to one.
\<close>

definition cont_byte :: "char \<Rightarrow> bool" where
  "cont_byte c \<longleftrightarrow> 128 \<le> code c \<and> code c < 192"

fun utf8_valid :: "string \<Rightarrow> bool" where
  "utf8_valid [] = True"
| "utf8_valid (a # s) =
     (if code a < 128 then utf8_valid s
      else if code a < 194 then False
      else if code a < 224 then
        (case s of b # r \<Rightarrow> cont_byte b \<and> utf8_valid r | _ \<Rightarrow> False)
      else if code a < 240 then
        (case s of b # c # r \<Rightarrow> cont_byte b \<and> cont_byte c \<and>
             (code a = 224 \<longrightarrow> 160 \<le> code b) \<and> (code a = 237 \<longrightarrow> code b < 160) \<and> utf8_valid r
         | _ \<Rightarrow> False)
      else if code a < 245 then
        (case s of b # c # d # r \<Rightarrow> cont_byte b \<and> cont_byte c \<and> cont_byte d \<and>
             (code a = 240 \<longrightarrow> 144 \<le> code b) \<and> (code a = 244 \<longrightarrow> code b < 144) \<and> utf8_valid r
         | _ \<Rightarrow> False)
      else False)"

lemma utf8_ascii: "list_all (\<lambda>c. code c < 128) s \<Longrightarrow> utf8_valid s"
  by (induction s) auto

end
