(* ===== verification/Adb.thy ===== *)
theory Adb
  imports PyStr
begin

text \<open>
  The wrapper around the adb command line, \<open>device/adb.py\<close>. What lies outside the program is
  the record \<open>host\<close>: the processes it starts, the files it reads and writes, sockets and random
  numbers, each a function of a world \<open>'w\<close> that is a parameter throughout. A process returns
  its exit code, standard output and standard error as text, or raises a timeout.
\<close>

record 'w host =
  ho_which_adb :: "'w \<Rightarrow> string option"
  ho_server_socket :: "'w \<Rightarrow> string option"
  ho_run :: "string list \<Rightarrow> int \<Rightarrow> ('w, int \<times> string \<times> string) io"
  ho_unit_names :: "'w \<Rightarrow> string list option"
  ho_read_unit :: "string \<Rightarrow> 'w \<Rightarrow> string option"
  ho_write_unit :: "string \<Rightarrow> string \<Rightarrow> ('w, unit) io"
  ho_randbelow :: "int \<Rightarrow> ('w, int) io"
  ho_listen :: "('w, int \<times> int) io"
  ho_close :: "int \<Rightarrow> ('w, unit) io"
  ho_file_size :: "string \<Rightarrow> ('w, int) io"
  ho_read_file :: "string \<Rightarrow> ('w, string) io"
  ho_unlink :: "string \<Rightarrow> ('w, unit) io"

definition DEVICE_STATE_READY :: string where "DEVICE_STATE_READY = ''device''"
definition MIN_DEVICE_LISTING_FIELDS :: nat where "MIN_DEVICE_LISTING_FIELDS = 2"
definition DEFAULT_TIMEOUT_SECONDS :: int where "DEFAULT_TIMEOUT_SECONDS = 60"
definition LIST_TIMEOUT_SECONDS :: int where "LIST_TIMEOUT_SECONDS = 20"
definition ROOT_TIMEOUT_SECONDS :: int where "ROOT_TIMEOUT_SECONDS = 120"
definition PUSH_TIMEOUT_SECONDS :: int where "PUSH_TIMEOUT_SECONDS = 300"

record device =
  dv_serial :: string
  dv_state :: string

definition is_usable :: "device \<Rightarrow> bool" where
  "is_usable d \<longleftrightarrow> dv_state d = DEVICE_STATE_READY"

definition io_read :: "('w \<Rightarrow> 'a) \<Rightarrow> ('w, 'a) io" where
  "io_read f = (\<lambda>w. (Inr (f w), w))"

lemma io_read_app [io_simps, simp]: "io_read f w = (Inr (f w), w)"
  by (simp add: io_read_def)

section \<open>Finding adb and its devices\<close>

definition find_adb_binary :: "'w host \<Rightarrow> ('w, string) io" where
  "find_adb_binary h =
     io_bind (io_read (ho_which_adb h)) (\<lambda>p. case p of
       Some b \<Rightarrow> if b = [] then io_raise (AdbError ''adb not found on PATH. Install android-tools/platform-tools.'')
                 else io_ret b
     | None \<Rightarrow> io_raise (AdbError ''adb not found on PATH. Install android-tools/platform-tools.''))"

definition build_adb_command :: "'w host \<Rightarrow> ('w, string list) io" where
  "build_adb_command h =
     io_bind (find_adb_binary h) (\<lambda>b.
     io_bind (io_read (ho_server_socket h)) (\<lambda>socket.
     io_ret (case socket of
         Some s \<Rightarrow> if s = [] then [b] else [b, ''-L'', s]
       | None \<Rightarrow> [b])))"

definition parse_devices :: "string \<Rightarrow> device list" where
  "parse_devices listing =
     concat (map (\<lambda>l. case split_ws (strip l) of
         a # b # rest \<Rightarrow> [\<lparr>dv_serial = a, dv_state = b\<rparr>]
       | _ \<Rightarrow> []) (tl (splitlines listing)))"

definition list_devices :: "'w host \<Rightarrow> ('w, device list) io" where
  "list_devices h =
     io_bind (build_adb_command h) (\<lambda>cmd.
     io_bind (ho_run h (cmd @ [''devices'']) LIST_TIMEOUT_SECONDS) (\<lambda>(rc, out, err).
     io_ret (parse_devices out)))"

definition states_of :: "device list \<Rightarrow> (string, string) dict" where
  "states_of ds = fold (\<lambda>d m. dict_set (dv_serial d) (dv_state d) m) ds []"

text \<open>Without a serial the only usable device is taken; none or several are refused.\<close>

definition choose_only :: "device list \<Rightarrow> ('w, string) io" where
  "choose_only usable =
     (case usable of
        [] \<Rightarrow> io_raise (AdbError ''no usable device connected'')
      | [d] \<Rightarrow> io_ret (dv_serial d)
      | _ \<Rightarrow> io_raise (AdbError (''several devices connected ('' @ join '', '' (map dv_serial usable) @
          ''); pass --unit or --serial'')))"

definition resolve_serial :: "'w host \<Rightarrow> string option \<Rightarrow> ('w, string) io" where
  "resolve_serial h serial =
     io_bind (list_devices h) (\<lambda>all.
     let usable = filter is_usable all
     in case serial of
          Some s \<Rightarrow>
            if s = [] then choose_only usable
            else if list_ex (\<lambda>d. dv_serial d = s) usable then io_ret s
            else io_bind (list_devices h) (\<lambda>again.
              case dict_get s (states_of again) of
                Some st \<Rightarrow> io_raise (AdbError (''device '' @ s @ '' is in state '' @ [chr_quote] @ st @
                  [chr_quote] @ '', not 'device'. Unauthorized usually means the RSA prompt on the '' @
                  ''phone is unanswered.''))
              | None \<Rightarrow> io_raise (AdbError (''device '' @ s @ '' is not connected'')))
        | None \<Rightarrow> choose_only usable)"

section \<open>Running commands\<close>

definition run_exec_out :: "'w host \<Rightarrow> string \<Rightarrow> string list \<Rightarrow> int \<Rightarrow> ('w, string) io" where
  "run_exec_out h serial arguments timeout =
     io_bind (build_adb_command h) (\<lambda>cmd.
     io_bind (ho_run h (cmd @ [''-s'', serial, ''exec-out''] @ arguments) timeout) (\<lambda>(rc, out, err).
       if rc \<noteq> 0
       then io_raise (AdbError (if strip err \<noteq> [] then strip err
              else ''command failed: '' @ join '' '' arguments))
       else io_ret out))"

definition root_refused :: "string \<Rightarrow> bool" where
  "root_refused m =
     (let l = lower m
      in contains_sub ''denied'' l \<or> contains_sub ''not allowed'' l \<or> contains_sub ''not found'' l)"

definition root_failure :: "exn \<Rightarrow> ('w, string) io" where
  "root_failure e = (case e of
       TimeoutExpired \<Rightarrow> io_raise (AdbError (''the root request timed out. Magisk shows a '' @
         ''grant prompt on the phone's screen the first time; tap Grant, then retry. To stop it '' @
         ''asking: Magisk app > Superuser > Shell > set to Granted.''))
     | AdbError m \<Rightarrow>
         if root_refused m
         then io_raise (AdbError (''root refused ('' @ m @ ''). Check the phone's screen for a Magisk '' @
           ''grant prompt, or set Magisk app > Superuser > Shell > Granted.''))
         else io_raise e
     | _ \<Rightarrow> io_raise e)"

definition run_as_root :: "'w host \<Rightarrow> string \<Rightarrow> string \<Rightarrow> int \<Rightarrow> ('w, string) io" where
  "run_as_root h serial script timeout =
     io_catch (run_exec_out h serial [''su'', ''-c'', script] timeout) root_failure"

text \<open>\<open>shlex.quote\<close>\<close>

definition shell_safe :: "char \<Rightarrow> bool" where
  "shell_safe c \<longleftrightarrow> is_alpha c \<or> is_digit c \<or> c \<in> set ''_@%+=:,./-''"

definition quote_char :: "char \<Rightarrow> string" where
  "quote_char c =
     (if c = chr_quote then [chr_quote, chr_dquote, chr_quote, chr_dquote, chr_quote] else [c])"

definition shlex_quote :: "string \<Rightarrow> string" where
  "shlex_quote s =
     (if s = [] then [chr_quote, chr_quote]
      else if list_all shell_safe s then s
      else [chr_quote] @ concat (map quote_char s) @ [chr_quote])"

definition device_command :: "string list \<Rightarrow> string" where
  "device_command arguments = join '' '' (map shlex_quote (''rackphone'' # arguments))"

definition cli_failure :: "exn \<Rightarrow> ('w, string) io" where
  "cli_failure e = (case e of
       AdbError m \<Rightarrow>
         if contains_sub ''not found'' m
         then io_raise (AdbError (''the on-device `rackphone` command is missing. Install the '' @
           ''rackphone-core Magisk module first (`rackphone install`), '' @
           ''and reboot so Magisk mounts it.''))
         else io_raise e
     | _ \<Rightarrow> io_raise e)"

definition run_device_cli :: "'w host \<Rightarrow> string \<Rightarrow> string list \<Rightarrow> int \<Rightarrow> ('w, string) io" where
  "run_device_cli h serial arguments timeout =
     io_catch (run_as_root h serial (device_command arguments) timeout) cli_failure"

definition adb_command :: "'w host \<Rightarrow> string \<Rightarrow> string list \<Rightarrow> string \<Rightarrow> ('w, string) io" where
  "adb_command h serial arguments what =
     io_bind (build_adb_command h) (\<lambda>cmd.
     io_bind (ho_run h (cmd @ [''-s'', serial] @ arguments) DEFAULT_TIMEOUT_SECONDS) (\<lambda>(rc, out, err).
       if rc \<noteq> 0 then io_raise (AdbError (if strip err \<noteq> [] then strip err else what @ '' failed''))
       else io_ret (strip out)))"

definition adb_forward :: "'w host \<Rightarrow> string \<Rightarrow> string \<Rightarrow> string \<Rightarrow> ('w, string) io" where
  "adb_forward h serial local_end remote =
     adb_command h serial [''forward'', local_end, remote] ''adb forward''"

definition remove_forward :: "'w host \<Rightarrow> string \<Rightarrow> string \<Rightarrow> ('w, unit) io" where
  "remove_forward h serial local_end =
     io_bind (adb_command h serial [''forward'', ''--remove'', local_end] ''adb forward removal'')
       (\<lambda>out. io_ret ())"

definition adb_reverse :: "'w host \<Rightarrow> string \<Rightarrow> string \<Rightarrow> string \<Rightarrow> ('w, unit) io" where
  "adb_reverse h serial remote local_end =
     io_bind (adb_command h serial [''reverse'', ''--no-rebind'', remote, local_end] ''adb reverse'')
       (\<lambda>out. io_ret ())"

definition remove_reverse :: "'w host \<Rightarrow> string \<Rightarrow> string \<Rightarrow> ('w, unit) io" where
  "remove_reverse h serial remote =
     io_bind (adb_command h serial [''reverse'', ''--remove'', remote] ''adb reverse removal'')
       (\<lambda>out. io_ret ())"

definition transfer :: "'w host \<Rightarrow> string \<Rightarrow> string list \<Rightarrow> ('w, unit) io" where
  "transfer h serial arguments =
     io_bind (build_adb_command h) (\<lambda>cmd.
     io_bind (ho_run h (cmd @ [''-s'', serial] @ arguments) PUSH_TIMEOUT_SECONDS) (\<lambda>(rc, out, err).
       if rc \<noteq> 0 then io_raise (AdbError (strip err)) else io_ret ()))"

definition push_file :: "'w host \<Rightarrow> string \<Rightarrow> string \<Rightarrow> string \<Rightarrow> ('w, unit) io" where
  "push_file h serial local_path remote_path = transfer h serial [''push'', local_path, remote_path]"

definition pull_file :: "'w host \<Rightarrow> string \<Rightarrow> string \<Rightarrow> string \<Rightarrow> ('w, unit) io" where
  "pull_file h serial remote_path local_path = transfer h serial [''pull'', remote_path, local_path]"

text \<open>\<open>except (AdbError, TimeoutExpired)\<close>: the failures callers translate.\<close>

definition device_fault :: "exn \<Rightarrow> bool" where
  "device_fault e = (case e of AdbError m \<Rightarrow> True | TimeoutExpired \<Rightarrow> True | _ \<Rightarrow> False)"

definition on_fault :: "('w, 'a) io \<Rightarrow> (exn \<Rightarrow> exn) \<Rightarrow> ('w, 'a) io" where
  "on_fault m f = io_catch m (\<lambda>e. io_raise (if device_fault e then f e else e))"

lemma on_fault_Inr [simp]: "on_fault m f w = (Inr x, w') \<longleftrightarrow> m w = (Inr x, w')"
  by (auto simp: on_fault_def io_catch_Inr)

section \<open>What the device's shell reads\<close>

text \<open>
  The words of a POSIX shell command line made of blanks, safe characters, single quotes and
  double quotes around text without expansions; \<open>None\<close> when a quote is left open or a
  character with a meaning to the shell stands unquoted.
\<close>

datatype quoting = Bare | Single | Double

definition extend_word :: "string option \<Rightarrow> string \<Rightarrow> string option" where
  "extend_word w s = Some ((case w of None \<Rightarrow> [] | Some v \<Rightarrow> v) @ s)"

definition close_word :: "string option \<Rightarrow> string list" where
  "close_word w = (case w of None \<Rightarrow> [] | Some v \<Rightarrow> [v])"

fun sh_words :: "quoting \<Rightarrow> string option \<Rightarrow> string \<Rightarrow> string list option" where
  "sh_words q w [] = (if q = Bare then Some (close_word w) else None)"
| "sh_words Bare w (c # cs) =
     (if c = CHR '' '' then map_option (\<lambda>ws. close_word w @ ws) (sh_words Bare None cs)
      else if c = chr_quote then sh_words Single (extend_word w []) cs
      else if c = chr_dquote then sh_words Double (extend_word w []) cs
      else if shell_safe c then sh_words Bare (extend_word w [c]) cs
      else None)"
| "sh_words Single w (c # cs) =
     (if c = chr_quote then sh_words Bare w cs else sh_words Single (extend_word w [c]) cs)"
| "sh_words Double w (c # cs) =
     (if c = chr_dquote then sh_words Bare w cs
      else if c \<in> set ''$`'' \<or> c = chr_backslash then None
      else sh_words Double (extend_word w [c]) cs)"

lemma extend_word_simps [simp]:
  "extend_word None s = Some s" "extend_word (Some v) s = Some (v @ s)"
  by (simp_all add: extend_word_def)

lemma close_word_simps [simp]: "close_word None = []" "close_word (Some v) = [v]"
  by (simp_all add: close_word_def)

lemma safe_not_quote: "shell_safe c \<Longrightarrow> c \<noteq> chr_quote \<and> c \<noteq> chr_dquote \<and> c \<noteq> CHR '' ''"
  by (auto simp: shell_safe_def chr_defs is_alpha_def is_digit_def code_def)

lemma sh_words_safe:
  "list_all shell_safe s \<Longrightarrow> sh_words Bare (Some v) (s @ rest) = sh_words Bare (Some (v @ s)) rest"
  by (induction s arbitrary: v) (auto dest: safe_not_quote)

lemma sh_words_quoted:
  "sh_words Single (Some v) (concat (map quote_char s) @ chr_quote # rest) =
     sh_words Bare (Some (v @ s)) rest"
  by (induction s arbitrary: v) (auto simp: quote_char_def, simp_all add: chr_defs)

lemma sh_words_quote: "sh_words Bare None (shlex_quote s @ rest) = sh_words Bare (Some s) rest"
proof -
  consider "s = []" | "s \<noteq> []" "list_all shell_safe s" | "s \<noteq> []" "\<not> list_all shell_safe s"
    by blast
  then show ?thesis
  proof cases
    case 1
    then show ?thesis by (simp add: shlex_quote_def chr_defs)
  next
    case 2
    then obtain c cs where s: "s = c # cs" "shell_safe c" "list_all shell_safe cs"
      by (cases s) auto
    then show ?thesis
      using sh_words_safe [of cs "[c]" rest] safe_not_quote [of c] 2(2) by (simp add: shlex_quote_def)
  next
    case 3
    then show ?thesis
      using sh_words_quoted [of "[]" s rest] by (simp add: shlex_quote_def) (simp add: chr_defs)
  qed
qed

lemma sh_words_join:
  "args \<noteq> [] \<Longrightarrow> sh_words Bare None (join '' '' (map shlex_quote args)) = Some args"
proof (induction args)
  case (Cons a args)
  show ?case
  proof (cases args)
    case Nil
    then show ?thesis using sh_words_quote [of a "[]"] by simp
  next
    case (Cons b bs)
    then have "join '' '' (map shlex_quote (a # args)) =
        shlex_quote a @ CHR '' '' # join '' '' (map shlex_quote args)"
      by simp
    with Cons.IH Cons show ?thesis by (simp add: sh_words_quote)
  qed
qed simp

section \<open>Lemmas\<close>

lemma choose_only_Inr:
  "choose_only us w = (Inr s, w') \<Longrightarrow> w' = w \<and> (\<exists>d. us = [d] \<and> dv_serial d = s)"
  by (auto simp: choose_only_def split: list.splits)

lemma resolve_serial_Inr:
  assumes "resolve_serial h serial w = (Inr s, w')"
  obtains all w1 where "list_devices h w = (Inr all, w1)"
    "\<exists>d \<in> set all. dv_serial d = s \<and> is_usable d"
    "serial = Some s \<and> s \<noteq> [] \<or>
     (serial = None \<or> serial = Some []) \<and> length (filter is_usable all) = 1"
proof -
  from assms obtain all w1 where l: "list_devices h w = (Inr all, w1)"
    and r: "(case serial of
          Some s \<Rightarrow>
            if s = [] then choose_only (filter is_usable all)
            else if list_ex (\<lambda>d. dv_serial d = s) (filter is_usable all) then io_ret s
            else io_bind (list_devices h) (\<lambda>again.
              case dict_get s (states_of again) of
                Some st \<Rightarrow> io_raise (AdbError (''device '' @ s @ '' is in state '' @ [chr_quote] @ st @
                  [chr_quote] @ '', not 'device'. Unauthorized usually means the RSA prompt on the '' @
                  ''phone is unanswered.''))
              | None \<Rightarrow> io_raise (AdbError (''device '' @ s @ '' is not connected'')))
        | None \<Rightarrow> choose_only (filter is_usable all)) w1 = (Inr s, w')"
    unfolding resolve_serial_def io_bind_Inr Let_def by blast
  have only: "choose_only (filter is_usable all) w1 = (Inr s, w') \<Longrightarrow>
      (\<exists>d \<in> set all. dv_serial d = s \<and> is_usable d) \<and> length (filter is_usable all) = 1"
    by (drule choose_only_Inr) (auto simp: filter_eq_Cons_iff)
  show thesis
  proof (cases serial)
    case None
    with r only l that show thesis by simp
  next
    case (Some a)
    show thesis
    proof (cases "a = []")
      case True
      with Some r only l that show thesis by simp
    next
      case False
      then have "list_ex (\<lambda>d. dv_serial d = a) (filter is_usable all) \<and> a = s"
        using r Some by (auto simp: io_bind_Inr split: if_splits option.splits)
      with Some False l that show thesis by (auto simp: list_ex_iff)
    qed
  qed
qed

lemma run_exec_out_Inr:
  "run_exec_out h serial args t w = (Inr out, w') \<longleftrightarrow>
     (\<exists>cmd w1 err. build_adb_command h w = (Inr cmd, w1) \<and>
        ho_run h (cmd @ [''-s'', serial, ''exec-out''] @ args) t w1 = (Inr (0, out, err), w'))"
  by (auto simp: run_exec_out_def io_bind_Inr split: if_splits)

lemma failures_raise [simp]:
  "root_failure e w = (Inr x, w') \<longleftrightarrow> False" "cli_failure e w = (Inr x, w') \<longleftrightarrow> False"
  by (cases e; simp add: root_failure_def cli_failure_def)+

lemma run_device_cli_Inr:
  "run_device_cli h serial args t w = (Inr out, w') \<longleftrightarrow>
     run_exec_out h serial [''su'', ''-c'', device_command args] t w = (Inr out, w')"
  unfolding run_device_cli_def run_as_root_def io_catch_Inr by simp

section \<open>Properties\<close>

text \<open>
  C10. Whatever text a client sends, the device's shell reads the command line as exactly the
  words the gateway meant: no argument, empty or with quotes, blanks or metacharacters in it,
  splits, merges or starts another command.
\<close>

theorem device_command_words: "sh_words Bare None (device_command args) = Some (''rackphone'' # args)"
  unfolding device_command_def by (rule sh_words_join) simp

text \<open>
  A serial is resolved only to a device that adb lists as ready; when the caller named
  one it is that one, and otherwise there is exactly one candidate.
\<close>

theorem resolve_serial_never_guesses:
  assumes "resolve_serial h serial w = (Inr s, w')"
  shows "\<exists>all w1. list_devices h w = (Inr all, w1) \<and>
    s \<in> dv_serial ` set (filter is_usable all) \<and>
    (serial = Some s \<or> (serial = None \<or> serial = Some []) \<and> length (filter is_usable all) = 1)"
  using assms by (rule resolve_serial_Inr) auto

definition sample_host :: "unit host" where
  "sample_host = \<lparr>ho_which_adb = (\<lambda>w. Some ''adb''), ho_server_socket = (\<lambda>w. None),
     ho_run = (\<lambda>args t. io_ret (0, ''List of devices attached'' @ [chr_nl] @ ''A1'' @ [chr_tab] @
       ''device'' @ [chr_nl] @ ''B2'' @ [chr_tab] @ ''offline'' @ [chr_nl], [])),
     ho_unit_names = (\<lambda>w. None), ho_read_unit = (\<lambda>n w. None), ho_write_unit = (\<lambda>n s. io_ret ()),
     ho_randbelow = (\<lambda>n. io_ret 0), ho_listen = io_ret (0, 0), ho_close = (\<lambda>i. io_ret ()),
     ho_file_size = (\<lambda>p. io_ret 0), ho_read_file = (\<lambda>p. io_ret []), ho_unlink = (\<lambda>p. io_ret ())\<rparr>"

lemma sample_resolves: "resolve_serial sample_host None () = (Inr ''A1'', ())"
  by (simp add: resolve_serial_def list_devices_def build_adb_command_def find_adb_binary_def
      sample_host_def parse_devices_def chr_defs break_rest_def is_break_def is_space_def code_def strip_def lstrip_def
      rstrip_def is_usable_def DEVICE_STATE_READY_def choose_only_def io_bind_app)

theorem resolve_serial_never_guesses_witness:
  "\<exists>all w1. list_devices sample_host () = (Inr all, w1) \<and> ''A1'' \<in> dv_serial ` set (filter is_usable all)"
  using resolve_serial_never_guesses [OF sample_resolves] by blast

end
