(* ===== verification/Json.thy ===== *)
theory Json
  imports PyStr
begin

text \<open>
  JSON values and the parts of Python's \<open>json\<close> module the sources use: \<open>json.loads\<close> as a
  parser with fuel (the length of the text is enough, each call consumes a character),
  \<open>json.dumps\<close> with the default separators, and \<open>str()\<close> of a decoded value. A number with
  a fraction or an exponent keeps its literal. Text is UTF-8, one \<open>char\<close> per byte.
\<close>

datatype json =
    JNull
  | JBool bool
  | JInt int
  | JFloat string
  | JStr string
  | JArr "json list"
  | JObj "(string \<times> json) list"

section \<open>Reading\<close>

definition json_ws :: "char \<Rightarrow> bool" where
  "json_ws c \<longleftrightarrow> code c = 32 \<or> code c = 9 \<or> code c = 10 \<or> code c = 13"

definition skip_ws :: "string \<Rightarrow> string" where
  "skip_ws s = dropWhile json_ws s"

definition hex_digit :: "char \<Rightarrow> nat option" where
  "hex_digit c =
     (if 48 \<le> code c \<and> code c \<le> 57 then Some (code c - 48)
      else if 65 \<le> code c \<and> code c \<le> 70 then Some (code c - 55)
      else if 97 \<le> code c \<and> code c \<le> 102 then Some (code c - 87)
      else None)"

definition hex4 :: "char \<Rightarrow> char \<Rightarrow> char \<Rightarrow> char \<Rightarrow> nat option" where
  "hex4 a b c d =
     (case (hex_digit a, hex_digit b, hex_digit c, hex_digit d) of
        (Some w, Some x, Some y, Some z) \<Rightarrow> Some (w * 4096 + x * 256 + y * 16 + z)
      | _ \<Rightarrow> None)"

definition utf8 :: "nat \<Rightarrow> string" where
  "utf8 u =
     (if u < 128 then [char_of u]
      else if u < 2048 then [char_of (192 + u div 64), char_of (128 + u mod 64)]
      else if u < 65536 then
        [char_of (224 + u div 4096), char_of (128 + u div 64 mod 64), char_of (128 + u mod 64)]
      else
        [char_of (240 + u div 262144), char_of (128 + u div 4096 mod 64),
         char_of (128 + u div 64 mod 64), char_of (128 + u mod 64)])"

definition short_escape :: "char \<Rightarrow> char option" where
  "short_escape c =
     (if c = chr_dquote \<or> c = chr_backslash \<or> c = CHR ''/'' then Some c
      else if c = CHR ''b'' then Some (CHR 0x08)
      else if c = CHR ''f'' then Some (CHR 0x0C)
      else if c = CHR ''n'' then Some chr_nl
      else if c = CHR ''r'' then Some chr_cr
      else if c = CHR ''t'' then Some chr_tab
      else None)"

text \<open>
  The text after the opening quote, up to and without the closing one. A high surrogate
  escape joins with a low one that follows it.
\<close>

fun read_string :: "string \<Rightarrow> (string \<times> string) option" where
  "read_string [] = None"
| "read_string (c # cs) =
     (if c = chr_dquote then Some ([], cs)
      else if code c < 32 then None
      else if c \<noteq> chr_backslash then
        map_option (\<lambda>(s, r). (c # s, r)) (read_string cs)
      else (case cs of
          [] \<Rightarrow> None
        | e # es \<Rightarrow>
            if e = CHR ''u'' then
              (case es of
                 h1 # h2 # h3 # h4 # rest \<Rightarrow>
                   (case hex4 h1 h2 h3 h4 of
                      None \<Rightarrow> None
                    | Some u \<Rightarrow>
                        (case rest of
                           b # v # l1 # l2 # l3 # l4 # more \<Rightarrow>
                             (case (if 55296 \<le> u \<and> u < 56320 \<and> b = chr_backslash \<and> v = CHR ''u''
                                    then hex4 l1 l2 l3 l4 else None) of
                                Some l \<Rightarrow>
                                  if 56320 \<le> l \<and> l < 57344
                                  then map_option (\<lambda>(s, r).
                                      (utf8 (65536 + (u - 55296) * 1024 + (l - 56320)) @ s, r))
                                    (read_string more)
                                  else map_option (\<lambda>(s, r). (utf8 u @ s, r)) (read_string rest)
                              | None \<Rightarrow> map_option (\<lambda>(s, r). (utf8 u @ s, r)) (read_string rest))
                         | _ \<Rightarrow> map_option (\<lambda>(s, r). (utf8 u @ s, r)) (read_string rest)))
               | _ \<Rightarrow> None)
            else (case short_escape e of
                None \<Rightarrow> None
              | Some d \<Rightarrow> map_option (\<lambda>(s, r). (d # s, r)) (read_string es))))"

text \<open>
  \<open>-?(0|[1-9][0-9]*)(\.[0-9]+)?([eE][-+]?[0-9]+)?\<close>; without the two optional groups the
  value is an integer.
\<close>

definition read_frac :: "string \<Rightarrow> string \<times> string" where
  "read_frac s =
     (case s of
        c # cs \<Rightarrow>
          if c = CHR ''.'' \<and> takeWhile is_digit cs \<noteq> []
          then (c # takeWhile is_digit cs, dropWhile is_digit cs) else ([], s)
      | [] \<Rightarrow> ([], s))"

definition read_exp :: "string \<Rightarrow> string \<times> string" where
  "read_exp s =
     (case s of
        c # cs \<Rightarrow>
          if c = CHR ''e'' \<or> c = CHR ''E'' then
            (case cs of
               d # ds \<Rightarrow>
                 if (d = CHR ''-'' \<or> d = CHR ''+'') \<and> takeWhile is_digit ds \<noteq> []
                 then (c # d # takeWhile is_digit ds, dropWhile is_digit ds)
                 else if takeWhile is_digit cs \<noteq> []
                 then (c # takeWhile is_digit cs, dropWhile is_digit cs) else ([], s)
             | [] \<Rightarrow> ([], s))
          else ([], s)
      | [] \<Rightarrow> ([], s))"

definition read_number :: "string \<Rightarrow> (json \<times> string) option" where
  "read_number s =
     (let neg = (case s of c # _ \<Rightarrow> c = CHR ''-'' | [] \<Rightarrow> False);
          body = (if neg then tl s else s);
          digits = (case body of
              c # cs \<Rightarrow> if c = CHR ''0'' then [c] else takeWhile is_digit body
            | [] \<Rightarrow> []);
          rest = drop (length digits) body;
          (frac, rest1) = read_frac rest;
          (ex, rest2) = read_exp rest1;
          sign = (if neg then ''-'' else [])
      in if digits = [] then None
         else if frac = [] \<and> ex = []
         then map_option (\<lambda>n. (JInt n, rest2)) (parse_int (sign @ digits))
         else Some (JFloat (sign @ digits @ frac @ ex), rest2))"

definition read_literal :: "string \<Rightarrow> (json \<times> string) option" where
  "read_literal s =
     (if starts_with ''null'' s then Some (JNull, drop 4 s)
      else if starts_with ''true'' s then Some (JBool True, drop 4 s)
      else if starts_with ''false'' s then Some (JBool False, drop 5 s)
      else if starts_with ''NaN'' s then Some (JFloat ''NaN'', drop 3 s)
      else if starts_with ''Infinity'' s then Some (JFloat ''Infinity'', drop 8 s)
      else if starts_with ''-Infinity'' s then Some (JFloat ''-Infinity'', drop 9 s)
      else read_number s)"

fun read_value :: "nat \<Rightarrow> string \<Rightarrow> (json \<times> string) option"
and read_items :: "nat \<Rightarrow> string \<Rightarrow> (json list \<times> string) option"
and read_members :: "nat \<Rightarrow> (string \<times> json) list \<Rightarrow> string
       \<Rightarrow> ((string \<times> json) list \<times> string) option" where
  "read_value 0 s = None"
| "read_value (Suc n) s =
     (case s of
        [] \<Rightarrow> None
      | c # cs \<Rightarrow>
          if c = chr_dquote then map_option (\<lambda>(t, r). (JStr t, r)) (read_string cs)
          else if c = CHR ''['' then
            (case skip_ws cs of
               [] \<Rightarrow> None
             | d # ds \<Rightarrow> if d = CHR '']'' then Some (JArr [], ds)
                 else map_option (\<lambda>(vs, r). (JArr vs, r)) (read_items n (d # ds)))
          else if c = CHR ''{'' then
            (case skip_ws cs of
               [] \<Rightarrow> None
             | d # ds \<Rightarrow> if d = CHR ''}'' then Some (JObj [], ds)
                 else map_option (\<lambda>(ms, r). (JObj ms, r)) (read_members n [] (d # ds)))
          else read_literal s)"
| "read_items 0 s = None"
| "read_items (Suc n) s =
     (case read_value n s of
        None \<Rightarrow> None
      | Some (v, r) \<Rightarrow>
          (case skip_ws r of
             [] \<Rightarrow> None
           | d # ds \<Rightarrow> if d = CHR '']'' then Some ([v], ds)
               else if d = CHR '','' then
                 map_option (\<lambda>(vs, r'). (v # vs, r')) (read_items n (skip_ws ds))
               else None))"
| "read_members 0 acc s = None"
| "read_members (Suc n) acc s =
     (case s of
        [] \<Rightarrow> None
      | c # cs \<Rightarrow>
          if c \<noteq> chr_dquote then None
          else (case read_string cs of
              None \<Rightarrow> None
            | Some (k, r) \<Rightarrow>
                (case skip_ws r of
                   [] \<Rightarrow> None
                 | d # ds \<Rightarrow>
                     if d \<noteq> CHR '':'' then None
                     else (case read_value n (skip_ws ds) of
                         None \<Rightarrow> None
                       | Some (v, r') \<Rightarrow>
                           (case skip_ws r' of
                              [] \<Rightarrow> None
                            | e # es \<Rightarrow>
                                if e = CHR ''}'' then Some (dict_set k v acc, es)
                                else if e = CHR '','' then
                                  read_members n (dict_set k v acc) (skip_ws es)
                                else None)))))"

definition json_loads :: "string \<Rightarrow> json option" where
  "json_loads s =
     (case read_value (2 * length s + 2) (skip_ws s) of
        None \<Rightarrow> None
      | Some (v, r) \<Rightarrow> if skip_ws r = [] then Some v else None)"

section \<open>Writing\<close>

definition hex_char :: "nat \<Rightarrow> char" where
  "hex_char d = (if d < 10 then char_of (48 + d) else char_of (87 + d))"

definition dump_char :: "char \<Rightarrow> string" where
  "dump_char c =
     (if c = chr_dquote then [chr_backslash, chr_dquote]
      else if c = chr_backslash then [chr_backslash, chr_backslash]
      else if code c = 8 then [chr_backslash, CHR ''b'']
      else if code c = 12 then [chr_backslash, CHR ''f'']
      else if c = chr_nl then [chr_backslash, CHR ''n'']
      else if c = chr_cr then [chr_backslash, CHR ''r'']
      else if c = chr_tab then [chr_backslash, CHR ''t'']
      else if code c < 32
      then [chr_backslash, CHR ''u'', CHR ''0'', CHR ''0'', hex_char (code c div 16),
            hex_char (code c mod 16)]
      else [c])"

definition dump_string :: "string \<Rightarrow> string" where
  "dump_string s = [chr_dquote] @ concat (map dump_char s) @ [chr_dquote]"

fun json_dumps :: "json \<Rightarrow> string" where
  "json_dumps JNull = ''null''"
| "json_dumps (JBool b) = (if b then ''true'' else ''false'')"
| "json_dumps (JInt n) = show_int n"
| "json_dumps (JFloat f) = f"
| "json_dumps (JStr s) = dump_string s"
| "json_dumps (JArr vs) = ''['' @ join '', '' (map json_dumps vs) @ '']''"
| "json_dumps (JObj ms) =
     ''{'' @ join '', '' (map (\<lambda>(k, v). dump_string k @ '': '' @ json_dumps v) ms) @ ''}''"

text \<open>
  \<open>json.dumps(v, indent=2)\<close> at nesting depth \<open>k\<close>. On printable ASCII text, all it is used
  on, its escapes are those of \<open>dump_string\<close>.
\<close>

definition indent :: "nat \<Rightarrow> string" where
  "indent k = chr_nl # replicate (2 * k) (CHR '' '')"

fun json_dumps_indent :: "nat \<Rightarrow> json \<Rightarrow> string" where
  "json_dumps_indent k (JArr vs) =
     (if vs = [] then ''[]''
      else ''['' @ indent (Suc k) @ join ('','' @ indent (Suc k)) (map (json_dumps_indent (Suc k)) vs)
           @ indent k @ '']'')"
| "json_dumps_indent k (JObj ms) =
     (if ms = [] then ''{}''
      else ''{'' @ indent (Suc k)
           @ join ('','' @ indent (Suc k))
               (map (\<lambda>(key, v). dump_string key @ '': '' @ json_dumps_indent (Suc k) v) ms)
           @ indent k @ ''}'')"
| "json_dumps_indent k v = json_dumps v"

section \<open>Python values of decoded documents\<close>

text \<open>\<open>repr\<close> of a string: single quotes, unless it holds one and no double quote.\<close>

definition repr_char :: "char \<Rightarrow> char \<Rightarrow> string" where
  "repr_char q c =
     (if c = q \<or> c = chr_backslash then [chr_backslash, c]
      else if c = chr_nl then [chr_backslash, CHR ''n'']
      else if c = chr_cr then [chr_backslash, CHR ''r'']
      else if c = chr_tab then [chr_backslash, CHR ''t'']
      else if code c < 32 \<or> code c = 127
      then [chr_backslash, CHR ''x'', hex_char (code c div 16), hex_char (code c mod 16)]
      else [c])"

definition py_repr :: "string \<Rightarrow> string" where
  "py_repr s =
     (let q = (if chr_quote \<in> set s \<and> chr_dquote \<notin> set s then chr_dquote else chr_quote)
      in [q] @ concat (map (repr_char q) s) @ [q])"

fun json_repr :: "json \<Rightarrow> string" where
  "json_repr JNull = ''None''"
| "json_repr (JBool b) = (if b then ''True'' else ''False'')"
| "json_repr (JInt n) = show_int n"
| "json_repr (JFloat f) = f"
| "json_repr (JStr s) = py_repr s"
| "json_repr (JArr vs) = ''['' @ join '', '' (map json_repr vs) @ '']''"
| "json_repr (JObj ms) =
     ''{'' @ join '', '' (map (\<lambda>(k, v). py_repr k @ '': '' @ json_repr v) ms) @ ''}''"

definition json_str :: "json \<Rightarrow> string" where
  "json_str v = (case v of JStr s \<Rightarrow> s | _ \<Rightarrow> json_repr v)"

text \<open>
  \<open>int(v)\<close>: integers and Booleans as they are, text as a decimal literal. A float is
  truncated by Python; the model keeps only its literal and does not follow it.
\<close>

definition json_int :: "json \<Rightarrow> int result" where
  "json_int v =
     (case v of
        JInt n \<Rightarrow> Inr n
      | JBool b \<Rightarrow> Inr (if b then 1 else 0)
      | JStr s \<Rightarrow> (case parse_int s of
            Some n \<Rightarrow> Inr n | None \<Rightarrow> Inl (ValueError ''invalid literal for int()''))
      | JFloat f \<Rightarrow> Inl (Unmodelled ''int() of a float'')
      | _ \<Rightarrow> Inl (TypeError ''int() argument must be a string or a number''))"

text \<open>The truth value of a decoded value.\<close>

definition json_truthy :: "json \<Rightarrow> bool" where
  "json_truthy v =
     (case v of
        JNull \<Rightarrow> False
      | JBool b \<Rightarrow> b
      | JInt n \<Rightarrow> n \<noteq> 0
      | JFloat f \<Rightarrow> \<not> (\<forall>c \<in> set (takeWhile (\<lambda>c. c \<noteq> CHR ''e'' \<and> c \<noteq> CHR ''E'') f).
            c = CHR ''0'' \<or> c = CHR ''.'' \<or> c = CHR ''-'')
      | JStr s \<Rightarrow> s \<noteq> []
      | JArr vs \<Rightarrow> vs \<noteq> []
      | JObj ms \<Rightarrow> ms \<noteq> [])"

text \<open>
  \<open>"k" in v\<close>: a member of an object, an element of an array, a substring of a text; every
  other decoded value raises a \<open>TypeError\<close>.
\<close>

definition json_in :: "string \<Rightarrow> json \<Rightarrow> bool result" where
  "json_in k v =
     (case v of
        JObj ms \<Rightarrow> Inr (k \<in> set (map fst ms))
      | JArr vs \<Rightarrow> Inr (JStr k \<in> set vs)
      | JStr s \<Rightarrow> Inr (contains_sub k s)
      | _ \<Rightarrow> Inl (TypeError ''argument is not iterable''))"

text \<open>\<open>v["k"]\<close> with a text key: only an object can be indexed so.\<close>

definition json_index :: "string \<Rightarrow> json \<Rightarrow> json result" where
  "json_index k v =
     (case v of
        JObj ms \<Rightarrow> (case dict_get k ms of Some x \<Rightarrow> Inr x | None \<Rightarrow> Inl (KeyError k))
      | _ \<Rightarrow> Inl (TypeError ''indices must be integers or slices, not str''))"

text \<open>\<open>v.get("k")\<close> of an object, \<open>None\<close> (here \<open>JNull\<close>) when it is absent.\<close>

definition obj_get :: "string \<Rightarrow> (string \<times> json) list \<Rightarrow> json" where
  "obj_get k ms = (case dict_get k ms of Some x \<Rightarrow> x | None \<Rightarrow> JNull)"

text \<open>\<open>v["k"]\<close> and \<open>for x in v\<close> on values the code has built itself, of the shape it expects.\<close>

definition obj_at :: "string \<Rightarrow> json \<Rightarrow> json" where
  "obj_at k v = (case v of JObj ms \<Rightarrow> obj_get k ms | _ \<Rightarrow> JNull)"

definition elements :: "json \<Rightarrow> json list" where
  "elements v = (case v of JArr vs \<Rightarrow> vs | _ \<Rightarrow> [])"

lemma obj_get_simps:
  "obj_get k [] = JNull"
  "obj_get k ((j, v) # ms) = (if j = k then v else obj_get k ms)"
  by (simp_all add: obj_get_def dict_get_def)

lemma obj_at_simps [simp]:
  "obj_at k (JObj ms) = obj_get k ms"
  "obj_at k JNull = JNull"
  by (simp_all add: obj_at_def)

lemma elements_simps [simp]: "elements (JArr vs) = vs" "elements JNull = []"
  by (simp_all add: elements_def)

end
