(* ===== verification/Units.thy ===== *)
theory Units
  imports Adb Json
begin

text \<open>
  Unit files, \<open>units.py\<close>: the declared state of each phone, one \<open>.env\<close> file per unit in the
  repository. The directory and the files are those of the host.
\<close>

definition RESERVED_KEY_PREFIX :: string where "RESERVED_KEY_PREFIX = ''unit.''"
definition DEVICE_CONFIG_PATH :: string where "DEVICE_CONFIG_PATH = ''/data/adb/rackphone/config.env''"

record unit_file =
  un_name :: string
  un_serial :: "string option"
  un_label :: string
  un_settings :: "(string, string) dict"

section \<open>Reading\<close>

text \<open>\<open>SETTING_LINE_PATTERN\<close>: a key, an equals sign and a value, blanks around each dropped.\<close>

definition key_char :: "char \<Rightarrow> bool" where
  "key_char c \<longleftrightarrow> is_alpha c \<or> is_digit c \<or> c \<in> set ''_.-''"

definition match_setting :: "string \<Rightarrow> (string \<times> string) option" where
  "match_setting l =
     (let s = lstrip l; key = takeWhile key_char s; r = lstrip (drop (length key) s)
      in if key = [] then None
         else (case r of
             [] \<Rightarrow> None
           | c # v \<Rightarrow> if c = CHR ''='' then Some (key, strip v) else None))"

definition apply_line :: "string \<Rightarrow> unit_file \<Rightarrow> unit_file" where
  "apply_line l u =
     (if strip l = [] \<or> starts_with ''#'' (lstrip l) then u
      else (case match_setting l of
          None \<Rightarrow> u
        | Some (key, v) \<Rightarrow>
            if key = ''unit.serial'' then u\<lparr>un_serial := (if v = [] then None else Some v)\<rparr>
            else if key = ''unit.label'' then u\<lparr>un_label := v\<rparr>
            else if starts_with RESERVED_KEY_PREFIX key then u
            else u\<lparr>un_settings := dict_set key v (un_settings u)\<rparr>))"

definition parse_unit :: "string \<Rightarrow> string \<Rightarrow> unit_file" where
  "parse_unit name text =
     fold apply_line (splitlines text)
       \<lparr>un_name = name, un_serial = None, un_label = [], un_settings = []\<rparr>"

text \<open>\<open>Path.stem\<close> of a file name that ends in \<open>.env\<close>; the name \<open>.env\<close> is its own stem.\<close>

definition path_stem :: "string \<Rightarrow> string" where
  "path_stem f = (if f = ''.env'' then f else take (length f - 4) f)"

text \<open>Errors a listing passes over: \<open>OSError\<close>, \<open>UnicodeDecodeError\<close>, \<open>ValueError\<close>.\<close>

definition skipped_error :: "exn \<Rightarrow> bool" where
  "skipped_error e = (case e of FileNotFoundError m \<Rightarrow> True | OSError m \<Rightarrow> True | ValueError m \<Rightarrow> True | _ \<Rightarrow> False)"

fun load_each :: "(string \<Rightarrow> ('w, unit_file) io) \<Rightarrow> string list \<Rightarrow> ('w, unit_file list) io" where
  "load_each ld [] = io_ret []"
| "load_each ld (f # fs) =
     io_bind (io_catch (io_bind (ld (path_stem f)) (\<lambda>u. io_ret [u]))
        (\<lambda>e. if skipped_error e then io_ret [] else io_raise e)) (\<lambda>us.
     io_bind (load_each ld fs) (\<lambda>vs. io_ret (us @ vs)))"

definition load_listed :: "(string \<Rightarrow> ('w, unit_file) io) \<Rightarrow> 'w host \<Rightarrow> ('w, unit_file list) io" where
  "load_listed ld h =
     io_bind (io_read (ho_unit_names h)) (\<lambda>names. case names of
       None \<Rightarrow> io_ret []
     | Some fs \<Rightarrow> load_each ld (sort fs))"

text \<open>
  \<open>Unit.load\<close> names the known units when the one asked for is missing, and listing them calls
  \<open>Unit.load\<close> again: the first argument is how many such calls the interpreter's stack takes.
\<close>

fun load_within :: "nat \<Rightarrow> 'w host \<Rightarrow> string \<Rightarrow> ('w, unit_file) io" where
  "load_within 0 h name = io_raise (RuntimeError ''maximum recursion depth exceeded'')"
| "load_within (Suc n) h name =
     io_bind (io_read (ho_read_unit h name)) (\<lambda>file. case file of
       None \<Rightarrow>
         io_bind (load_listed (load_within n h) h) (\<lambda>known.
         io_raise (FileNotFoundError (''no unit file for '' @ py_repr name @ '' (have: '' @
           (if known = [] then ''none'' else join '', '' (map un_name known)) @ '')'')))
     | Some text \<Rightarrow>
         if utf8_valid text then io_ret (parse_unit name text)
         else io_raise (ValueError ''UnicodeDecodeError''))"

definition RECURSION_DEPTH :: nat where "RECURSION_DEPTH = 300"

definition load_unit :: "'w host \<Rightarrow> string \<Rightarrow> ('w, unit_file) io" where
  "load_unit h name = load_within RECURSION_DEPTH h name"

definition load_all_units :: "'w host \<Rightarrow> ('w, unit_file list) io" where
  "load_all_units h = load_listed (load_within RECURSION_DEPTH h) h"

section \<open>Writing\<close>

definition setting_line :: "string \<times> string \<Rightarrow> string" where
  "setting_line kv = fst kv @ ''='' @ snd kv"

definition sorted_settings :: "(string, string) dict \<Rightarrow> (string \<times> string) list" where
  "sorted_settings d =
     map (\<lambda>k. (k, case dict_get k d of Some v \<Rightarrow> v | None \<Rightarrow> [])) (sort (dict_keys d))"

definition unit_header :: "unit_file \<Rightarrow> string list" where
  "unit_header u =
     [''# Rackphone unit: '' @ un_name u, ''#'',
      ''# Declared state for this device. `rackphone deploy` pushes it;'',
      ''# `rackphone set` updates it alongside the live override so that'',
      ''# the repo and the hardware do not drift apart.'', [],
      ''unit.serial='' @ (case un_serial u of Some s \<Rightarrow> s | None \<Rightarrow> []),
      ''unit.label='' @ un_label u, []]"

definition unit_text :: "unit_file \<Rightarrow> string" where
  "unit_text u =
     join [chr_nl] (unit_header u @ map setting_line (sorted_settings (un_settings u))) @ [chr_nl]"

definition save_unit :: "'w host \<Rightarrow> unit_file \<Rightarrow> ('w, unit) io" where
  "save_unit h u = ho_write_unit h (un_name u) (unit_text u)"

definition set_setting :: "string \<Rightarrow> string \<Rightarrow> unit_file \<Rightarrow> unit_file" where
  "set_setting k v u = u\<lparr>un_settings := dict_set k v (un_settings u)\<rparr>"

definition remove_setting :: "string \<Rightarrow> unit_file \<Rightarrow> unit_file" where
  "remove_setting k u = u\<lparr>un_settings := dict_pop k (un_settings u)\<rparr>"

definition to_device_config :: "unit_file \<Rightarrow> string" where
  "to_device_config u =
     join [chr_nl] ([''# Generated by `rackphone deploy` - do not edit on the device.'',
       ''# Unit: '' @ un_name u, []] @ map setting_line (sorted_settings (un_settings u))) @ [chr_nl]"

definition create_unit :: "'w host \<Rightarrow> string \<Rightarrow> string \<Rightarrow> string \<Rightarrow> ('w, unit_file) io" where
  "create_unit h name serial label =
     (let u = \<lparr>un_name = name, un_serial = Some serial, un_label = label, un_settings = []\<rparr>
      in io_bind (save_unit h u) (\<lambda>x. io_ret u))"

section \<open>Lemmas\<close>

definition clean_value :: "string \<Rightarrow> bool" where
  "clean_value v \<longleftrightarrow> line_free v \<and> strip v = v"

definition clean_key :: "string \<Rightarrow> bool" where
  "clean_key k \<longleftrightarrow> k \<noteq> [] \<and> list_all key_char k \<and> \<not> starts_with RESERVED_KEY_PREFIX k"

definition clean_unit :: "unit_file \<Rightarrow> bool" where
  "clean_unit u \<longleftrightarrow> line_free (un_name u) \<and> clean_value (un_label u) \<and>
     (case un_serial u of None \<Rightarrow> True | Some s \<Rightarrow> s \<noteq> [] \<and> clean_value s) \<and>
     dict_ok (un_settings u) \<and>
     list_all (\<lambda>(k, v). clean_key k \<and> clean_value v) (un_settings u)"

lemma key_char_plain: "key_char c \<Longrightarrow> \<not> is_space c \<and> plain c \<and> c \<noteq> CHR ''='' \<and> c \<noteq> CHR ''#''"
  by (auto simp: key_char_def is_space_def plain_def is_break_def is_alpha_def is_digit_def code_def)

lemma takeWhile_key: "list_all key_char k \<Longrightarrow> takeWhile key_char (k @ CHR ''='' # v) = k"
  by (induction k) (auto simp: key_char_def is_alpha_def is_digit_def code_def)

lemma match_setting_line:
  assumes "k \<noteq> []" "list_all key_char k"
  shows "match_setting (k @ CHR ''='' # v) = Some (k, strip v)"
proof -
  obtain c cs where k: "k = c # cs" "key_char c" using assms by (cases k) auto
  have "lstrip (k @ CHR ''='' # v) = k @ CHR ''='' # v"
    by (rule lstrip_id) (use key_char_plain k in auto)
  moreover have "lstrip (CHR ''='' # v) = CHR ''='' # v"
    by (rule lstrip_id) (simp add: is_space_def code_def)
  ultimately show ?thesis
    using assms takeWhile_key [OF assms(2)] by (simp add: match_setting_def Let_def)
qed

lemma apply_setting:
  assumes "k \<noteq> []" "list_all key_char k" "strip v = v"
  shows "apply_line (k @ CHR ''='' # v) u =
    (if k = ''unit.serial'' then u\<lparr>un_serial := (if v = [] then None else Some v)\<rparr>
     else if k = ''unit.label'' then u\<lparr>un_label := v\<rparr>
     else if starts_with RESERVED_KEY_PREFIX k then u
     else u\<lparr>un_settings := dict_set k v (un_settings u)\<rparr>)"
proof -
  obtain c cs where k: "k = c # cs" "key_char c" using assms by (cases k) auto
  then have c: "\<not> is_space c" "c \<noteq> CHR ''#''" using key_char_plain by auto
  have "lstrip (k @ CHR ''='' # v) = k @ CHR ''='' # v"
    by (rule lstrip_id) (use c k in simp)
  then have "\<not> starts_with ''#'' (lstrip (k @ CHR ''='' # v))" using k c by simp
  moreover have "strip (k @ CHR ''='' # v) \<noteq> []"
  proof
    assume "strip (k @ CHR ''='' # v) = []"
    then have "dropWhile is_space (rev (k @ CHR ''='' # v)) = []"
      unfolding strip_def \<open>lstrip (k @ CHR ''='' # v) = _\<close> rstrip_def by simp
    then show False using k c by (auto simp: dropWhile_eq_Nil_conv)
  qed
  ultimately show ?thesis
    using match_setting_line [OF assms(1,2)] assms(3) by (simp add: apply_line_def)
qed

lemma apply_comment: "apply_line (CHR ''#'' # s) u = u"
proof -
  have "lstrip (CHR ''#'' # s) = CHR ''#'' # s" by (rule lstrip_id) (simp add: is_space_def code_def)
  then show ?thesis by (simp add: apply_line_def)
qed

lemma apply_blank: "apply_line [] u = u"
  by (simp add: apply_line_def strip_def lstrip_def rstrip_def)

lemma dict_set_fresh: "k \<notin> fst ` set d \<Longrightarrow> dict_set k v d = d @ [(k, v)]"
  unfolding dict_set_def by (induction d) auto

lemma apply_settings:
  assumes "list_all (\<lambda>(k, v). clean_key k \<and> clean_value v) kvs"
    and "distinct (map fst (un_settings u @ kvs))"
  shows "fold apply_line (map setting_line kvs) u = u\<lparr>un_settings := un_settings u @ kvs\<rparr>"
  using assms
proof (induction kvs arbitrary: u)
  case (Cons kv kvs)
  obtain k v where kv: "kv = (k, v)" by (cases kv)
  with Cons.prems(1) have k: "k \<noteq> []" "list_all key_char k" "\<not> starts_with RESERVED_KEY_PREFIX k"
    "strip v = v" by (simp_all add: clean_key_def clean_value_def)
  then have "k \<noteq> ''unit.serial''" "k \<noteq> ''unit.label''" by (auto simp: RESERVED_KEY_PREFIX_def)
  then have "apply_line (setting_line kv) u = u\<lparr>un_settings := dict_set k v (un_settings u)\<rparr>"
    using apply_setting [OF k(1,2,4)] k(3) by (simp add: setting_line_def kv)
  moreover have "dict_set k v (un_settings u) = un_settings u @ [(k, v)]"
    using Cons.prems(2) kv by (intro dict_set_fresh) auto
  ultimately show ?case
    using Cons.IH [of "u\<lparr>un_settings := un_settings u @ [(k, v)]\<rparr>"] Cons.prems kv by simp
qed simp

lemma dict_get_sorted:
  assumes "dict_ok d" shows "dict_get k (sorted_settings d) = dict_get k d"
proof -
  have *: "map_of (map (\<lambda>k. (k, f k)) ks) k = (if k \<in> set ks then Some (f k) else None)"
    for f :: "string \<Rightarrow> string" and ks
    by (induction ks) auto
  have "k \<in> fst ` set d \<longleftrightarrow> map_of d k \<noteq> None" by (simp add: map_of_eq_None_iff)
  then show ?thesis
    by (cases "map_of d k") (simp_all add: sorted_settings_def dict_get_def dict_keys_def *)
qed

lemma sorted_settings_keys: "dict_ok d \<Longrightarrow> distinct (map fst (sorted_settings d))"
  by (simp add: sorted_settings_def dict_ok_def dict_keys_def comp_def)

lemma sorted_settings_mem:
  "dict_ok d \<Longrightarrow> kv \<in> set (sorted_settings d) \<Longrightarrow> kv \<in> set d"
  by (cases kv) (metis dict_get_sorted dict_get_Some_mem dict_get_mem dict_ok_def sorted_settings_keys)

lemma header_lines:
  assumes "clean_unit u"
  shows "list_all line_free (unit_header u @ map setting_line (sorted_settings (un_settings u)))"
proof -
  have ascii: "list_all plain ''# Rackphone unit: ''" "list_all plain ''#''"
    "list_all plain ''# Declared state for this device. `rackphone deploy` pushes it;''"
    "list_all plain ''# `rackphone set` updates it alongside the live override so that''"
    "list_all plain ''# the repo and the hardware do not drift apart.''"
    "list_all plain ''unit.serial=''" "list_all plain ''unit.label=''"
    by (simp_all add: plain_def is_break_def code_def)
  have parts: "line_free (un_name u)" "line_free (un_label u)"
    "line_free (case un_serial u of Some s \<Rightarrow> s | None \<Rightarrow> [])"
    using assms by (auto simp: clean_unit_def clean_value_def split: option.splits)
  have "list_all line_free (unit_header u)"
    unfolding unit_header_def list.pred_inject line_free_plain [OF ascii(1)]
      line_free_plain [OF ascii(6)] line_free_plain [OF ascii(7)]
    using parts ascii(2-5)[THEN plain_line_free] by simp
  moreover have "line_free (setting_line kv)" if kv: "kv \<in> set (sorted_settings (un_settings u))" for kv
  proof -
    have "kv \<in> set (un_settings u)" using assms kv sorted_settings_mem by (auto simp: clean_unit_def)
    then have "clean_key (fst kv) \<and> clean_value (snd kv)"
      using assms by (auto simp: clean_unit_def list_all_iff)
    moreover from this have "list_all plain (fst kv @ ''='')"
      using key_char_plain by (auto simp: clean_key_def list_all_iff plain_def is_break_def code_def)
    ultimately show ?thesis
      using line_free_plain [of "fst kv @ ''=''" "snd kv"] by (simp add: setting_line_def clean_value_def)
  qed
  ultimately show ?thesis by (auto simp: list_all_iff)
qed

lemma apply_header:
  assumes "clean_unit u"
  shows "fold apply_line (unit_header u)
      \<lparr>un_name = un_name u, un_serial = None, un_label = [], un_settings = []\<rparr> =
    \<lparr>un_name = un_name u, un_serial = un_serial u, un_label = un_label u, un_settings = []\<rparr>"
proof -
  let ?s = "case un_serial u of Some s \<Rightarrow> s | None \<Rightarrow> []"
  have s: "strip ?s = ?s" "?s = [] \<longleftrightarrow> un_serial u = None"
    using assms by (auto simp: clean_unit_def clean_value_def strip_def lstrip_def rstrip_def
        split: option.splits)
  have l: "strip (un_label u) = un_label u" using assms by (simp add: clean_unit_def clean_value_def)
  have serial: "apply_line (''unit.serial='' @ ?s) v = v\<lparr>un_serial := un_serial u\<rparr>" for v
    using apply_setting [of "''unit.serial''" ?s v] s
    by (auto simp: key_char_def is_alpha_def code_def split: option.splits)
  have label: "apply_line (''unit.label='' @ un_label u) v = v\<lparr>un_label := un_label u\<rparr>" for v
    using apply_setting [of "''unit.label''" "un_label u" v] l
    by (simp add: key_char_def is_alpha_def code_def)
  have comment: "apply_line (''# Rackphone unit: '' @ un_name u) v = v" for v
    using apply_comment by simp
  show ?thesis
    unfolding unit_header_def by (simp only: fold_simps comp_apply id_apply comment serial label
        apply_comment apply_blank unit_file.simps)
qed

lemma load_each_raises:
  assumes "\<And>f. f \<in> set fs \<Longrightarrow> (\<exists>u. ld (path_stem f) w = (Inr u, w)) \<or>
      (\<exists>e. ld (path_stem f) w = (Inl e, w) \<and> (e = x \<or> skipped_error e))"
    and "\<not> skipped_error x" and "\<exists>f \<in> set fs. ld (path_stem f) w = (Inl x, w)"
  shows "load_each ld fs w = (Inl x, w)"
  using assms(1,3)
proof (induction fs)
  case (Cons f fs)
  show ?case
  proof (cases "ld (path_stem f) w = (Inl x, w)")
    case True
    then show ?thesis using assms(2) by (simp add: io_bind_app io_catch_app)
  next
    case False
    then have "load_each ld fs w = (Inl x, w)" using Cons by auto
    then show ?thesis
      using Cons.prems(1) [of f] False by (auto simp: io_bind_app io_catch_app)
  qed
qed simp

lemma load_unit_found:
  "ho_read_unit h name w = Some text \<Longrightarrow> utf8_valid text \<Longrightarrow>
     load_unit h name w = (Inr (parse_unit name text), w)"
  by (simp add: load_unit_def RECURSION_DEPTH_def numeral_eq_Suc io_bind_app)

lemma unit_file_parse:
  assumes "clean_unit u"
  shows "parse_unit (un_name u) (unit_text u) = u\<lparr>un_settings := sorted_settings (un_settings u)\<rparr>"
proof -
  have ok: "dict_ok (un_settings u)" using assms by (simp add: clean_unit_def)
  have "splitlines (unit_text u) = unit_header u @ map setting_line (sorted_settings (un_settings u))"
    unfolding unit_text_def by (rule splitlines_join [OF header_lines [OF assms]])
      (simp add: unit_header_def)
  moreover have "list_all (\<lambda>(k, v). clean_key k \<and> clean_value v) (sorted_settings (un_settings u))"
    using assms sorted_settings_mem [OF ok] by (auto simp: clean_unit_def list_all_iff)
  ultimately have "parse_unit (un_name u) (unit_text u) = \<lparr>un_name = un_name u,
      un_serial = un_serial u, un_label = un_label u, un_settings = sorted_settings (un_settings u)\<rparr>"
    using apply_settings sorted_settings_keys [OF ok] apply_header [OF assms]
    by (simp add: parse_unit_def)
  then show ?thesis by simp
qed

section \<open>Properties\<close>


definition sample_unit :: unit_file where
  "sample_unit = \<lparr>un_name = ''lisa01'', un_serial = Some ''A1'', un_label = ''rack 1'',
     un_settings = [(''power.limit'', ''80''), (''net.host'', ''a = b'')]\<rparr>"

lemma sample_unit_clean: "clean_unit sample_unit"
  by (simp add: clean_unit_def sample_unit_def clean_value_def clean_key_def
      break_rest_def is_break_def key_char_def is_alpha_def is_digit_def code_def strip_def lstrip_def rstrip_def
      is_space_def RESERVED_KEY_PREFIX_def dict_ok_def)


text \<open>
  One entry of the units directory that matches the pattern without being a file (a
  directory \<open>x.env\<close>, a dangling link, a file named just \<open>.env\<close>) makes the listing of units
  fail for every unit: reporting the missing one lists the directory again, without end.
\<close>

theorem unreadable_entry_hides_units:
  assumes "ho_unit_names h w = Some fs" and "f \<in> set fs" and "ho_read_unit h (path_stem f) w = None"
  shows "load_all_units h w = (Inl (RuntimeError ''maximum recursion depth exceeded''), w)"
proof -
  let ?x = "RuntimeError ''maximum recursion depth exceeded''"
  have ns: "\<not> skipped_error ?x" by (simp add: skipped_error_def)
  have "load_listed (load_within n h) h w = (Inl ?x, w)" for n
  proof (induction n)
    case 0
    have "load_each (load_within 0 h) (sort fs) w = (Inl ?x, w)"
      by (rule load_each_raises) (use assms ns in auto)
    then show ?case
      using assms(1) by (simp add: load_listed_def io_bind_app del: load_within.simps)
  next
    case (Suc n)
    have one: "load_within (Suc n) h s w = (if ho_read_unit h s w = None then (Inl ?x, w)
        else if utf8_valid (the (ho_read_unit h s w)) then (Inr (parse_unit s (the (ho_read_unit h s w))), w)
        else (Inl (ValueError ''UnicodeDecodeError''), w))" for s
      using Suc by (auto simp: io_bind_app split: option.splits)
    have "load_each (load_within (Suc n) h) (sort fs) w = (Inl ?x, w)"
      by (rule load_each_raises) (use assms ns one in \<open>auto simp: skipped_error_def\<close>)
    then show ?case
      using assms(1) by (simp add: load_listed_def io_bind_app del: load_within.simps)
  qed
  then show ?thesis by (simp add: load_all_units_def)
qed

theorem unreadable_entry_hides_units_witness:
  "load_all_units (sample_host\<lparr>ho_unit_names := (\<lambda>w. Some [''a.env'', ''b.env'']),
      ho_read_unit := (\<lambda>n w. if n = ''a'' then Some ''unit.serial=A1'' else None)\<rparr>) ()
   = (Inl (RuntimeError ''maximum recursion depth exceeded''), ())"
  by (rule unreadable_entry_hides_units [where f = "''b.env''" and fs = "[''a.env'', ''b.env'']"])
     (simp_all add: path_stem_def)

end
