(* ===== verification/Calls.thy ===== *)
theory Calls
  imports Units
begin

text \<open>
  The companion's telephony on a unit: calls (\<open>gateway/call.py\<close>), messages
  (\<open>gateway/send.py\<close>) and SIMs (\<open>gateway/sims.py\<close>). Each request is checked, sent as one
  action of the on-device command line, and its JSON answer interpreted. Returned
  dictionaries are the members of a JSON object.
\<close>

definition DEFAULT_CALL_TIMEOUT_SECONDS :: int where "DEFAULT_CALL_TIMEOUT_SECONDS = 30"
definition DEFAULT_SEND_TIMEOUT_SECONDS :: int where "DEFAULT_SEND_TIMEOUT_SECONDS = 60"
definition DEFAULT_SIMS_TIMEOUT_SECONDS :: int where "DEFAULT_SIMS_TIMEOUT_SECONDS = 30"
definition CALL_STATE_TIMEOUT_SECONDS :: int where "CALL_STATE_TIMEOUT_SECONDS = 5"
definition COMPANION_PLUGIN :: string where "COMPANION_PLUGIN = ''companion''"

definition call_error :: "string \<Rightarrow> exn" where
  "call_error m = BoundaryError CallBoundary False m"

definition device_call_error :: "string \<Rightarrow> exn" where
  "device_call_error m = BoundaryError CallBoundary True m"

definition send_error :: "string \<Rightarrow> exn" where
  "send_error m = BoundaryError SendBoundary False m"

definition device_send_error :: "string \<Rightarrow> exn" where
  "device_send_error m = BoundaryError SendBoundary True m"

definition sims_error :: "string \<Rightarrow> exn" where
  "sims_error m = BoundaryError SimsBoundary True m"

section \<open>Checks before the device\<close>

text \<open>\<open>\+?[0-9]{1,20}\<close>, \<open>\+?[0-9]+\Z\<close> and \<open>[0-9*#]{1,32}\<close>, matched against the whole text.\<close>

definition drop_plus :: "string \<Rightarrow> string" where
  "drop_plus s = (if starts_with ''+'' s then tl s else s)"

definition call_destination :: "string \<Rightarrow> bool" where
  "call_destination s \<longleftrightarrow>
     list_all is_digit (drop_plus s) \<and> 1 \<le> length (drop_plus s) \<and> length (drop_plus s) \<le> 20"

definition send_destination :: "string \<Rightarrow> bool" where
  "send_destination s \<longleftrightarrow> list_all is_digit (drop_plus s) \<and> drop_plus s \<noteq> []"

definition dtmf_keys :: "string \<Rightarrow> bool" where
  "dtmf_keys s \<longleftrightarrow> list_all (\<lambda>c. is_digit c \<or> c = CHR ''*'' \<or> c = CHR ''#'') s \<and>
     1 \<le> length s \<and> length s \<le> 32"

definition validate_sim :: "int option \<Rightarrow> unit result" where
  "validate_sim sim =
     (case sim of
        Some n \<Rightarrow> if n < 0 then Inl (ValueError ''sim must be a non-negative subscription id'') else Inr ()
      | None \<Rightarrow> Inr ())"

definition sim_words :: "int option \<Rightarrow> string list" where
  "sim_words sim = (case sim of None \<Rightarrow> [] | Some n \<Rightarrow> [show_int n])"

definition py_sim :: "int option \<Rightarrow> string" where
  "py_sim sim = (case sim of None \<Rightarrow> ''None'' | Some n \<Rightarrow> show_int n)"

text \<open>\<open>isinstance(v, int)\<close>, which holds of Booleans, and the integer that is then compared.\<close>

definition as_int :: "json \<Rightarrow> int option" where
  "as_int v = (case v of JInt n \<Rightarrow> Some n | JBool b \<Rightarrow> Some (if b then 1 else 0) | _ \<Rightarrow> None)"

section \<open>Calls\<close>

definition companion_output ::
  "'w host \<Rightarrow> string option \<Rightarrow> string list \<Rightarrow> int \<Rightarrow> exn \<Rightarrow> ('w, string) io" where
  "companion_output h serial words timeout failure =
     on_fault (io_bind (resolve_serial h serial) (\<lambda>s.
       run_device_cli h s ([''action'', COMPANION_PLUGIN] @ words) timeout)) (\<lambda>e. failure)"

definition call_record :: "string \<Rightarrow> json option \<Rightarrow> (string \<times> json) list result" where
  "call_record u doc =
     (let bad = device_call_error (''unit '' @ py_repr u @ '' returned an invalid call-control response'')
      in case doc of
           Some (JObj ms) \<Rightarrow> if ''status'' \<in> set (dict_keys ms) then Inr ms else Inl bad
         | _ \<Rightarrow> Inl bad)"

definition call_run :: "'w host \<Rightarrow> string \<Rightarrow> string list \<Rightarrow> int \<Rightarrow> ('w, (string \<times> json) list) io" where
  "call_run h u words timeout =
     io_bind (load_unit h u) (\<lambda>target.
     io_bind (companion_output h (un_serial target) words timeout
         (device_call_error (''unit '' @ py_repr u @ '' could not be reached''))) (\<lambda>out.
     io_lift (call_record u (json_loads out))))"

text \<open>Membership in a frozenset hashes its operand first, which lists and objects refuse.\<close>

definition control_outcome :: "string \<Rightarrow> string \<Rightarrow> (string \<times> json) list \<Rightarrow> (string \<times> json) list result" where
  "control_outcome u act ms =
     (let status = obj_get ''status'' ms
      in if status = JStr ''no_ringing_call''
         then Inl (call_error ''no call is ringing on the unit'')
         else (case status of
             JArr vs \<Rightarrow> Inl (TypeError (''unhashable type: '' @ py_repr ''list''))
           | JObj vs \<Rightarrow> Inl (TypeError (''unhashable type: '' @ py_repr ''dict''))
           | _ \<Rightarrow> if status = JStr ''answered'' \<or> status = JStr ''rejected''
               then Inr [(''status'', status), (''accepted'', JBool True)]
               else Inl (device_call_error (''unit '' @ py_repr u @ '' could not '' @ act @ '' the call''))))"

definition control :: "'w host \<Rightarrow> string \<Rightarrow> string \<Rightarrow> int \<Rightarrow> ('w, (string \<times> json) list) io" where
  "control h u act timeout =
     io_bind (call_run h u [act] timeout) (\<lambda>ms. io_lift (control_outcome u act ms))"

definition answer_call :: "'w host \<Rightarrow> string \<Rightarrow> int \<Rightarrow> ('w, (string \<times> json) list) io" where
  "answer_call h u timeout = control h u ''answer'' timeout"

definition reject_call :: "'w host \<Rightarrow> string \<Rightarrow> int \<Rightarrow> ('w, (string \<times> json) list) io" where
  "reject_call h u timeout = control h u ''reject'' timeout"

definition placed_fields :: "(string \<times> json) list \<Rightarrow> (string \<times> json) list" where
  "placed_fields ms =
     (if as_int (obj_get ''placed_at'' ms) \<noteq> None then [(''placed_at'', obj_get ''placed_at'' ms)] else []) @
     (case as_int (obj_get ''sub'' ms) of
        Some n \<Rightarrow> if n \<ge> 0 then [(''sub'', obj_get ''sub'' ms)] else []
      | None \<Rightarrow> [])"

definition dial_outcome ::
  "string \<Rightarrow> string \<Rightarrow> int option \<Rightarrow> (string \<times> json) list \<Rightarrow> (string \<times> json) list result" where
  "dial_outcome u dest sim ms =
     (let status = obj_get ''status'' ms; err = obj_get ''error'' ms
      in if status = JStr ''rejected'' \<and> err = JStr ''busy''
         then Inl (call_error ''the unit is already on a call'')
         else if status = JStr ''rejected'' \<and> err = JStr ''unknown_sim''
         then Inl (call_error (''unit '' @ py_repr u @ '' has no SIM '' @ py_sim sim))
         else if status \<noteq> JStr ''dialing''
         then Inl (device_call_error (''unit '' @ py_repr u @ '' could not place the call''))
         else Inr ([(''status'', status),
           (''to'', case dict_get ''to'' ms of Some v \<Rightarrow> v | None \<Rightarrow> JStr dest),
           (''accepted'', JBool True)] @ placed_fields ms))"

definition dial_call ::
  "'w host \<Rightarrow> string \<Rightarrow> string \<Rightarrow> int \<Rightarrow> int option \<Rightarrow> ('w, (string \<times> json) list) io" where
  "dial_call h u dest timeout sim =
     (if \<not> call_destination dest
      then io_raise (call_error ''destination must contain digits and an optional leading +'')
      else (case validate_sim sim of
          Inl e \<Rightarrow> io_raise (call_error ''sim must be a non-negative subscription id'')
        | Inr x \<Rightarrow> io_bind (call_run h u ([''dial'', dest] @ sim_words sim) timeout) (\<lambda>ms.
            io_lift (dial_outcome u dest sim ms))))"

definition end_call :: "'w host \<Rightarrow> string \<Rightarrow> int \<Rightarrow> ('w, (string \<times> json) list) io" where
  "end_call h u timeout =
     io_bind (call_run h u [''end''] timeout) (\<lambda>ms.
       if obj_get ''status'' ms = JStr ''no_call''
       then io_raise (call_error ''no call is in progress on the unit'')
       else if obj_get ''status'' ms \<noteq> JStr ''ended''
       then io_raise (device_call_error (''unit '' @ py_repr u @ '' could not end the call''))
       else io_ret [(''status'', JStr ''ended''), (''accepted'', JBool True)])"

definition send_dtmf :: "'w host \<Rightarrow> string \<Rightarrow> string \<Rightarrow> int \<Rightarrow> ('w, (string \<times> json) list) io" where
  "send_dtmf h u digits timeout =
     (if \<not> dtmf_keys digits then io_raise (call_error ''keys must be 0-9, * or #, at most 32 of them'')
      else io_bind (call_run h u [''dtmf'', digits] timeout) (\<lambda>ms.
        if obj_get ''status'' ms = JStr ''no_call''
        then io_raise (call_error ''no connected call can take tones on the unit'')
        else if obj_get ''status'' ms \<noteq> JStr ''sent''
        then io_raise (device_call_error (''unit '' @ py_repr u @ '' could not send the tones''))
        else io_ret [(''status'', JStr ''sent''), (''accepted'', JBool True)]))"

text \<open>
  \<open>\bmCallState=(\d+)\<close>: every occurrence that does not continue a word, with its digits. The
  Boolean says whether the character before is part of a word.
\<close>

definition word_char :: "char \<Rightarrow> bool" where
  "word_char c \<longleftrightarrow> is_alpha c \<or> is_digit c \<or> c = CHR ''_''"

definition CALL_STATE :: string where "CALL_STATE = ''mCallState=''"

function call_states :: "bool \<Rightarrow> string \<Rightarrow> string list" where
  "call_states inside [] = []"
| "call_states inside (c # cs) =
     (let digits = takeWhile is_digit (drop 11 (c # cs))
      in if \<not> inside \<and> starts_with CALL_STATE (c # cs) \<and> digits \<noteq> []
         then digits # call_states True (dropWhile is_digit (drop 11 (c # cs)))
         else call_states (word_char c) cs)"
  by pat_completeness auto
termination
  by (relation "measure (\<lambda>(b, s). length s)")
     (auto simp: less_Suc_eq_le intro!: order_trans [OF length_dropWhile_le])

definition read_call_state :: "string \<Rightarrow> bool option" where
  "read_call_state out =
     (let states = call_states False out
      in if states = [] then None else Some (list_ex (\<lambda>s. s \<noteq> ''0'') states))"

definition call_state_fault :: "exn \<Rightarrow> bool" where
  "call_state_fault e \<longleftrightarrow> device_fault e \<or> (case e of FileNotFoundError m \<Rightarrow> True | _ \<Rightarrow> False)"

definition call_in_progress :: "'w host \<Rightarrow> string \<Rightarrow> ('w, bool option) io" where
  "call_in_progress h u =
     io_catch (io_bind (load_unit h u) (\<lambda>target.
         io_bind (resolve_serial h (un_serial target)) (\<lambda>s.
         io_bind (run_exec_out h s [''dumpsys'', ''telephony.registry''] CALL_STATE_TIMEOUT_SECONDS) (\<lambda>out.
         io_ret (read_call_state out)))))
       (\<lambda>e. if call_state_fault e then io_ret None else io_raise e)"

section \<open>Messages\<close>

definition send_outcome :: "string \<Rightarrow> int option \<Rightarrow> json option \<Rightarrow> (string \<times> json) list result" where
  "send_outcome u sim doc =
     (case doc of
        Some (JObj ms) \<Rightarrow>
          if obj_get ''error'' ms = JStr ''unknown_sim''
          then Inl (send_error (''unit '' @ py_repr u @ '' has no SIM '' @ py_sim sim))
          else if obj_get ''status'' ms = JStr ''rejected'' \<or> ''error'' \<in> set (dict_keys ms)
          then Inl (device_send_error (''unit '' @ py_repr u @ '' rejected the send''))
          else Inr (dict_set ''accepted'' (JBool True) ms)
      | _ \<Rightarrow> Inl (device_send_error (''unit '' @ py_repr u @ '' returned an invalid send response'')))"

definition send_unreached :: "string \<Rightarrow> exn" where
  "send_unreached u = device_send_error (''unit '' @ py_repr u @ '' could not be reached or could not send'')"

definition send_sms ::
  "'w host \<Rightarrow> string \<Rightarrow> string \<Rightarrow> string \<Rightarrow> int \<Rightarrow> int option \<Rightarrow> ('w, (string \<times> json) list) io" where
  "send_sms h u dest body timeout sim =
     (if body = [] then io_raise (send_error ''message body must not be empty'')
      else if \<not> send_destination dest
      then io_raise (send_error ''destination must contain digits and an optional leading +'')
      else (case validate_sim sim of
          Inl e \<Rightarrow> io_raise (send_error ''sim must be a non-negative subscription id'')
        | Inr x \<Rightarrow> io_bind (load_unit h u) (\<lambda>target.
            io_bind (companion_output h (un_serial target) ([''send'', dest, body] @ sim_words sim) timeout
              (send_unreached u)) (\<lambda>out.
            io_lift (send_outcome u sim (json_loads out))))))"

section \<open>SIMs\<close>

record sim_entry =
  sim_sub_id :: json
  sim_slot :: json
  sim_carrier :: string
  sim_label :: string
  sim_number :: string

text \<open>\<open>str(v or "")\<close>\<close>

definition str_or_empty :: "json \<Rightarrow> string" where
  "str_or_empty v = (if json_truthy v then json_str v else [])"

definition sim_of :: "json \<Rightarrow> sim_entry list" where
  "sim_of v =
     (case v of
        JObj ms \<Rightarrow>
          if as_int (obj_get ''sub_id'' ms) = None then []
          else [\<lparr>sim_sub_id = obj_get ''sub_id'' ms,
                 sim_slot = (if as_int (obj_get ''slot'' ms) = None then JNull else obj_get ''slot'' ms),
                 sim_carrier = str_or_empty (obj_get ''carrier'' ms),
                 sim_label = str_or_empty (obj_get ''label'' ms),
                 sim_number = str_or_empty (obj_get ''number'' ms)\<rparr>]
      | _ \<Rightarrow> [])"

definition default_sub :: "json \<Rightarrow> json" where
  "default_sub v = (case as_int v of Some n \<Rightarrow> if n \<ge> 0 then v else JNull | None \<Rightarrow> JNull)"

definition sims_outcome :: "string \<Rightarrow> json option \<Rightarrow> (json \<times> sim_entry list) result" where
  "sims_outcome u doc =
     (case doc of
        Some (JObj ms) \<Rightarrow>
          (case obj_get ''sims'' ms of
             JArr vs \<Rightarrow> Inr (default_sub (obj_get ''default_sub'' ms), concat (map sim_of vs))
           | _ \<Rightarrow> Inl (sims_error (''unit '' @ py_repr u @ '' returned an invalid SIM list'')))
      | _ \<Rightarrow> Inl (sims_error (''unit '' @ py_repr u @ '' returned an invalid SIM list'')))"

definition read_sims :: "'w host \<Rightarrow> string \<Rightarrow> int \<Rightarrow> ('w, json \<times> sim_entry list) io" where
  "read_sims h u timeout =
     io_bind (load_unit h u) (\<lambda>target.
     io_bind (companion_output h (un_serial target) [''sims''] timeout
       (sims_error (''unit '' @ py_repr u @ '' could not list its SIMs''))) (\<lambda>out.
     io_lift (sims_outcome u (json_loads out))))"

section \<open>Lemmas\<close>

lemma companion_output_Inr:
  "companion_output h serial words t e w = (Inr out, w') \<longleftrightarrow>
     (\<exists>s w1. resolve_serial h serial w = (Inr s, w1) \<and>
        run_exec_out h s [''su'', ''-c'', device_command ([''action'', COMPANION_PLUGIN] @ words)] t w1 =
          (Inr out, w'))"
  by (simp add: companion_output_def io_bind_Inr run_device_cli_Inr)

lemma destination_digits:
  "call_destination s \<Longrightarrow> send_destination s"
  "send_destination s \<Longrightarrow> list_all (\<lambda>c. is_digit c \<or> c = CHR ''+'') s"
proof -
  show "send_destination s" if "call_destination s"
    using that by (auto simp: call_destination_def send_destination_def)
  show "list_all (\<lambda>c. is_digit c \<or> c = CHR ''+'') s" if "send_destination s"
    using that by (cases s) (auto simp: send_destination_def drop_plus_def list_all_iff split: if_splits)
qed

lemma show_nat_neq_zero: "show_nat n = ''0'' \<longleftrightarrow> n = 0"
proof
  assume *: "show_nat n = ''0''"
  have "int_digits 0 False (show_nat n) = Some 0"
    unfolding * by (simp add: is_digit_def digit_val_def code_def)
  then show "n = 0" using digits_parse [of n] by simp
next
  have "show_nat 0 = ''0''" by code_simp
  then show "n = 0 \<Longrightarrow> show_nat n = ''0''" by simp
qed

lemma call_states_skip:
  "list_all (\<lambda>c. c \<noteq> CHR ''m'') pre \<Longrightarrow> \<not> word_char c \<Longrightarrow>
     call_states b (pre @ c # rest) = call_states False rest \<or> c = CHR ''m''"
proof (induction pre arbitrary: b)
  case Nil
  then show ?case by (auto simp: CALL_STATE_def Let_def)
next
  case (Cons d pre)
  then have "d \<noteq> CHR ''m''" by simp
  then have "\<not> starts_with CALL_STATE (d # pre @ c # rest)" by (simp add: CALL_STATE_def)
  with Cons show ?case by (simp add: Let_def)
qed

lemma span_digits:
  "\<not> is_digit c \<Longrightarrow> takeWhile is_digit (show_nat n @ c # rest) = show_nat n"
  "\<not> is_digit c \<Longrightarrow> dropWhile is_digit (show_nat n @ c # rest) = c # rest"
proof -
  have *: "is_digit d" if "d \<in> set (show_nat n)" for d using show_nat_digits that by blast
  show "takeWhile is_digit (show_nat n @ c # rest) = show_nat n" if "\<not> is_digit c"
    using * that by (subst takeWhile_append2) auto
  show "dropWhile is_digit (show_nat n @ c # rest) = c # rest" if "\<not> is_digit c"
    using * that by (subst dropWhile_append2) auto
qed

lemma call_states_line:
  "call_states False (CALL_STATE @ show_nat n @ chr_nl # rest) =
     show_nat n # call_states False rest"
proof -
  have nl: "\<not> is_digit chr_nl" "\<not> word_char chr_nl"
    by (simp_all add: chr_defs is_digit_def word_char_def is_alpha_def code_def)
  have "drop 11 (CALL_STATE @ show_nat n @ chr_nl # rest) = show_nat n @ chr_nl # rest"
    by (simp add: CALL_STATE_def)
  moreover have "call_states True (chr_nl # rest) = call_states False rest"
    using nl by (simp add: Let_def CALL_STATE_def)
  ultimately show ?thesis
    using span_digits [OF nl(1), of n rest] unfolding CALL_STATE_def append_Cons append_Nil
    by (subst call_states.simps(2)) (simp add: Let_def CALL_STATE_def)
qed

text \<open>A registry dump: for every SIM some text, then its state at the start of a word.\<close>

definition dump_noise :: "string \<Rightarrow> bool" where
  "dump_noise s \<longleftrightarrow> list_all (\<lambda>c. c \<noteq> CHR ''m'') s"

definition registry_dump :: "(string \<times> nat) list \<Rightarrow> string" where
  "registry_dump sims = concat (map (\<lambda>(noise, n). noise @ CHR '' '' # CALL_STATE @ show_nat n @ [chr_nl]) sims)"

lemma call_states_dump:
  "list_all (\<lambda>(noise, n). dump_noise noise) sims \<Longrightarrow>
     call_states False (registry_dump sims) = map (\<lambda>(noise, n). show_nat n) sims"
proof (induction sims)
  case Nil
  show ?case by (simp add: registry_dump_def)
next
  case (Cons a sims)
  obtain noise n where a: "a = (noise, n)" by (cases a)
  have blank: "\<not> word_char (CHR '' '')" by (simp add: word_char_def is_alpha_def is_digit_def code_def)
  have "registry_dump (a # sims) = noise @ CHR '' '' # CALL_STATE @ show_nat n @ chr_nl # registry_dump sims"
    by (simp add: registry_dump_def a)
  then show ?case
    using Cons call_states_skip [OF _ blank, of noise False] call_states_line [of n "registry_dump sims"] a
    by (simp add: dump_noise_def)
qed

section \<open>Properties\<close>

text \<open>
  A call or message with an unusable destination, an empty text or a negative SIM is refused as
  the client's own mistake before anything else happens: no unit file is read, no command runs.
\<close>

theorem refused_requests_touch_nothing:
  assumes "\<not> call_destination dest \<or> (\<exists>n. sim = Some n \<and> n < 0)"
    and "body = [] \<or> \<not> send_destination dest' \<or> (\<exists>n. sim' = Some n \<and> n < 0)"
  shows "(\<exists>m. dial_call h u dest t sim w = (Inl (BoundaryError CallBoundary False m), w)) \<and>
    (\<exists>m. send_sms h u dest' body t' sim' w = (Inl (BoundaryError SendBoundary False m), w))"
  using assms by (auto simp: dial_call_def send_sms_def validate_sim_def call_error_def send_error_def)

theorem refused_requests_touch_nothing_witness:
  "\<exists>m. dial_call sample_host ''lisa01'' ''1; reboot'' 30 None () = (Inl (BoundaryError CallBoundary False m), ())"
  using refused_requests_touch_nothing [where dest = "''1; reboot''" and sim = None and body = "[]"
      and dest' = "''1''" and sim' = None and h = sample_host and u = "''lisa01''" and t = 30 and w = "()"]
  by (simp add: call_destination_def drop_plus_def is_digit_def code_def)

text \<open>
  A message reported as accepted was handed to the unit as exactly one action with the
  destination and the text the client gave (and the SIM, if it named one), and the unit answered
  with a document that reports neither a rejection nor an error; the client gets that document.
\<close>

theorem accepted_message_was_sent:
  assumes "send_sms h u dest body t sim w = (Inr answer, w')"
  shows "list_all (\<lambda>c. is_digit c \<or> c = CHR ''+'') dest \<and> body \<noteq> [] \<and>
    (\<exists>serial line out w1 ms.
      sh_words Bare None line =
        Some ([''rackphone'', ''action'', ''companion'', ''send'', dest, body] @ sim_words sim) \<and>
      run_exec_out h serial [''su'', ''-c'', line] t w1 = (Inr out, w') \<and>
      json_loads out = Some (JObj ms) \<and> dict_get ''error'' ms = None \<and>
      dict_get ''status'' ms \<noteq> Some (JStr ''rejected'') \<and>
      answer = dict_set ''accepted'' (JBool True) ms)"
proof -
  let ?words = "[''action'', COMPANION_PLUGIN] @ [''send'', dest, body] @ sim_words sim"
  have ok: "body \<noteq> []" "send_destination dest" "validate_sim sim = Inr ()"
    using assms by (auto simp: send_sms_def split: if_splits sum.splits)
  then obtain target :: unit_file and out w1 e where
    "companion_output h (un_serial target) ([''send'', dest, body] @ sim_words sim) t e w1 = (Inr out, w')"
    and r: "send_outcome u sim (json_loads out) = Inr answer"
    using assms by (auto simp: send_sms_def io_bind_Inr)
  then obtain serial w3 where
    "run_exec_out h serial [''su'', ''-c'', device_command ?words] t w3 = (Inr out, w')"
    by (auto simp: companion_output_Inr)
  moreover have "sh_words Bare None (device_command ?words) =
      Some ([''rackphone'', ''action'', ''companion'', ''send'', dest, body] @ sim_words sim)"
    unfolding device_command_def by (subst sh_words_join) (simp_all add: COMPANION_PLUGIN_def)
  moreover obtain ms where ms: "json_loads out = Some (JObj ms)" "''error'' \<notin> set (dict_keys ms)"
    "obj_get ''status'' ms \<noteq> JStr ''rejected''" "answer = dict_set ''accepted'' (JBool True) ms"
    using r(1) by (auto simp: send_outcome_def split: option.splits json.splits if_splits)
  moreover have "dict_get ''error'' ms = None"
    using ms(2) by (simp add: dict_get_def dict_keys_def map_of_eq_None_iff)
  moreover have "dict_get ''status'' ms \<noteq> Some (JStr ''rejected'')"
    using ms(3) by (auto simp: obj_get_def)
  ultimately show ?thesis using ok destination_digits(2) by blast
qed

definition telephony_host :: "string \<Rightarrow> unit host" where
  "telephony_host answer = sample_host\<lparr>ho_run := (\<lambda>args t. io_ret (0,
       if args = [''adb'', ''devices''] then ''List'' @ [chr_nl] @ ''A1'' @ [chr_tab] @ ''device'' @ [chr_nl]
       else answer, [])), ho_unit_names := (\<lambda>w. Some [''lisa01.env'']), ho_read_unit := (\<lambda>n w. Some [])\<rparr>"

definition queued_answer :: string where
  "queued_answer = json_dumps (JObj [(''status'', JStr ''queued''), (''ts'', JInt 5)])"

lemma telephony_host_unit:
  "load_unit (telephony_host a) u () = (Inr (parse_unit u []), ())"
  by (rule load_unit_found) (simp_all add: telephony_host_def)

lemma queued_send:
  "send_sms (telephony_host queued_answer) ''lisa01'' ''+4917'' ''hi; there'' 60 None () =
     (Inr [(''status'', JStr ''queued''), (''ts'', JInt 5), (''accepted'', JBool True)], ())"
proof -
  have ok: "send_destination ''+4917''" by code_simp
  have "companion_output (telephony_host queued_answer) (un_serial (parse_unit ''lisa01'' []))
      ([''send'', ''+4917'', ''hi; there''] @ sim_words None) 60 e () = (Inr queued_answer, ())" for e
    unfolding companion_output_Inr by (rule exI [of _ "''A1''"], rule exI [of _ "()"]) (rule conjI, code_simp, code_simp)
  moreover have "send_outcome ''lisa01'' None (json_loads queued_answer) =
      Inr [(''status'', JStr ''queued''), (''ts'', JInt 5), (''accepted'', JBool True)]"
    by code_simp
  ultimately show ?thesis
    using ok by (simp add: send_sms_def validate_sim_def io_bind_app telephony_host_unit)
qed

theorem accepted_message_was_sent_witness:
  "\<exists>serial line out w1. sh_words Bare None line =
      Some [''rackphone'', ''action'', ''companion'', ''send'', ''+4917'', ''hi; there''] \<and>
    run_exec_out (telephony_host queued_answer) serial [''su'', ''-c'', line] 60 w1 = (Inr out, ())"
proof -
  have "sim_words None = []" by (simp add: sim_words_def)
  then show ?thesis using accepted_message_was_sent [OF queued_send] by auto
qed

text \<open>
  Whether a unit is on a call is read correctly from a registry dump with any number of SIMs:
  unknown when the dump has no state, otherwise busy exactly when some SIM is not idle.
\<close>

theorem call_state_read:
  assumes "list_all (\<lambda>(noise, n). dump_noise noise) sims"
  shows "read_call_state (registry_dump sims) =
    (if sims = [] then None else Some (\<exists>n \<in> snd ` set sims. n \<noteq> 0))"
  unfolding read_call_state_def call_states_dump [OF assms] Let_def
  by (force simp: list_ex_iff show_nat_neq_zero)

theorem call_state_read_witness:
  "read_call_state (registry_dump [(''phoneId=0'', 0), (''phoneId=1'', 2)]) = Some True"
  by (subst call_state_read) (auto simp: dump_noise_def)

end
