(* ===== verification/Plugins.thy ===== *)
theory Plugins
  imports Calls
begin

text \<open>
  The plugin schema a unit reports, \<open>device/plugins.py\<close>. The source does not check the types of
  the declaration's fields, so they are the JSON values as decoded; iterating and indexing them
  raises as in Python. \<open>int()\<close>'s limit of 4300 digits is not modelled, and the text of the JSON
  decoder's own error is abbreviated.
\<close>

definition SCHEMA_TIMEOUT_SECONDS :: int where "SCHEMA_TIMEOUT_SECONDS = 90"
definition TRUE_LITERALS :: "string list" where "TRUE_LITERALS = [''1'', ''true'', ''yes'', ''on'']"
definition FALSE_LITERALS :: "string list" where "FALSE_LITERALS = [''0'', ''false'', ''no'', ''off'']"

record setting =
  st_key :: json
  st_type :: json
  st_default :: string
  st_label :: json
  st_help :: json
  st_unit_suffix :: json
  st_allowed :: "string list"
  st_minimum :: json
  st_maximum :: json
  st_depends_on :: json

text \<open>Iteration over a decoded value, and \<open>.get\<close> with a default.\<close>

definition json_iter :: "json \<Rightarrow> json list result" where
  "json_iter v =
     (case v of
        JArr vs \<Rightarrow> Inr vs
      | JObj ms \<Rightarrow> Inr (map JStr (dict_keys ms))
      | JStr s \<Rightarrow> Inr (map (\<lambda>c. JStr [c]) s)
      | _ \<Rightarrow> Inl (TypeError ''object is not iterable''))"

definition json_members :: "json \<Rightarrow> (string \<times> json) list result" where
  "json_members v =
     (case v of JObj ms \<Rightarrow> Inr ms | _ \<Rightarrow> Inl (AttributeError ''object has no attribute get''))"

definition get_or :: "string \<Rightarrow> json \<Rightarrow> (string \<times> json) list \<Rightarrow> json" where
  "get_or k d ms = (case dict_get k ms of Some v \<Rightarrow> v | None \<Rightarrow> d)"

definition setting_from_dict :: "json \<Rightarrow> setting result" where
  "setting_from_dict raw =
     rbind (json_index ''key'' raw) (\<lambda>key.
     rbind (json_members raw) (\<lambda>ms.
     rbind (json_iter (get_or ''values'' (JArr []) ms)) (\<lambda>vs.
     Inr \<lparr>st_key = key, st_type = get_or ''type'' (JStr ''string'') ms,
          st_default = json_str (get_or ''default'' (JStr []) ms), st_label = get_or ''label'' key ms,
          st_help = get_or ''help'' (JStr []) ms, st_unit_suffix = get_or ''unit'' (JStr []) ms,
          st_allowed = map json_str vs, st_minimum = get_or ''min'' JNull ms,
          st_maximum = get_or ''max'' JNull ms, st_depends_on = get_or ''depends_on'' JNull ms\<rparr>)))"

text \<open>
  \<open>n < bound\<close> and \<open>n > bound\<close> for a bound taken from the declaration: \<open>None\<close> is no bound, a text or
  a container cannot be compared. A float bound is not followed.
\<close>

definition beyond :: "(int \<Rightarrow> int \<Rightarrow> bool) \<Rightarrow> int \<Rightarrow> json \<Rightarrow> bool result" where
  "beyond cmp n bound =
     (case bound of
        JNull \<Rightarrow> Inr False
      | JInt m \<Rightarrow> Inr (cmp n m)
      | JBool b \<Rightarrow> Inr (cmp n (if b then 1 else 0))
      | JFloat f \<Rightarrow> Inl (Unmodelled ''comparison with a float'')
      | _ \<Rightarrow> Inl (TypeError ''comparison not supported between int and the bound''))"

definition setting_validate :: "setting \<Rightarrow> string \<Rightarrow> string result" where
  "setting_validate st text =
     (if st_type st = JStr ''bool''
      then (let lowered = lower (strip text)
            in if lowered \<in> set TRUE_LITERALS then Inr ''1''
               else if lowered \<in> set FALSE_LITERALS then Inr ''0''
               else Inl (ValueError (json_str (st_key st) @ '' is a boolean; got '' @ py_repr text)))
      else if st_type st = JStr ''int''
      then (case parse_int text of
          None \<Rightarrow> Inl (ValueError (json_str (st_key st) @ '' is an integer; got '' @ py_repr text))
        | Some n \<Rightarrow>
            rbind (beyond (<) n (st_minimum st)) (\<lambda>low.
              if low then Inl (ValueError (json_str (st_key st) @ '' must be >= '' @
                json_str (st_minimum st) @ ''; got '' @ show_int n))
              else rbind (beyond (>) n (st_maximum st)) (\<lambda>high.
                if high then Inl (ValueError (json_str (st_key st) @ '' must be <= '' @
                  json_str (st_maximum st) @ ''; got '' @ show_int n))
                else Inr (show_int n))))
      else if st_type st = JStr ''enum'' \<and> text \<notin> set (st_allowed st)
      then Inl (ValueError (json_str (st_key st) @ '' must be one of: '' @ join '', '' (st_allowed st) @
        ''; got '' @ py_repr text))
      else Inr text)"

section \<open>Plugins and schemas\<close>

record plugin =
  pl_id :: json
  pl_name :: json
  pl_description :: json
  pl_settings :: "setting list"
  pl_actions :: json
  pl_status_keys :: json
  pl_values :: json

definition plugin_from_dict :: "json \<Rightarrow> plugin result" where
  "plugin_from_dict raw =
     rbind (json_members raw) (\<lambda>ms.
     rbind (json_index ''id'' raw) (\<lambda>i.
     rbind (json_members (get_or ''declaration'' (JObj []) ms)) (\<lambda>decl.
     rbind (json_iter (get_or ''settings'' (JArr []) decl)) (\<lambda>entries.
     rbind (rmap setting_from_dict entries) (\<lambda>settings.
     Inr \<lparr>pl_id = i, pl_name = get_or ''name'' i decl,
          pl_description = get_or ''description'' (JStr []) decl, pl_settings = settings,
          pl_actions = get_or ''actions'' (JArr []) decl,
          pl_status_keys = get_or ''status'' (JArr []) decl,
          pl_values = get_or ''values'' (JObj []) ms\<rparr>)))))"

definition get_setting :: "plugin \<Rightarrow> string \<Rightarrow> setting result" where
  "get_setting p key =
     (case List.find (\<lambda>st. st_key st = JStr key) (pl_settings p) of
        Some st \<Rightarrow> Inr st
      | None \<Rightarrow> Inl (KeyError (''plugin '' @ json_str (pl_id p) @ '' has no setting '' @ py_repr key)))"

definition value_field :: "string \<Rightarrow> string \<Rightarrow> plugin \<Rightarrow> string \<Rightarrow> json result" where
  "value_field field d p key =
     rbind (json_members (pl_values p)) (\<lambda>ms.
     rbind (json_members (get_or key (JObj []) ms)) (\<lambda>vs. Inr (get_or field (JStr d) vs)))"

definition get_value :: "plugin \<Rightarrow> string \<Rightarrow> json result" where
  "get_value p key = value_field ''value'' [] p key"

definition get_origin :: "plugin \<Rightarrow> string \<Rightarrow> json result" where
  "get_origin p key = value_field ''origin'' ''default'' p key"

record unit_schema =
  us_unit_name :: json
  us_model :: json
  us_lineage :: json
  us_plugins :: "plugin list"

definition get_plugin :: "unit_schema \<Rightarrow> string \<Rightarrow> plugin result" where
  "get_plugin sc i =
     (case List.find (\<lambda>p. pl_id p = JStr i) (us_plugins sc) of
        Some p \<Rightarrow> Inr p
      | None \<Rightarrow>
          let known = join '', '' (map (\<lambda>p. json_str (pl_id p)) (us_plugins sc))
          in Inl (KeyError (''no plugin '' @ py_repr i @ '' on this unit (have: '' @
               (if known = [] then ''none installed'' else known) @ '')'')))"

definition parse_schema :: "string \<Rightarrow> unit_schema result" where
  "parse_schema payload =
     (case json_loads payload of
        None \<Rightarrow> Inl (AdbError (''could not parse schema from device. '' @
          ''Run `rackphone doctor` to check the core module.''))
      | Some doc \<Rightarrow>
          rbind (json_members doc) (\<lambda>ms.
          rbind (json_iter (get_or ''plugins'' (JArr []) ms)) (\<lambda>entries.
          rbind (rmap plugin_from_dict entries) (\<lambda>ps.
          Inr \<lparr>us_unit_name = get_or ''unit'' (JStr ''?'') ms, us_model = get_or ''model'' (JStr ''?'') ms,
               us_lineage = get_or ''lineage'' (JStr ''?'') ms, us_plugins = ps\<rparr>))))"

definition fetch_schema :: "'w host \<Rightarrow> string \<Rightarrow> ('w, unit_schema) io" where
  "fetch_schema h serial =
     io_bind (run_device_cli h serial [''schema''] SCHEMA_TIMEOUT_SECONDS) (\<lambda>out. io_lift (parse_schema out))"

definition fetch_status :: "'w host \<Rightarrow> string \<Rightarrow> ('w, json) io" where
  "fetch_status h serial =
     io_bind (run_device_cli h serial [''status''] SCHEMA_TIMEOUT_SECONDS) (\<lambda>out.
     io_ret (case json_loads out of None \<Rightarrow> JObj [] | Some v \<Rightarrow> v))"

section \<open>Lemmas\<close>

text \<open>What a declaration admits as a value written to a unit.\<close>

definition admissible :: "setting \<Rightarrow> string \<Rightarrow> bool" where
  "admissible st v \<longleftrightarrow>
     (if st_type st = JStr ''bool'' then v = ''0'' \<or> v = ''1''
      else if st_type st = JStr ''int'' then
        (case parse_int v of
           Some n \<Rightarrow> v = show_int n \<and> beyond (<) n (st_minimum st) = Inr False \<and>
             beyond (>) n (st_maximum st) = Inr False
         | None \<Rightarrow> False)
      else st_type st = JStr ''enum'' \<longrightarrow> v \<in> set (st_allowed st))"

lemma validate_admissible: "setting_validate st text = Inr v \<Longrightarrow> admissible st v"
  by (auto simp: setting_validate_def admissible_def rbind_eq_Inr Let_def split: if_splits option.splits)

lemma bool_literals:
  "lower (strip ''0'') \<in> set FALSE_LITERALS" "lower (strip ''0'') \<notin> set TRUE_LITERALS"
  "lower (strip ''1'') \<in> set TRUE_LITERALS"
  by code_simp+

lemma admissible_validate: "admissible st v \<Longrightarrow> setting_validate st v = Inr v"
  by (auto simp: setting_validate_def admissible_def Let_def bool_literals split: if_splits option.splits)

lemma get_setting_declared:
  "get_setting p key = Inr st \<Longrightarrow> st \<in> set (pl_settings p) \<and> st_key st = JStr key"
  by (auto simp: get_setting_def split: option.splits dest: find_SomeD)

section \<open>Properties\<close>

text \<open>
  Validation accepts a value exactly when it can normalise it to one the declaration admits: a
  Boolean to 0 or 1, an integer to its plain decimal notation within the bounds, an enumeration
  to one of its alternatives. Validating the result again changes nothing.
\<close>

theorem validation_normalises:
  "(\<exists>text. setting_validate st text = Inr v) = admissible st v \<and>
   (case setting_validate st text' of Inr v' \<Rightarrow> setting_validate st v' = Inr v' | Inl e \<Rightarrow> True)"
  using validate_admissible [of st] admissible_validate [of st]
  by (auto split: sum.splits)

end
