(* ===== verification/Cli.thy ===== *)
theory Cli
  imports Plugins
begin

text \<open>
  The operator's commands, \<open>cli/context.py\<close> and \<open>cli/commands\<close>: choosing the device, changing a
  setting on the phone and in the unit file, deploying and pulling a unit file, installing
  modules, starting the gateway. A command is a function of its parsed arguments that returns
  the exit code, with the text where the text is the point; styled console output is left out.
\<close>

definition EXIT_OK :: int where "EXIT_OK = 0"
definition EXIT_FAILURE :: int where "EXIT_FAILURE = 1"
definition UNADOPTED_UNIT_NAME :: string where "UNADOPTED_UNIT_NAME = ''(unadopted)''"

section \<open>Targets\<close>

record device_target =
  tg_serial :: string
  tg_unit_name :: string

text \<open>A missing option and an empty one are the same: the empty text.\<close>

definition target_at :: "'w host \<Rightarrow> string option \<Rightarrow> string \<Rightarrow> ('w, device_target) io" where
  "target_at h serial name =
     io_bind (resolve_serial h serial) (\<lambda>s. io_ret \<lparr>tg_serial = s, tg_unit_name = name\<rparr>)"

definition resolve_target :: "'w host \<Rightarrow> string \<Rightarrow> string \<Rightarrow> ('w, device_target) io" where
  "resolve_target h u serial =
     (if u \<noteq> [] then io_bind (load_unit h u) (\<lambda>x. target_at h (un_serial x) (un_name x))
      else if serial \<noteq> [] then target_at h (Some serial) serial
      else io_bind (load_all_units h) (\<lambda>known.
        case known of
          [x] \<Rightarrow> target_at h (un_serial x) (un_name x)
        | _ \<Rightarrow> target_at h None UNADOPTED_UNIT_NAME))"

definition split_setting_key :: "string \<Rightarrow> (string \<times> string) result" where
  "split_setting_key dotted =
     (if CHR ''.'' \<notin> set dotted
      then Inl (SystemExit (''expected <plugin>.<key>, got '' @ py_repr dotted))
      else Inr (takeWhile (\<lambda>c. c \<noteq> CHR ''.'') dotted, tl (dropWhile (\<lambda>c. c \<noteq> CHR ''.'') dotted)))"

text \<open>Rewriting a unit file; a unit without one is left alone.\<close>

definition not_found :: "exn \<Rightarrow> bool" where
  "not_found e = (case e of FileNotFoundError m \<Rightarrow> True | _ \<Rightarrow> False)"

definition rewrite_unit :: "'w host \<Rightarrow> string \<Rightarrow> (unit_file \<Rightarrow> unit_file) \<Rightarrow> ('w, bool) io" where
  "rewrite_unit h u f =
     io_bind (io_catch (io_bind (load_unit h u) (\<lambda>x. io_ret (Some x)))
         (\<lambda>e. if not_found e then io_ret None else io_raise e)) (\<lambda>found.
       case found of
         None \<Rightarrow> io_ret False
       | Some x \<Rightarrow> io_bind (save_unit h (f x)) (\<lambda>y. io_ret True))"

definition record_setting :: "'w host \<Rightarrow> string \<Rightarrow> string \<Rightarrow> string \<Rightarrow> ('w, bool) io" where
  "record_setting h u key v = rewrite_unit h u (set_setting key v)"

definition forget_setting :: "'w host \<Rightarrow> string \<Rightarrow> string \<Rightarrow> ('w, bool) io" where
  "forget_setting h u key = rewrite_unit h u (remove_setting key)"

section \<open>Settings\<close>

definition os_error :: "exn \<Rightarrow> bool" where
  "os_error e = (case e of OSError m \<Rightarrow> True | FileNotFoundError m \<Rightarrow> True | _ \<Rightarrow> False)"

definition dotted_name :: "string \<Rightarrow> string \<Rightarrow> string" where
  "dotted_name plugin_id key = plugin_id @ ''.'' @ key"

text \<open>The device has the change already: a unit file that cannot follow is reported as a failure.\<close>

definition or_not_recorded :: "('w, bool) io \<Rightarrow> ('w, int) io" where
  "or_not_recorded m =
     io_catch (io_bind m (\<lambda>recorded. io_ret EXIT_OK))
       (\<lambda>e. if os_error e then io_ret EXIT_FAILURE else io_raise e)"

definition cmd_get :: "(plugin \<Rightarrow> string \<Rightarrow> json result) \<Rightarrow> 'w host \<Rightarrow> string \<Rightarrow> string \<Rightarrow> string \<Rightarrow> ('w, string) io" where
  "cmd_get read h u serial dotted =
     io_bind (resolve_target h u serial) (\<lambda>tg.
     io_bind (io_lift (split_setting_key dotted)) (\<lambda>(plugin_id, key).
     io_bind (fetch_schema h (tg_serial tg)) (\<lambda>sc.
     io_bind (io_lift (get_plugin sc plugin_id)) (\<lambda>p.
     io_bind (io_lift (get_setting p key)) (\<lambda>st.
     io_bind (io_lift (read p key)) (\<lambda>v. io_ret (json_str v @ [chr_nl])))))))"

definition cmd_get_setting :: "'w host \<Rightarrow> string \<Rightarrow> string \<Rightarrow> string \<Rightarrow> ('w, string) io" where
  "cmd_get_setting h u serial dotted = cmd_get get_value h u serial dotted"

definition cmd_show_origin :: "'w host \<Rightarrow> string \<Rightarrow> string \<Rightarrow> string \<Rightarrow> ('w, string) io" where
  "cmd_show_origin h u serial dotted = cmd_get get_origin h u serial dotted"

definition is_value_error :: "exn \<Rightarrow> bool" where
  "is_value_error e = (case e of ValueError m \<Rightarrow> True | _ \<Rightarrow> False)"

definition write_validated :: "'w host \<Rightarrow> device_target \<Rightarrow> string \<Rightarrow> string result \<Rightarrow> ('w, int) io" where
  "write_validated h tg dotted r =
     (case r of
        Inl e \<Rightarrow> if is_value_error e then io_ret EXIT_FAILURE else io_raise e
      | Inr v \<Rightarrow>
          io_bind (run_device_cli h (tg_serial tg) [''set'', dotted, v] DEFAULT_TIMEOUT_SECONDS) (\<lambda>out.
          or_not_recorded (record_setting h (tg_unit_name tg) dotted v)))"

definition cmd_set_setting :: "'w host \<Rightarrow> string \<Rightarrow> string \<Rightarrow> string \<Rightarrow> string \<Rightarrow> ('w, int) io" where
  "cmd_set_setting h u serial dotted text =
     io_bind (resolve_target h u serial) (\<lambda>tg.
     io_bind (io_lift (split_setting_key dotted)) (\<lambda>(plugin_id, key).
     io_bind (fetch_schema h (tg_serial tg)) (\<lambda>sc.
     io_bind (io_lift (get_plugin sc plugin_id)) (\<lambda>p.
     io_bind (io_lift (get_setting p key)) (\<lambda>st.
     write_validated h tg (dotted_name plugin_id key) (setting_validate st text))))))"

definition cmd_unset_setting :: "'w host \<Rightarrow> string \<Rightarrow> string \<Rightarrow> string \<Rightarrow> ('w, int) io" where
  "cmd_unset_setting h u serial dotted =
     io_bind (resolve_target h u serial) (\<lambda>tg.
     io_bind (io_lift (split_setting_key dotted)) (\<lambda>(plugin_id, key).
     io_bind (run_device_cli h (tg_serial tg) [''unset'', dotted_name plugin_id key]
       DEFAULT_TIMEOUT_SECONDS) (\<lambda>out.
     or_not_recorded (forget_setting h (tg_unit_name tg) (dotted_name plugin_id key)))))"

definition ACTION_TIMEOUT_SECONDS :: int where "ACTION_TIMEOUT_SECONDS = 120"

text \<open>Listing the known actions joins their ids, which must be texts.\<close>

definition action_ids :: "plugin \<Rightarrow> json list result" where
  "action_ids p = rbind (json_iter (pl_actions p)) (\<lambda>entries. rmap (json_index ''id'') entries)"

definition is_text :: "json \<Rightarrow> bool" where
  "is_text v = (case v of JStr s \<Rightarrow> True | _ \<Rightarrow> False)"

definition cmd_run_action :: "'w host \<Rightarrow> string \<Rightarrow> string \<Rightarrow> string \<Rightarrow> string \<Rightarrow> ('w, int) io" where
  "cmd_run_action h u serial plugin_id act =
     io_bind (resolve_target h u serial) (\<lambda>tg.
     io_bind (fetch_schema h (tg_serial tg)) (\<lambda>sc.
     io_bind (io_lift (get_plugin sc plugin_id)) (\<lambda>p.
     io_bind (io_lift (action_ids p)) (\<lambda>known.
       if JStr act \<notin> set known
       then if list_all is_text known then io_ret EXIT_FAILURE
            else io_raise (TypeError ''sequence item: expected str instance'')
       else io_bind (run_device_cli h (tg_serial tg) [''action'', plugin_id, act] ACTION_TIMEOUT_SECONDS)
         (\<lambda>out. io_ret EXIT_OK)))))"

section \<open>Deployment\<close>

definition deploy_script :: "unit_file \<Rightarrow> string" where
  "deploy_script x =
     ''mkdir -p /data/adb/rackphone && cat > '' @ DEVICE_CONFIG_PATH @ '' <<'' @
     [chr_quote] @ ''RPEOF'' @ [chr_quote] @ [chr_nl] @ to_device_config x @ ''RPEOF'' @ [chr_nl] @
     ''chmod 600 '' @ DEVICE_CONFIG_PATH"

definition cmd_deploy_unit :: "'w host \<Rightarrow> string \<Rightarrow> bool \<Rightarrow> ('w, int) io" where
  "cmd_deploy_unit h u dry_run =
     io_bind (load_unit h u) (\<lambda>x.
     io_bind (resolve_serial h (un_serial x)) (\<lambda>serial.
     if dry_run then io_ret EXIT_OK
     else io_bind (run_as_root h serial (deploy_script x) ROOT_TIMEOUT_SECONDS) (\<lambda>out. io_ret EXIT_OK)))"

text \<open>
  One setting of the device's report: unless it is a built-in default or equal to the file's, the
  file takes it over. A value that is not a text is not followed.
\<close>

definition pull_setting :: "plugin \<Rightarrow> setting \<Rightarrow> (string \<times> string) list \<times> unit_file
     \<Rightarrow> ((string \<times> string) list \<times> unit_file) result" where
  "pull_setting p st acc =
     (case (pl_id p, st_key st) of
        (JStr i, JStr key) \<Rightarrow>
          rbind (get_origin p key) (\<lambda>origin.
            if origin = JStr ''default'' then Inr acc
            else rbind (get_value p key) (\<lambda>v. case v of
                JStr s \<Rightarrow>
                  if dict_get (dotted_name i key) (un_settings (snd acc)) \<noteq> Some s
                  then Inr (fst acc @ [(dotted_name i key, s)], set_setting (dotted_name i key) s (snd acc))
                  else Inr acc
              | _ \<Rightarrow> Inl (Unmodelled ''a value that is not a text'')))
      | _ \<Rightarrow> Inl (Unmodelled ''a name that is not a text''))"

fun pull_settings :: "(plugin \<times> setting) list \<Rightarrow> (string \<times> string) list \<times> unit_file
     \<Rightarrow> ((string \<times> string) list \<times> unit_file) result" where
  "pull_settings [] acc = Inr acc"
| "pull_settings ((p, st) # rest) acc = rbind (pull_setting p st acc) (pull_settings rest)"

definition declared_settings :: "unit_schema \<Rightarrow> (plugin \<times> setting) list" where
  "declared_settings sc = concat (map (\<lambda>p. map (\<lambda>st. (p, st)) (pl_settings p)) (us_plugins sc))"

definition cmd_pull_unit :: "'w host \<Rightarrow> string \<Rightarrow> ('w, int) io" where
  "cmd_pull_unit h u =
     io_bind (load_unit h u) (\<lambda>x.
     io_bind (resolve_serial h (un_serial x)) (\<lambda>serial.
     io_bind (fetch_schema h serial) (\<lambda>sc.
     io_bind (io_lift (pull_settings (declared_settings sc) ([], x))) (\<lambda>(changes, y).
       if changes = [] then io_ret EXIT_OK
       else io_bind (save_unit h y) (\<lambda>z. io_ret EXIT_OK)))))"

section \<open>Lemmas\<close>

lemma load_each_world:
  "(\<And>n w. snd (ld n w) = w) \<Longrightarrow> snd (load_each ld fs w) = w"
proof (induction fs arbitrary: w)
  case (Cons f fs)
  then show ?case by (auto simp: snd_io_bind snd_io_catch split: sum.splits)
qed simp

lemma load_within_world: "snd (load_within n h name w) = w"
proof (induction n arbitrary: name w)
  case (Suc n)
  have "snd (load_listed (load_within n h) h w) = w" for w
    using load_each_world [of "load_within n h"] Suc
    by (auto simp: load_listed_def snd_io_bind split: option.splits sum.splits)
  then show ?case
    by (auto simp: snd_io_bind split: option.splits sum.splits)
qed simp

lemma load_unit_world: "load_unit h name w = (r, w') \<Longrightarrow> w' = w"
  using load_within_world [of RECURSION_DEPTH h name w] by (simp add: load_unit_def)

lemma load_unit_Inr:
  "load_unit h name w = (Inr x, w') \<longleftrightarrow>
     w' = w \<and> (\<exists>text. ho_read_unit h name w = Some text \<and> utf8_valid text \<and> x = parse_unit name text)"
proof -
  obtain n where n: "RECURSION_DEPTH = Suc n" unfolding RECURSION_DEPTH_def by (metis numeral_eq_Suc)
  show ?thesis
    unfolding load_unit_def n
    by (auto simp: io_bind_app case_prod_unfold split: option.splits sum.splits if_splits)
qed

text \<open>What a unit file holds is clean: it can be written and read again.\<close>

lemma match_setting_clean:
  assumes "match_setting l = Some (key, v)" and "line_free l"
  shows "key \<noteq> [] \<and> list_all key_char key \<and> clean_value v"
proof -
  define s where "s = lstrip l"
  define r where "r = lstrip (drop (length (takeWhile key_char s)) s)"
  obtain c v0 where r: "r = c # v0" "v = strip v0" "key = takeWhile key_char s" "key \<noteq> []"
    using assms(1) by (auto simp: match_setting_def Let_def s_def r_def split: list.splits if_splits)
  have "line_free r"
    unfolding r_def s_def lstrip_def by (intro line_free_dropWhile line_free_drop assms(2))
  then have "line_free v0" unfolding r(1) by (simp add: break_rest_tail)
  then have "line_free v" unfolding r(2) by (rule line_free_strip)
  moreover have "list_all key_char key" unfolding r(3) by (auto simp: list_all_iff dest: set_takeWhileD)
  ultimately show ?thesis using r by (simp add: clean_value_def)
qed

definition settled :: "unit_file \<Rightarrow> bool" where
  "settled u \<longleftrightarrow> clean_value (un_label u) \<and>
     (case un_serial u of None \<Rightarrow> True | Some s \<Rightarrow> s \<noteq> [] \<and> clean_value s) \<and> dict_ok (un_settings u) \<and>
     (\<forall>k v. dict_get k (un_settings u) = Some v \<longrightarrow> clean_key k \<and> clean_value v)"

lemma clean_unit_settled: "clean_unit u \<longleftrightarrow> line_free (un_name u) \<and> settled u"
  by (auto simp: clean_unit_def settled_def list_all_iff dict_get_mem)

lemma settled_line: "settled u \<Longrightarrow> line_free l \<Longrightarrow> settled (apply_line l u)"
  using match_setting_clean [of l]
  by (auto simp: apply_line_def settled_def clean_key_def split: option.splits)

lemma settled_parse: "settled (parse_unit name text)"
proof -
  have "settled (fold apply_line ls u)" if "settled u" "\<forall>l \<in> set ls. line_free l" for ls u
    using that by (induction ls arbitrary: u) (auto simp: settled_line)
  moreover have "settled \<lparr>un_name = name, un_serial = None, un_label = [], un_settings = []\<rparr>"
    by (simp add: settled_def clean_value_def strip_def lstrip_def rstrip_def)
  ultimately show ?thesis
    unfolding parse_unit_def using splitlines_free by blast
qed

lemma parse_unit_name [simp]: "un_name (parse_unit name text) = name"
proof -
  have "un_name (fold apply_line ls u) = un_name u" for ls u
    by (induction ls arbitrary: u) (auto simp: apply_line_def split: option.splits)
  then show ?thesis by (simp add: parse_unit_def)
qed

text \<open>A host whose unit files read back as written; text is encoded as UTF-8.\<close>

definition stores_units :: "'w host \<Rightarrow> bool" where
  "stores_units h \<longleftrightarrow> (\<forall>n s w w'. ho_write_unit h n s w = (Inr (), w') \<longrightarrow>
     ho_read_unit h n w' = Some s \<and> utf8_valid s)"

lemma rewrite_unit_cases:
  assumes "rewrite_unit h u f w = (Inr found, w')"
  shows "\<not> found \<and> w' = w \<and> (\<exists>e. load_unit h u w = (Inl e, w) \<and> not_found e) \<or>
    found \<and> (\<exists>x. load_unit h u w = (Inr x, w) \<and> save_unit h (f x) w = (Inr (), w'))"
proof -
  obtain r where r: "load_unit h u w = (r, w)" using load_unit_world by (metis surj_pair)
  show ?thesis
    using assms r
    by (cases r) (auto simp: rewrite_unit_def io_bind_app io_catch_app split: if_splits prod.splits sum.splits)
qed

lemma rewrite_survives:
  assumes "stores_units h" and "line_free u" and "rewrite_unit h u f w = (Inr True, w')"
    and "\<And>x. settled x \<Longrightarrow> settled (f x)" and "\<And>x. un_name (f x) = un_name x"
  shows "\<exists>old new. load_unit h u w = (Inr old, w) \<and> load_unit h u w' = (Inr new, w') \<and>
    un_serial new = un_serial (f old) \<and> un_label new = un_label (f old) \<and>
    (\<forall>k. dict_get k (un_settings new) = dict_get k (un_settings (f old)))"
proof -
  obtain x where x: "load_unit h u w = (Inr x, w)" "save_unit h (f x) w = (Inr (), w')"
    using rewrite_unit_cases [OF assms(3)] by blast
  then have parse: "settled x" "un_name x = u"
    unfolding load_unit_Inr using settled_parse by auto
  then have clean: "clean_unit (f x)" using assms(2,4,5) by (simp add: clean_unit_settled)
  have "ho_read_unit h u w' = Some (unit_text (f x)) \<and> utf8_valid (unit_text (f x))"
    using x(2) assms(1,5) parse(2) unfolding save_unit_def stores_units_def by metis
  then have "load_unit h u w' = (Inr (parse_unit u (unit_text (f x))), w')"
    by (simp add: load_unit_found)
  moreover have "parse_unit u (unit_text (f x)) = (f x)\<lparr>un_settings := sorted_settings (un_settings (f x))\<rparr>"
    using unit_file_parse [OF clean] assms(5) parse(2) by metis
  moreover have "dict_get k (sorted_settings (un_settings (f x))) = dict_get k (un_settings (f x))" for k
    using dict_get_sorted clean by (auto simp: clean_unit_def)
  ultimately show ?thesis using x(1) by auto
qed

lemma settled_set: "settled x \<Longrightarrow> clean_key k \<Longrightarrow> clean_value v \<Longrightarrow> settled (set_setting k v x)"
  by (simp add: settled_def set_setting_def)

lemma set_setting_name: "un_name (set_setting k v x) = un_name x"
  by (simp add: set_setting_def)

lemma settled_remove: "settled x \<Longrightarrow> settled (remove_setting k x)"
  by (simp add: settled_def remove_setting_def)

lemma clean_show_int: "clean_value (show_int n)"
proof -
  have "list_all plain (show_int n)"
    using show_nat_digits by (fastforce simp: show_int_def list_all_iff plain_def is_break_def is_digit_def code_def)
  then show ?thesis
    using plain_line_free strip_no_space [OF show_int_no_space] by (simp add: clean_value_def)
qed

lemma validated_cases:
  "setting_validate st text = Inr v \<Longrightarrow> v = ''0'' \<or> v = ''1'' \<or> (\<exists>n. v = show_int n) \<or> v = text"
  unfolding setting_validate_def Let_def
  by (auto simp: rbind_eq_Inr split: if_split_asm option.split_asm)

lemma validated_clean:
  assumes "setting_validate st text = Inr v" and "clean_value text"
  shows "clean_value v"
proof -
  have "clean_value ''0''" "clean_value ''1''" by code_simp+
  then show ?thesis using validated_cases [OF assms(1)] assms(2) clean_show_int by metis
qed

lemma span_split: "c \<in> set s \<Longrightarrow> s = takeWhile (\<lambda>d. d \<noteq> c) s @ c # tl (dropWhile (\<lambda>d. d \<noteq> c) s)"
  by (induction s) auto

lemma split_setting_key_dotted:
  assumes "split_setting_key dotted = Inr (a, b)" shows "dotted = dotted_name a b \<and> CHR ''.'' \<notin> set a"
proof -
  have *: "CHR ''.'' \<in> set dotted" "a = takeWhile (\<lambda>c. c \<noteq> CHR ''.'') dotted"
    "b = tl (dropWhile (\<lambda>c. c \<noteq> CHR ''.'') dotted)"
    using assms by (auto simp: split_setting_key_def split: if_splits)
  then have "dotted = a @ CHR ''.'' # b" using span_split by simp
  moreover have "CHR ''.'' \<notin> set a" unfolding *(2) by (auto dest: set_takeWhileD)
  ultimately show ?thesis by (simp add: dotted_name_def)
qed

section \<open>The deployed file\<close>

text \<open>
  A here-document with a quoted marker: its text is the lines up to the first that equals the
  marker, unexpanded, and the shell goes on after that line.
\<close>

definition heredoc :: "string \<Rightarrow> string \<Rightarrow> (string \<times> string) option" where
  "heredoc marker s =
     (let lines = split_on chr_nl s
      in if marker \<in> set lines
         then Some (concat (map (\<lambda>l. l @ [chr_nl]) (takeWhile (\<lambda>l. l \<noteq> marker) lines)),
           join [chr_nl] (tl (dropWhile (\<lambda>l. l \<noteq> marker) lines)))
         else None)"

lemma split_on_lines:
  "\<forall>l \<in> set ls. c \<notin> set l \<Longrightarrow> split_on c (concat (map (\<lambda>l. l @ [c]) ls) @ s) = ls @ split_on c s"
  by (induction ls) (simp_all add: split_on_append)

lemma join_split_on: "join [c] (split_on c s) = s"
proof (induction s)
  case (Cons x s)
  obtain v vs where "split_on c s = v # vs" using split_on_ne by (metis list.exhaust)
  with Cons show ?case by (cases vs) auto
qed simp

lemma join_lines: "ls \<noteq> [] \<Longrightarrow> join [c] ls @ [c] = concat (map (\<lambda>l. l @ [c]) ls)"
  by (induction "[c]" ls rule: join.induct) auto

lemma heredoc_lines:
  assumes "\<forall>l \<in> set ls. chr_nl \<notin> set l \<and> l \<noteq> marker" and "chr_nl \<notin> set marker"
  shows "heredoc marker (concat (map (\<lambda>l. l @ [chr_nl]) ls) @ marker @ chr_nl # s) =
    Some (concat (map (\<lambda>l. l @ [chr_nl]) ls), s)"
proof -
  have lines: "split_on chr_nl (concat (map (\<lambda>l. l @ [chr_nl]) ls) @ marker @ chr_nl # s) =
      ls @ marker # split_on chr_nl s"
    using assms by (simp add: split_on_lines split_on_append)
  have "takeWhile (\<lambda>l. l \<noteq> marker) (ls @ marker # split_on chr_nl s) = ls"
    "dropWhile (\<lambda>l. l \<noteq> marker) (ls @ marker # split_on chr_nl s) = marker # split_on chr_nl s"
    using assms(1) by (simp_all add: takeWhile_append2 dropWhile_append2)
  then show ?thesis unfolding heredoc_def Let_def lines by (simp add: join_split_on)
qed

definition config_lines :: "unit_file \<Rightarrow> string list" where
  "config_lines x = [''# Generated by `rackphone deploy` - do not edit on the device.'',
     ''# Unit: '' @ un_name x, []] @ map setting_line (sorted_settings (un_settings x))"

lemma to_device_config_lines: "to_device_config x = concat (map (\<lambda>l. l @ [chr_nl]) (config_lines x))"
proof -
  have "config_lines x \<noteq> []" by (simp add: config_lines_def)
  then show ?thesis
    unfolding to_device_config_def config_lines_def [symmetric] by (rule join_lines)
qed

lemma config_lines_ok:
  assumes "settled x" and "chr_nl \<notin> set (un_name x)" and "l \<in> set (config_lines x)"
  shows "chr_nl \<notin> set l \<and> l \<noteq> ''RPEOF''"
proof -
  consider "l = ''# Generated by `rackphone deploy` - do not edit on the device.''"
    | "l = ''# Unit: '' @ un_name x" | "l = []"
    | k v where "l = setting_line (k, v)" "(k, v) \<in> set (sorted_settings (un_settings x))"
    using assms(3) by (auto simp: config_lines_def)
  then show ?thesis
  proof cases
    case 4
    then have "clean_key k" "clean_value v"
      using assms(1) sorted_settings_mem [of "un_settings x" "(k, v)"]
      by (auto simp: settled_def dict_get_mem)
    moreover have "\<not> key_char chr_nl"
      by (simp add: key_char_def chr_defs is_alpha_def is_digit_def code_def)
    then have "chr_nl \<notin> set k" using calculation(1) by (auto simp: clean_key_def list_all_iff)
    ultimately have "chr_nl \<notin> set l"
      using 4 line_free_no_nl by (auto simp: setting_line_def clean_value_def chr_defs)
    moreover have "CHR ''='' \<in> set l" using 4 by (simp add: setting_line_def)
    moreover have "CHR ''='' \<notin> set ''RPEOF''" by simp
    ultimately show ?thesis by metis
  qed (use assms(2) in \<open>auto simp: chr_defs\<close>)
qed

section \<open>Successful commands\<close>

lemma write_validated_Inr:
  "write_validated h tg dotted r w = (Inr EXIT_OK, w') \<longleftrightarrow>
     (\<exists>v out w1. r = Inr v \<and>
        run_device_cli h (tg_serial tg) [''set'', dotted, v] DEFAULT_TIMEOUT_SECONDS w = (Inr out, w1) \<and>
        or_not_recorded (record_setting h (tg_unit_name tg) dotted v) w1 = (Inr EXIT_OK, w'))"
  by (cases r) (auto simp: write_validated_def io_bind_Inr EXIT_OK_def EXIT_FAILURE_def)

lemma cmd_set_Inr:
  assumes "cmd_set_setting h u serial dotted text w = (Inr EXIT_OK, w')" and "u \<noteq> []"
  shows "\<exists>(tg :: device_target) (st :: setting) v out w1 w2. tg_unit_name tg = u \<and> setting_validate st text = Inr v \<and>
    run_device_cli h (tg_serial tg) [''set'', dotted, v] DEFAULT_TIMEOUT_SECONDS w1 = (Inr out, w2) \<and>
    or_not_recorded (record_setting h u dotted v) w2 = (Inr EXIT_OK, w')"
proof -
  from assms(1) obtain tg a b and st :: setting and w1 w2 where tg: "resolve_target h u serial w = (Inr tg, w1)"
    and key: "split_setting_key dotted = Inr (a, b)"
    and rest: "write_validated h tg (dotted_name a b) (setting_validate st text) w2 = (Inr EXIT_OK, w')"
    unfolding cmd_set_setting_def by (auto simp: io_bind_Inr)
  have "tg_unit_name tg = u"
    using tg assms(2) by (auto simp: resolve_target_def target_at_def io_bind_Inr load_unit_Inr)
  moreover have "dotted_name a b = dotted" using split_setting_key_dotted [OF key] by simp
  ultimately show ?thesis using rest unfolding write_validated_Inr by metis
qed

section \<open>Properties\<close>

text \<open>
  Deploying writes the declared configuration to the phone exactly: the shell reads the generated
  script as one here-document holding that text, whatever the unit file contains, followed by
  nothing but the change of mode.
\<close>

theorem deployed_file_is_declared:
  assumes "load_unit h name w = (Inr x, w')" and "chr_nl \<notin> set name"
  shows "\<exists>rest. deploy_script x = ''mkdir -p /data/adb/rackphone && cat > '' @ DEVICE_CONFIG_PATH @ '' <<'' @
      [chr_quote] @ ''RPEOF'' @ [chr_quote] @ [chr_nl] @ rest \<and>
    heredoc ''RPEOF'' rest = Some (to_device_config x, ''chmod 600 '' @ DEVICE_CONFIG_PATH)"
proof -
  obtain t where x: "x = parse_unit name t" using assms(1) unfolding load_unit_Inr by blast
  then have "settled x" "chr_nl \<notin> set (un_name x)" using settled_parse assms(2) by auto
  then have "\<forall>l \<in> set (config_lines x). chr_nl \<notin> set l \<and> l \<noteq> ''RPEOF''"
    using config_lines_ok by blast
  moreover have "chr_nl \<notin> set ''RPEOF''" by (simp add: chr_defs)
  ultimately have "heredoc ''RPEOF'' (to_device_config x @ ''RPEOF'' @ chr_nl # ''chmod 600 '' @ DEVICE_CONFIG_PATH) =
      Some (to_device_config x, ''chmod 600 '' @ DEVICE_CONFIG_PATH)"
    unfolding to_device_config_lines by (rule heredoc_lines)
  moreover have "deploy_script x = ''mkdir -p /data/adb/rackphone && cat > '' @ DEVICE_CONFIG_PATH @ '' <<'' @
      [chr_quote] @ ''RPEOF'' @ [chr_quote] @ [chr_nl] @
      (to_device_config x @ ''RPEOF'' @ chr_nl # ''chmod 600 '' @ DEVICE_CONFIG_PATH)"
    unfolding deploy_script_def by simp
  ultimately show ?thesis by metis
qed

definition power_limit :: setting where
  "power_limit = \<lparr>st_key = JStr ''limit'', st_type = JStr ''int'', st_default = [], st_label = JStr ''limit'',
     st_help = JStr [], st_unit_suffix = JStr [], st_allowed = [], st_minimum = JNull,
     st_maximum = JInt 100, st_depends_on = JNull\<rparr>"

definition power_plugin :: plugin where
  "power_plugin = \<lparr>pl_id = JStr ''power'', pl_name = JStr ''power'', pl_description = JStr [],
     pl_settings = [power_limit], pl_actions = JArr [], pl_status_keys = JArr [], pl_values = JObj []\<rparr>"

definition power_declared :: unit_schema where
  "power_declared = \<lparr>us_unit_name = JStr ''?'', us_model = JStr ''?'', us_lineage = JStr ''?'',
     us_plugins = [power_plugin]\<rparr>"

definition power_schema :: string where
  "power_schema = json_dumps (JObj [(''plugins'', JArr [JObj [(''id'', JStr ''power''),
     (''declaration'', JObj [(''settings'', JArr [JObj [(''key'', JStr ''limit''),
       (''type'', JStr ''int''), (''max'', JInt 100)]])])]])])"

definition unit_host :: "(string \<Rightarrow> string option) host" where
  "unit_host = \<lparr>ho_which_adb = (\<lambda>w. Some ''adb''), ho_server_socket = (\<lambda>w. None),
     ho_run = (\<lambda>args t. io_ret (0,
       if args = [''adb'', ''devices''] then ''List'' @ [chr_nl] @ ''A1'' @ [chr_tab] @ ''device'' @ [chr_nl]
       else power_schema, [])),
     ho_unit_names = (\<lambda>w. None), ho_read_unit = (\<lambda>n w. w n),
     ho_write_unit = (\<lambda>n s w. if utf8_valid s then (Inr (), w(n \<mapsto> s)) else (Inl (ValueError ''encoding''), w)),
     ho_randbelow = (\<lambda>n. io_ret 0), ho_listen = io_ret (0, 0), ho_close = (\<lambda>i. io_ret ()),
     ho_file_size = (\<lambda>p. io_ret 0), ho_read_file = (\<lambda>p. io_ret []), ho_unlink = (\<lambda>p. io_ret ())\<rparr>"

lemma unit_host_stores: "stores_units unit_host"
  by (simp add: stores_units_def unit_host_def)

definition hostile_file :: string where
  "hostile_file = ''power.limit = $(reboot) RPEOF''"

theorem deployed_file_is_declared_witness:
  "\<exists>rest. heredoc ''RPEOF'' rest = Some (to_device_config (parse_unit ''lisa01'' hostile_file),
     ''chmod 600 '' @ DEVICE_CONFIG_PATH)"
proof -
  let ?w = "[''lisa01'' \<mapsto> hostile_file]"
  have "load_unit unit_host ''lisa01'' ?w = (Inr (parse_unit ''lisa01'' hostile_file), ?w)"
    by (rule load_unit_found) (simp_all add: unit_host_def hostile_file_def utf8_ascii code_def)
  from deployed_file_is_declared [OF this] show ?thesis by (auto simp: chr_defs)
qed


definition set_world :: "string \<Rightarrow> string option" where
  "set_world = [''lisa01'' \<mapsto> hostile_file]"

lemma set_world_runs:
  "cmd_set_setting unit_host ''lisa01'' [] ''power.limit'' ''+80'' set_world =
     (Inr EXIT_OK, set_world(''lisa01'' \<mapsto> unit_text (set_setting ''power.limit'' ''80''
        (parse_unit ''lisa01'' hostile_file))))"
proof -
  have load: "load_unit unit_host ''lisa01'' set_world = (Inr (parse_unit ''lisa01'' hostile_file), set_world)"
    by (rule load_unit_found) (simp_all add: unit_host_def set_world_def hostile_file_def utf8_ascii code_def)
  have none: "un_serial (parse_unit ''lisa01'' hostile_file) = None" by code_simp
  have cmd: "build_adb_command unit_host w = (Inr [''adb''], w)" for w
    by (simp add: build_adb_command_def find_adb_binary_def unit_host_def io_bind_app)
  have run: "ho_run unit_host args t w = (Inr (0,
       if args = [''adb'', ''devices''] then ''List'' @ [chr_nl] @ ''A1'' @ [chr_tab] @ ''device'' @ [chr_nl]
       else power_schema, []), w)" for args t w
    by (simp add: unit_host_def power_schema_def)
  have devices: "parse_devices (''List'' @ [chr_nl] @ ''A1'' @ [chr_tab] @ ''device'' @ [chr_nl]) =
      [\<lparr>dv_serial = ''A1'', dv_state = ''device''\<rparr>]"
    by code_simp
  have serial: "resolve_serial unit_host None w = (Inr ''A1'', w)" for w
    by (simp add: resolve_serial_def list_devices_def cmd run io_bind_app devices [simplified] is_usable_def
        DEVICE_STATE_READY_def choose_only_def)
  have cli: "run_device_cli unit_host ''A1'' words t w = (Inr power_schema, w)" if "words \<noteq> []" for words t w
    unfolding run_device_cli_Inr by (simp add: run_exec_out_def cmd run io_bind_app)
  have schema: "parse_schema power_schema = Inr power_declared" by code_simp
  have plugin: "get_plugin power_declared ''power'' = Inr power_plugin" by code_simp
  have set: "get_setting power_plugin ''limit'' = Inr power_limit" by code_simp
  have valid: "setting_validate power_limit ''+80'' = Inr ''80''" by code_simp
  have key: "split_setting_key ''power.limit'' = Inr (''power'', ''limit'')" by code_simp
  have save: "save_unit unit_host (set_setting ''power.limit'' ''80'' (parse_unit ''lisa01'' hostile_file)) set_world =
      (Inr (), set_world(''lisa01'' \<mapsto> unit_text (set_setting ''power.limit'' ''80''
        (parse_unit ''lisa01'' hostile_file))))"
  proof -
    have "utf8_valid (unit_text (set_setting ''power.limit'' ''80'' (parse_unit ''lisa01'' hostile_file)))"
      by code_simp
    then show ?thesis by (simp add: save_unit_def unit_host_def set_setting_name)
  qed
  show ?thesis
    by (simp add: cmd_set_setting_def resolve_target_def target_at_def load none serial key fetch_schema_def cli
        schema plugin set valid write_validated_def or_not_recorded_def record_setting_def rewrite_unit_def save
        io_bind_app io_catch_app dotted_name_def)
qed


end
