(* ===== verification/EventStore.thy ===== *)
theory EventStore
  imports Json
begin

text \<open>
  The event database of the gateway, \<open>gateway/store.py\<close>: the \<open>events\<close> table as the list of
  its rows in row-id order, its uniqueness constraint on (unit, kind, source id), and the
  operations of \<open>EventStore\<close>. A transaction that raises leaves the rows unchanged.
\<close>

section \<open>Data\<close>

text \<open>
  The fields of an event are whatever the spool line held when it comes from a phone, and
  database values when it is built from a row; the two type parameters are the types of
  the text-like and of the number-like optional fields.
\<close>

record ('t, 'n) event =
  ev_unit :: string
  ev_kind :: string
  ev_source_id :: int
  ev_address :: 't
  ev_body :: 't
  ev_timestamp :: 'n
  ev_direction :: 't
  ev_duration :: 'n
  ev_raw :: "json option"

type_synonym spool_event = "(json, json) event"

record event_row =
  er_id :: int
  er_unit :: string
  er_kind :: string
  er_source_id :: int
  er_address :: "string option"
  er_body :: "string option"
  er_ts :: "int option"
  er_direction :: "string option"
  er_duration :: "int option"
  er_raw_json :: string
  er_received_at :: int

type_synonym event_db = "event_row list"

definition DEFAULT_QUERY_LIMIT :: int where "DEFAULT_QUERY_LIMIT = 100"
definition MAX_QUERY_LIMIT :: int where "MAX_QUERY_LIMIT = 1000"
definition KIND_SMS :: string where "KIND_SMS = ''sms''"
definition KIND_CALL :: string where "KIND_CALL = ''call''"
definition KIND_NOTIFICATION :: string where "KIND_NOTIFICATION = ''notification''"

lemmas kind_defs = KIND_SMS_def KIND_CALL_def KIND_NOTIFICATION_def

type_synonym event_key = "string \<times> string \<times> int"

definition row_key :: "event_row \<Rightarrow> event_key" where
  "row_key r = (er_unit r, er_kind r, er_source_id r)"

definition ev_key :: "('t, 'n) event \<Rightarrow> event_key" where
  "ev_key e = (ev_unit e, ev_kind e, ev_source_id e)"

definition keys_of :: "event_db \<Rightarrow> event_key set" where
  "keys_of db = row_key ` set db"

section \<open>Reading a spool line\<close>

text \<open>
  \<open>Event.from_spool_line\<close>. The membership tests, the conversion of the kind and the one of
  the id run on whatever the line decodes to.
\<close>

definition from_spool_line :: "string \<Rightarrow> string \<Rightarrow> spool_event option result" where
  "from_spool_line u line =
     (if strip line = [] then Inr None
      else (case json_loads (strip line) of
          None \<Rightarrow> Inr None
        | Some payload \<Rightarrow>
            rbind (json_in ''kind'' payload) (\<lambda>has_kind.
            if \<not> has_kind then Inr None
            else rbind (json_in ''id'' payload) (\<lambda>has_id.
            if \<not> has_id then Inr None
            else rbind (json_index ''kind'' payload) (\<lambda>kind.
            rbind (json_index ''id'' payload) (\<lambda>ident.
            rbind (json_int ident) (\<lambda>source_id.
            case payload of
              JObj ms \<Rightarrow> Inr (Some \<lparr>ev_unit = u, ev_kind = json_str kind,
                  ev_source_id = source_id, ev_address = obj_get ''address'' ms,
                  ev_body = obj_get ''body'' ms, ev_timestamp = obj_get ''ts'' ms,
                  ev_direction = obj_get ''direction'' ms,
                  ev_duration = obj_get ''duration'' ms, ev_raw = Some payload\<rparr>)
            | _ \<Rightarrow> Inl (TypeError ''payload is not an object''))))))))"

section \<open>Binding values to columns\<close>

text \<open>
  What SQLite stores for a bound Python value: a TEXT column turns a number into its
  notation, an INTEGER column keeps one, a list or a dictionary cannot be bound, and an
  integer must fit in 64 bits. Floats, and text bound to an INTEGER column, are not
  followed.
\<close>

definition fits64 :: "int \<Rightarrow> bool" where
  "fits64 n \<longleftrightarrow> - (2 ^ 63) \<le> n \<and> n < 2 ^ 63"

definition too_large :: exn where
  "too_large = OverflowError ''Python int too large to convert to SQLite INTEGER''"

definition bind_text :: "json \<Rightarrow> string option result" where
  "bind_text v =
     (case v of
        JNull \<Rightarrow> Inr None
      | JStr s \<Rightarrow> Inr (Some s)
      | JInt n \<Rightarrow> if fits64 n then Inr (Some (show_int n)) else Inl too_large
      | JBool b \<Rightarrow> Inr (Some (if b then ''1'' else ''0''))
      | JFloat f \<Rightarrow> Inl (Unmodelled ''a float bound to a TEXT column'')
      | _ \<Rightarrow> Inl (ProgrammingError ''type is not supported''))"

definition bind_int :: "json \<Rightarrow> int option result" where
  "bind_int v =
     (case v of
        JNull \<Rightarrow> Inr None
      | JInt n \<Rightarrow> if fits64 n then Inr (Some n) else Inl too_large
      | JBool b \<Rightarrow> Inr (Some (if b then 1 else 0))
      | JStr s \<Rightarrow> Inl (Unmodelled ''text bound to an INTEGER column'')
      | JFloat f \<Rightarrow> Inl (Unmodelled ''a float bound to an INTEGER column'')
      | _ \<Rightarrow> Inl (ProgrammingError ''type is not supported''))"

text \<open>\<open>event.raw or {}\<close>: an absent or empty record is written as an empty object.\<close>

definition raw_document :: "json option \<Rightarrow> json" where
  "raw_document r = (case r of Some v \<Rightarrow> if json_truthy v then v else JObj [] | None \<Rightarrow> JObj [])"

definition bind_event :: "int \<Rightarrow> int \<Rightarrow> spool_event \<Rightarrow> event_row result" where
  "bind_event i received_at e =
     (if \<not> fits64 (ev_source_id e) then Inl too_large
      else rbind (bind_text (ev_address e)) (\<lambda>address.
      rbind (bind_text (ev_body e)) (\<lambda>body.
      rbind (bind_int (ev_timestamp e)) (\<lambda>ts.
      rbind (bind_text (ev_direction e)) (\<lambda>direction.
      rbind (bind_int (ev_duration e)) (\<lambda>duration.
      Inr \<lparr>er_id = i, er_unit = ev_unit e, er_kind = ev_kind e,
           er_source_id = ev_source_id e, er_address = address, er_body = body, er_ts = ts,
           er_direction = direction, er_duration = duration,
           er_raw_json = json_dumps (raw_document (ev_raw e)),
           er_received_at = received_at\<rparr>))))))"

lemma bind_event_key: "bind_event i n e = Inr r \<Longrightarrow> row_key r = ev_key e \<and> er_id r = i"
  by (auto simp: bind_event_def rbind_eq_Inr row_key_def ev_key_def split: if_splits)

lemma bind_event_again: "bind_event i n e = Inr r \<Longrightarrow> \<exists>r'. bind_event j m e = Inr r'"
  by (auto simp: bind_event_def rbind_eq_Inr split: if_splits)

section \<open>Operations\<close>

text \<open>A new row of a rowid table gets the id after the largest one present.\<close>

definition next_id :: "event_db \<Rightarrow> int" where
  "next_id db = max_or0 (map er_id db) + 1"

definition has_key :: "event_db \<Rightarrow> event_key \<Rightarrow> bool" where
  "has_key db k \<longleftrightarrow> k \<in> set (map row_key db)"

text \<open>
  \<open>add_events\<close>: one \<open>INSERT OR IGNORE\<close> per event inside one transaction; the events whose
  statement changed a row are returned.
\<close>

fun add_loop :: "int \<Rightarrow> spool_event list \<Rightarrow> event_db \<Rightarrow> (spool_event list \<times> event_db) result" where
  "add_loop now [] db = Inr ([], db)"
| "add_loop now (e # es) db =
     rbind (bind_event (next_id db) now e) (\<lambda>r.
       if has_key db (row_key r) then add_loop now es db
       else rbind (add_loop now es (db @ [r])) (\<lambda>(stored, db'). Inr (e # stored, db')))"

definition add_events :: "int \<Rightarrow> spool_event list \<Rightarrow> event_db \<Rightarrow> spool_event list result \<times> event_db" where
  "add_events now es db =
     (case add_loop now es db of
        Inl ex \<Rightarrow> (Inl ex, db)
      | Inr (stored, db') \<Rightarrow> (Inr stored, db'))"

text \<open>
  \<open>add_sent\<close>: the id of a sent message is below zero and below every id stored for the
  unit's messages. The insert is the same \<open>INSERT OR IGNORE\<close>; a row that was not inserted
  raises.
\<close>

definition sent_source_id :: "string \<Rightarrow> int \<Rightarrow> event_db \<Rightarrow> int" where
  "sent_source_id u timestamp db =
     min (- timestamp)
       (min_or0 (map er_source_id (filter (\<lambda>r. er_unit r = u \<and> er_kind r = KIND_SMS) db)) - 1)"

definition sent_raw :: "json option \<Rightarrow> json" where
  "sent_raw sub = JObj ([(''kind'', JStr KIND_SMS), (''direction'', JStr ''out'')] @
     (case sub of None \<Rightarrow> [] | Some v \<Rightarrow> [(''sub'', v)]))"

definition add_sent :: "int \<Rightarrow> string \<Rightarrow> string \<Rightarrow> string \<Rightarrow> int \<Rightarrow> json option \<Rightarrow> event_db
     \<Rightarrow> event_row result \<times> event_db" where
  "add_sent now u address body timestamp sub db =
     (let sid = sent_source_id u timestamp db;
          row = \<lparr>er_id = next_id db, er_unit = u, er_kind = KIND_SMS, er_source_id = sid,
                 er_address = Some address, er_body = Some body, er_ts = Some timestamp,
                 er_direction = Some ''out'', er_duration = None,
                 er_raw_json = json_dumps (sent_raw sub), er_received_at = now\<rparr>
      in if \<not> fits64 sid \<or> \<not> fits64 timestamp then (Inl too_large, db)
         else if has_key db (row_key row)
         then (Inl (RuntimeError ''sent message was not stored''), db)
         else (Inr row, db @ [row]))"

text \<open>\<open>query_events\<close>: an empty kind or unit restricts nothing, a NULL timestamp fails \<open>ts >= ?\<close>.\<close>

definition row_matches :: "string option \<Rightarrow> string option \<Rightarrow> int option \<Rightarrow> event_row \<Rightarrow> bool" where
  "row_matches kind u since r \<longleftrightarrow>
     (case kind of Some k \<Rightarrow> k = [] \<or> er_kind r = k | None \<Rightarrow> True) \<and>
     (case u of Some n \<Rightarrow> n = [] \<or> er_unit r = n | None \<Rightarrow> True) \<and>
     (case since of Some t \<Rightarrow> (case er_ts r of Some ts \<Rightarrow> t \<le> ts | None \<Rightarrow> False) | None \<Rightarrow> True)"

definition clamp_limit :: "int \<Rightarrow> int" where
  "clamp_limit limit = max 1 (min limit MAX_QUERY_LIMIT)"

definition query_events :: "string option \<Rightarrow> string option \<Rightarrow> int option \<Rightarrow> int \<Rightarrow> event_db
     \<Rightarrow> event_row list" where
  "query_events kind u since limit db =
     take (nat (clamp_limit limit))
       (order_desc (\<lambda>r. (er_ts r, er_id r)) (filter (row_matches kind u since) db))"

definition count_by_kind :: "event_db \<Rightarrow> (string \<times> nat) list" where
  "count_by_kind db =
     map (\<lambda>k. (k, length (filter (\<lambda>r. er_kind r = k) db))) (remdups (map er_kind db))"

definition latest_event_id :: "event_db \<Rightarrow> int" where
  "latest_event_id db = max_or0 (map er_id db)"

text \<open>SQLite's integer division truncates towards zero.\<close>

definition sql_div :: "int \<Rightarrow> int \<Rightarrow> int" where
  "sql_div a b = (if a < 0 then - ((- a) div b) else a div b)"

definition event_seconds :: "event_row \<Rightarrow> int" where
  "event_seconds r = (case er_ts r of Some ts \<Rightarrow> sql_div ts 1000 | None \<Rightarrow> er_received_at r)"

definition expired :: "string \<Rightarrow> int \<Rightarrow> int \<Rightarrow> event_row \<Rightarrow> bool" where
  "expired kind days now r \<longleftrightarrow>
     er_kind r = kind \<and> event_seconds r < now - days * 24 * 60 * 60"

fun prune :: "(string \<times> int) list \<Rightarrow> int \<Rightarrow> event_db \<Rightarrow> nat \<times> event_db" where
  "prune [] now db = (0, db)"
| "prune ((kind, days) # rest) now db =
     (if days = 0 then prune rest now db
      else let kept = filter (\<lambda>r. \<not> expired kind days now r) db;
               removed = length db - length kept;
               (more, db') = prune rest now kept
           in (removed + more, db'))"

section \<open>The store as a deduplicating sink\<close>

text \<open>
  What the drain loop relies on: a batch either commits, and then exactly its new events
  are returned and every key of the batch is stored, or it changes nothing.
\<close>

locale event_sink =
  fixes add :: "int \<Rightarrow> 'e list \<Rightarrow> 's \<Rightarrow> 'e list result \<times> 's"
    and keys :: "'s \<Rightarrow> 'k set"
    and key :: "'e \<Rightarrow> 'k"
  assumes add_keys: "add t es s = (Inr st, s') \<Longrightarrow> keys s' = keys s \<union> key ` set es"
    and add_stored: "add t es s = (Inr st, s') \<Longrightarrow>
        set st \<subseteq> set es \<and> distinct (map key st) \<and> key ` set st = key ` set es - keys s"
    and add_failed: "add t es s = (Inl ex, s') \<Longrightarrow> s' = s"
    and add_known: "add t es s = (Inr st, s') \<Longrightarrow> add t2 es s' = (Inr [], s')"

text \<open>A sequence of batches, each at its own time; what each returned, in order.\<close>

fun deliver_all :: "(int \<Rightarrow> 'e list \<Rightarrow> 's \<Rightarrow> 'e list result \<times> 's) \<Rightarrow> (int \<times> 'e list) list \<Rightarrow> 's
     \<Rightarrow> 'e list \<times> 's" where
  "deliver_all add [] s = ([], s)"
| "deliver_all add ((t, es) # rest) s =
     (case add t es s of
        (Inl ex, s') \<Rightarrow> deliver_all add rest s'
      | (Inr st, s') \<Rightarrow> (let (more, s'') = deliver_all add rest s' in (st @ more, s'')))"

context event_sink
begin

lemma add_mono: "add t es s = (r, s') \<Longrightarrow> keys s \<subseteq> keys s'"
  by (cases r) (auto dest: add_keys add_failed)

lemma deliver_mono: "deliver_all add bs s = (out, s') \<Longrightarrow> keys s \<subseteq> keys s'"
proof (induction bs arbitrary: s out s')
  case Nil
  then show ?case by simp
next
  case (Cons b bs)
  obtain t es where b: "b = (t, es)" by (cases b)
  obtain r s1 where r: "add t es s = (r, s1)" by (cases "add t es s")
  have "keys s \<subseteq> keys s1" using r by (rule add_mono)
  moreover have "keys s1 \<subseteq> keys s'"
    using Cons b r by (cases r) (auto split: prod.splits)
  ultimately show ?case by blast
qed

lemma deliver_fresh:
  "deliver_all add bs s = (out, s') \<Longrightarrow>
     key ` set out \<inter> keys s = {} \<and> distinct (map key out) \<and> key ` set out \<subseteq> keys s'"
proof (induction bs arbitrary: s out s')
  case Nil
  then show ?case by simp
next
  case (Cons b bs)
  obtain t es where b: "b = (t, es)" by (cases b)
  obtain r s1 where r: "add t es s = (r, s1)" by (cases "add t es s")
  show ?case
  proof (cases r)
    case (Inl ex)
    with Cons.prems b r have "deliver_all add bs s1 = (out, s')" "s1 = s"
      by (auto dest: add_failed)
    then show ?thesis using Cons.IH by blast
  next
    case (Inr st)
    with Cons.prems b r obtain more where m: "deliver_all add bs s1 = (more, s')"
      "out = st @ more" by (auto split: prod.splits)
    have st: "key ` set st = key ` set es - keys s" "distinct (map key st)"
      using add_stored r Inr by auto
    have s1: "keys s1 = keys s \<union> key ` set es" using add_keys r Inr by auto
    have fresh: "key ` set more \<inter> keys s1 = {}" "distinct (map key more)"
      "key ` set more \<subseteq> keys s'"
      using Cons.IH m(1) by auto
    have "key ` set st \<subseteq> keys s'"
      using st(1) s1 deliver_mono [OF m(1)] by auto
    have "key ` set out \<inter> keys s = {}" using st(1) s1 fresh(1) m(2) by auto
    moreover have "distinct (map key out)" using st s1 fresh m(2) by auto
    moreover have "key ` set out \<subseteq> keys s'"
      using \<open>key ` set st \<subseteq> keys s'\<close> fresh(3) m(2) by (simp add: image_Un)
    ultimately show ?thesis by blast
  qed
qed

lemma deliver_once: "distinct (map key (fst (deliver_all add bs s)))"
  using deliver_fresh by (metis prod.collapse)

end

lemmas event_row_eqs = row_key_def ev_key_def

lemma has_key_iff: "has_key db k \<longleftrightarrow> k \<in> keys_of db"
  by (simp add: has_key_def keys_of_def)

lemma keys_of_append [simp]: "keys_of (a @ b) = keys_of a \<union> keys_of b"
  by (auto simp: keys_of_def)

lemma keys_of_single [simp]: "keys_of [r] = {row_key r}"
  by (simp add: keys_of_def)

definition store_ok :: "event_db \<Rightarrow> bool" where
  "store_ok db \<longleftrightarrow> sorted_wrt (<) (map er_id db) \<and> (\<forall>r \<in> set db. 1 \<le> er_id r) \<and>
     distinct (map row_key db)"

lemma next_id_gt: "r \<in> set db \<Longrightarrow> er_id r < next_id db"
  using max_or0_ge [of "er_id r" "map er_id db"] by (simp add: next_id_def)

lemma next_id_pos: "store_ok db \<Longrightarrow> 1 \<le> next_id db"
  using max_or0_ge [of "er_id (hd db)" "map er_id db"]
  by (cases db) (auto simp: next_id_def store_ok_def)

lemma store_ok_snoc:
  "store_ok db \<Longrightarrow> er_id r = next_id db \<Longrightarrow> \<not> has_key db (row_key r) \<Longrightarrow> store_ok (db @ [r])"
  using next_id_gt [of _ db] next_id_pos [of db]
  by (auto simp: store_ok_def sorted_wrt_append has_key_def)

lemma store_ok_filter: "store_ok db \<Longrightarrow> store_ok (filter p db)"
  by (auto simp: store_ok_def sorted_wrt_map distinct_map_filter intro: sorted_wrt_filter')

lemma add_loop_spec:
  "add_loop now es db = Inr (st, db') \<Longrightarrow>
     keys_of db' = keys_of db \<union> ev_key ` set es \<and> set st \<subseteq> set es \<and>
     distinct (map ev_key st) \<and> ev_key ` set st = ev_key ` set es - keys_of db \<and>
     (\<exists>new. db' = db @ new \<and> map row_key new = map ev_key st) \<and>
     (store_ok db \<longrightarrow> store_ok db')"
proof (induction es arbitrary: db st db')
  case Nil
  then show ?case by simp
next
  case (Cons e es)
  then obtain r where r: "bind_event (next_id db) now e = Inr r"
    by (auto simp: rbind_eq_Inr)
  have key: "row_key r = ev_key e" "er_id r = next_id db" using bind_event_key [OF r] by auto
  show ?case
  proof (cases "has_key db (ev_key e)")
    case True
    then have "add_loop now es db = Inr (st, db')" using Cons.prems r key by simp
    with Cons.IH [OF this] True show ?thesis by (auto simp: has_key_iff)
  next
    case False
    then obtain st1 where st1: "add_loop now es (db @ [r]) = Inr (st1, db')" "st = e # st1"
      using Cons.prems r key by (auto simp: rbind_eq_Inr)
    have ok: "store_ok db \<longrightarrow> store_ok (db @ [r])"
      using store_ok_snoc key False by simp
    from Cons.IH [OF st1(1)] have IH:
      "keys_of db' = keys_of (db @ [r]) \<union> ev_key ` set es" "set st1 \<subseteq> set es"
      "distinct (map ev_key st1)" "ev_key ` set st1 = ev_key ` set es - keys_of (db @ [r])"
      "\<exists>new. db' = (db @ [r]) @ new \<and> map row_key new = map ev_key st1"
      "store_ok (db @ [r]) \<longrightarrow> store_ok db'" by blast+
    have "ev_key ` set st = ev_key ` set (e # es) - keys_of db"
      using IH(4) False st1(2) key by (auto simp: has_key_iff)
    moreover have "distinct (map ev_key st)"
      using IH(3,4) st1(2) key by auto
    moreover have "\<exists>new. db' = db @ new \<and> map row_key new = map ev_key st"
      using IH(5) st1(2) key by (metis Cons_eq_appendI append_assoc append_Nil list.simps(9))
    ultimately show ?thesis using IH(1,2,6) st1(2) key ok by auto
  qed
qed

lemma add_loop_known:
  "(\<forall>e \<in> set es. ev_key e \<in> keys_of db \<and> (\<exists>i n r. bind_event i n e = Inr r)) \<Longrightarrow>
     add_loop now es db = Inr ([], db)"
proof (induction es)
  case Nil
  show ?case by simp
next
  case (Cons e es)
  then obtain r where r: "bind_event (next_id db) now e = Inr r"
    by (meson bind_event_again list.set_intros(1))
  moreover have "row_key r = ev_key e" using bind_event_key [OF r] by simp
  moreover have "ev_key e \<in> keys_of db" "add_loop now es db = Inr ([], db)"
    using Cons by simp_all
  ultimately show ?case by (simp add: has_key_iff)
qed

lemma add_loop_bound:
  "add_loop now es db = Inr p \<Longrightarrow> e \<in> set es \<Longrightarrow> \<exists>i n r. bind_event i n e = Inr r"
proof (induction es arbitrary: db p)
  case Nil
  then show ?case by simp
next
  case (Cons a es)
  then obtain r where r: "bind_event (next_id db) now a = Inr r"
    by (auto simp: rbind_eq_Inr)
  obtain db1 q where "add_loop now es db1 = Inr q"
  proof (cases "has_key db (row_key r)")
    case True
    then have "add_loop now es db = Inr p" using Cons.prems(1) r by simp
    then show ?thesis by (rule that)
  next
    case False
    then obtain q where "add_loop now es (db @ [r]) = Inr q"
      using Cons.prems(1) r by (auto simp: rbind_eq_Inr)
    then show ?thesis by (rule that)
  qed
  from Cons.IH [OF this] have "e \<in> set es \<Longrightarrow> ?case" .
  then show ?case using Cons.prems(2) r by (cases "e = a") auto
qed

lemma add_events_Inr:
  "add_events now es db = (Inr st, db') \<longleftrightarrow> add_loop now es db = Inr (st, db')"
  by (auto simp: add_events_def split: sum.splits prod.splits)

lemma add_events_known:
  assumes "add_events now es db = (Inr st, db')"
  shows "add_events t2 es db' = (Inr [], db')"
proof -
  have loop: "add_loop now es db = Inr (st, db')" using assms by (simp add: add_events_Inr)
  then have "\<forall>e \<in> set es. ev_key e \<in> keys_of db' \<and> (\<exists>i n r. bind_event i n e = Inr r)"
    using add_loop_spec [OF loop] add_loop_bound [OF loop] by auto
  then show ?thesis by (simp add: add_events_Inr add_loop_known)
qed

interpretation sink: event_sink add_events keys_of ev_key
proof (unfold_locales, goal_cases)
  case (1 t es s st s')
  then show ?case using add_loop_spec by (auto simp: add_events_Inr)
next
  case (2 t es s st s')
  then show ?case using add_loop_spec by (auto simp: add_events_Inr)
next
  case (3 t es s ex s')
  then show ?case by (auto simp: add_events_def split: sum.splits)
next
  case (4 t es s st s' t2)
  then show ?case by (rule add_events_known)
qed

section \<open>Steps of the store and its invariant\<close>

inductive db_step :: "event_db \<Rightarrow> event_db \<Rightarrow> bool" where
  step_add: "add_events now es db = (r, db') \<Longrightarrow> db_step db db'"
| step_sent: "add_sent now u address body ts sub db = (q, db') \<Longrightarrow> db_step db db'"
| step_prune: "prune policy now db = (n, db') \<Longrightarrow> db_step db db'"

inductive db_reachable :: "event_db \<Rightarrow> bool" where
  db_start: "db_reachable []"
| db_next: "db_reachable db \<Longrightarrow> db_step db db' \<Longrightarrow> db_reachable db'"

lemma add_events_ok: "add_events now es db = (r, db') \<Longrightarrow> store_ok db \<Longrightarrow> store_ok db'"
  using add_loop_spec by (cases r) (auto simp: add_events_Inr dest: sink.add_failed)

lemma add_sent_ok:
  "add_sent now u address body ts sub db = (q, db') \<Longrightarrow> store_ok db \<Longrightarrow> store_ok db'"
  by (auto simp: add_sent_def Let_def split: if_splits intro!: store_ok_snoc)

definition expired_by :: "(string \<times> int) list \<Rightarrow> int \<Rightarrow> event_row \<Rightarrow> bool" where
  "expired_by policy now r = list_ex (\<lambda>(kind, days). days \<noteq> 0 \<and> expired kind days now r) policy"

lemma prune_filter:
  "prune policy now db =
     (length (filter (expired_by policy now) db), filter (\<lambda>r. \<not> expired_by policy now r) db)"
proof (induction policy now db rule: prune.induct)
  case (1 now db)
  show ?case by (simp add: expired_by_def)
next
  case (2 kind days rest now db)
  show ?case
  proof (cases "days = 0")
    case True
    with 2 show ?thesis by (simp add: expired_by_def)
  next
    case False
    let ?kept = "filter (\<lambda>r. \<not> expired kind days now r) db"
    have split: "expired_by ((kind, days) # rest) now r \<longleftrightarrow>
        expired kind days now r \<or> expired_by rest now r" for r
      using False by (simp add: expired_by_def)
    have len: "length db - length ?kept = length (filter (expired kind days now) db)"
      using sum_length_filter_compl [of "expired kind days now" db] by simp
    have cnt: "length (filter (expired_by ((kind, days) # rest) now) db) =
        length (filter (expired kind days now) db) + length (filter (expired_by rest now) ?kept)"
      unfolding split by (induction db) auto
    have kept: "filter (\<lambda>r. \<not> expired_by ((kind, days) # rest) now r) db =
        filter (\<lambda>r. \<not> expired_by rest now r) ?kept"
      unfolding split by (simp add: conj_commute)
    have IH: "prune rest now ?kept = (length (filter (expired_by rest now) ?kept),
        filter (\<lambda>r. \<not> expired_by rest now r) ?kept)"
      using 2 False by blast
    show ?thesis
      unfolding prune.simps Let_def IH cnt kept len using False by simp
  qed
qed

lemma prune_ok: "prune policy now db = (n, db') \<Longrightarrow> store_ok db \<Longrightarrow> store_ok db'"
  using store_ok_filter by (auto simp: prune_filter)

lemma db_step_ok: "db_step db db' \<Longrightarrow> store_ok db \<Longrightarrow> store_ok db'"
  by (induction rule: db_step.induct) (auto dest: add_events_ok add_sent_ok prune_ok)

lemma sent_id_fresh: "(u, KIND_SMS, sent_source_id u ts db) \<notin> keys_of db"
proof
  assume "(u, KIND_SMS, sent_source_id u ts db) \<in> keys_of db"
  then obtain r where r: "r \<in> set db" "er_unit r = u" "er_kind r = KIND_SMS"
    "er_source_id r = sent_source_id u ts db"
    by (auto simp: keys_of_def row_key_def)
  let ?ids = "map er_source_id (filter (\<lambda>r. er_unit r = u \<and> er_kind r = KIND_SMS) db)"
  have "er_source_id r \<in> set ?ids"
    unfolding set_map set_filter by (rule imageI) (simp add: r)
  then have "min_or0 ?ids \<le> er_source_id r"
    by (rule min_or0_le)
  moreover have "sent_source_id u ts db \<le> min_or0 ?ids - 1"
    by (simp add: sent_source_id_def)
  ultimately show False using r(4) by simp
qed

section \<open>Properties\<close>

text \<open>Every event store reached by draining, sending and pruning from the empty one has
  strictly increasing positive row ids and no two rows with the same unit, kind and source
  id.\<close>

theorem reachable_store_ok: "db_reachable db \<Longrightarrow> store_ok db"
proof (induction rule: db_reachable.induct)
  case db_start
  show ?case by (simp add: store_ok_def)
next
  case (db_next db db')
  then show ?case by (blast intro: db_step_ok)
qed

definition sample_event :: "int \<Rightarrow> spool_event" where
  "sample_event n = \<lparr>ev_unit = ''lisa01'', ev_kind = ''sms'', ev_source_id = n,
     ev_address = JStr ''Bank'', ev_body = JStr ''code'', ev_timestamp = JInt 5000,
     ev_direction = JNull, ev_duration = JNull, ev_raw = None\<rparr>"

lemma reachable_store_ok_witness:
  "store_ok (snd (add_events 7 [sample_event 1, sample_event 2, sample_event 1] []))"
  by (rule reachable_store_ok, rule db_next, rule db_start, rule step_add,
      rule prod.collapse [symmetric])

text \<open>When a batch is committed, the rows present before it stay, one row is appended for
  each returned event, the returned events are those of the batch whose key was not stored
  before, each key once, and afterwards every event of the batch is stored.\<close>

theorem add_events_exact:
  assumes "add_events now es db = (Inr stored, db')"
  shows "(\<exists>new. db' = db @ new \<and> map row_key new = map ev_key stored) \<and>
     distinct (map ev_key stored) \<and> set stored \<subseteq> set es \<and>
     ev_key ` set stored = ev_key ` set es - keys_of db \<and>
     keys_of db' = keys_of db \<union> ev_key ` set es"
  using add_loop_spec assms by (simp add: add_events_Inr)

lemma sample_add:
  "add_events 7 [sample_event 1, sample_event 1] [] =
     (Inr [sample_event 1],
      [\<lparr>er_id = 1, er_unit = ''lisa01'', er_kind = ''sms'', er_source_id = 1,
        er_address = Some ''Bank'', er_body = Some ''code'', er_ts = Some 5000,
        er_direction = None, er_duration = None, er_raw_json = ''{}'', er_received_at = 7\<rparr>])"
  by (simp add: add_events_def bind_event_def sample_event_def bind_text_def bind_int_def
      fits64_def next_id_def has_key_def row_key_def raw_document_def max_or0_def)

lemma add_events_exact_witness:
  "keys_of (snd (add_events 7 [sample_event 1, sample_event 1] [])) =
     {(''lisa01'', ''sms'', 1)}"
proof -
  have "keys_of (snd (add_events 7 [sample_event 1, sample_event 1] [])) =
      keys_of [] \<union> ev_key ` set [sample_event 1, sample_event 1]"
    using add_events_exact [OF sample_add] unfolding sample_add snd_conv by blast
  also have "\<dots> = {(''lisa01'', ''sms'', 1)}"
    by (simp add: keys_of_def ev_key_def sample_event_def)
  finally show ?thesis .
qed

text \<open>A batch that was committed and is delivered again, at any later time, changes nothing
  and announces nothing.\<close>

theorem redelivery_silent:
  assumes "add_events now es db = (Inr stored, db')"
  shows "add_events later es db' = (Inr [], db')"
  using assms by (rule sink.add_known)

lemma redelivery_silent_witness:
  "fst (add_events 99 [sample_event 1, sample_event 1]
     (snd (add_events 7 [sample_event 1, sample_event 1] []))) = Inr []"
  using redelivery_silent [OF sample_add, of 99] by (simp add: sample_add)

text \<open>Over any sequence of batches, failed ones included, no event key is announced twice.\<close>

theorem announced_once: "distinct (map ev_key (fst (deliver_all add_events batches db)))"
  by (rule sink.deliver_once)

text \<open>A sent message whose numbers fit the column is always stored: its row is appended under
  a key no row has, with the given text, a source id at most minus its timestamp.\<close>

theorem add_sent_stored:
  assumes "fits64 (sent_source_id u ts db)" and "fits64 ts"
  shows "\<exists>row. add_sent now u address body ts sub db = (Inr row, db @ [row]) \<and>
     row_key row \<notin> keys_of db \<and> er_address row = Some address \<and> er_body row = Some body \<and>
     er_ts row = Some ts \<and> er_source_id row \<le> - ts"
  using assms sent_id_fresh [of u ts db]
  by (auto simp: add_sent_def Let_def has_key_iff row_key_def sent_source_id_def)

lemma add_sent_stored_witness:
  "\<exists>row. add_sent 9 ''lisa01'' ''+7900'' ''hi'' 5000 (Some (JInt 2)) [] = (Inr row, [row])"
proof -
  have "fits64 (sent_source_id ''lisa01'' 5000 [])" "fits64 5000"
    by (simp_all add: fits64_def sent_source_id_def min_or0_def)
  from add_sent_stored [OF this, of 9 "''+7900''" "''hi''" "Some (JInt 2)"] show ?thesis by auto
qed

text \<open>A query returns rows of the store that match its restrictions, newest first, as many as
  there are up to the clamped limit, and every matching row it leaves out is no newer than
  any row it returns.\<close>

theorem query_events_newest:
  "let out = query_events kind u since limit db; key = (\<lambda>r. (er_ts r, er_id r))
   in set out \<subseteq> {r \<in> set db. row_matches kind u since r} \<and>
      length out = min (nat (clamp_limit limit)) (length (filter (row_matches kind u since) db)) \<and>
      sorted_wrt (\<lambda>a b. key b \<le> key a) out \<and>
      {r \<in> set db. row_matches kind u since r} - set out \<subseteq>
        {r. list_all (\<lambda>x. key r \<le> key x) out}"
proof -
  let ?key = "\<lambda>r. (er_ts r, er_id r)"
  let ?all = "order_desc ?key (filter (row_matches kind u since) db)"
  let ?n = "nat (clamp_limit limit)"
  have out: "query_events kind u since limit db = take ?n ?all"
    by (simp add: query_events_def)
  have sorted: "sorted_wrt (\<lambda>a b. ?key b \<le> ?key a) (take ?n ?all @ drop ?n ?all)"
    using order_desc_sorted [of ?key] by simp
  have all: "set ?all = {r \<in> set db. row_matches kind u since r}" by auto
  have rest: "{r \<in> set db. row_matches kind u since r} - set (take ?n ?all) \<subseteq> set (drop ?n ?all)"
  proof -
    have "set ?all = set (take ?n ?all) \<union> set (drop ?n ?all)"
      by (metis append_take_drop_id set_append)
    then show ?thesis unfolding all [symmetric] by blast
  qed
  have "set (drop ?n ?all) \<subseteq> {r. list_all (\<lambda>x. ?key r \<le> ?key x) (take ?n ?all)}"
    using sorted unfolding sorted_wrt_append list_all_iff by blast
  with rest have "{r \<in> set db. row_matches kind u since r} - set (take ?n ?all) \<subseteq>
      {r. list_all (\<lambda>x. ?key r \<le> ?key x) (take ?n ?all)}"
    by (rule subset_trans)
  moreover have "set (take ?n ?all) \<subseteq> {r \<in> set db. row_matches kind u since r}"
    unfolding all [symmetric] by (rule set_take_subset)
  moreover have "sorted_wrt (\<lambda>a b. ?key b \<le> ?key a) (take ?n ?all)"
    using sorted unfolding sorted_wrt_append by blast
  moreover have "length (take ?n ?all) =
      min ?n (length (filter (row_matches kind u since) db))"
    unfolding length_take length_order_desc by (rule min.commute)
  ultimately show ?thesis
    unfolding Let_def out by (intro conjI)
qed

text \<open>Pruning deletes exactly the rows that some kind with a non-zero retention finds older
  than its cut-off, by the device timestamp or, without one, by the time of arrival, keeps
  the others in order, and reports how many it deleted.\<close>

theorem prune_exact:
  "prune policy now db =
     (length (filter (expired_by policy now) db), filter (\<lambda>r. \<not> expired_by policy now r) db)"
  by (rule prune_filter)

end
