(* ===== verification/Filters.thy ===== *)
theory Filters
  imports EventStore
begin

text \<open>
  The notification filters, \<open>gateway/filters.py\<close>: reading \<open>[[filters]]\<close> tables, matching an
  event against a rule, and the decision whether to announce it. Shell patterns of
  \<open>fnmatchcase\<close> are defined here; the regular-expression engine is a parameter: \<open>search p s\<close>
  says whether the compiled pattern \<open>p\<close> is found in \<open>s\<close>, and \<open>bad p\<close> is the message of the
  compile error, if \<open>p\<close> has one. TOML values are the values of \<open>Json\<close>, \<open>JNull\<close> an absent key.
\<close>

section \<open>Shell patterns\<close>

datatype glob_token = GStar | GAny | GLit char | GClass bool string

text \<open>
  The text after an opening bracket: whether the class is negated, its members and the
  text after it; \<open>None\<close> when no bracket closes it.
\<close>

definition split_class :: "string \<Rightarrow> (bool \<times> string \<times> string) option" where
  "split_class s =
     (let neg = starts_with ''!'' s;
          body = (if neg then tl s else s);
          first = (if starts_with '']'' body then '']'' else []);
          more = (if starts_with '']'' body then tl body else body);
          members = first @ takeWhile (\<lambda>c. c \<noteq> CHR '']'') more;
          rest = dropWhile (\<lambda>c. c \<noteq> CHR '']'') more
      in if rest = [] then None else Some (neg, members, tl rest))"

lemma split_class_length:
  "split_class s = Some (neg, members, rest) \<Longrightarrow> length rest < Suc (length s)"
proof -
  assume a: "split_class s = Some (neg, members, rest)"
  define more where "more = (let body = (if starts_with ''!'' s then tl s else s)
    in if starts_with '']'' body then tl body else body)"
  have "length more \<le> length s" by (auto simp: more_def Let_def)
  moreover have "rest = tl (dropWhile (\<lambda>c. c \<noteq> CHR '']'') more)"
    using a by (auto simp: split_class_def more_def Let_def split: if_splits)
  moreover have "length (dropWhile (\<lambda>c. c \<noteq> CHR '']'') more) \<le> length more"
    by (rule length_dropWhile_le)
  ultimately show ?thesis by simp
qed

function glob_tokens :: "string \<Rightarrow> glob_token list" where
  "glob_tokens [] = []"
| "glob_tokens (c # cs) =
     (if c = CHR ''*'' then GStar # glob_tokens cs
      else if c = CHR ''?'' then GAny # glob_tokens cs
      else if c = CHR ''['' then
        (case split_class cs of
           None \<Rightarrow> GLit c # glob_tokens cs
         | Some (neg, members, rest) \<Rightarrow> GClass neg members # glob_tokens rest)
      else GLit c # glob_tokens cs)"
  by pat_completeness auto
termination
  by (relation "measure length") (auto dest: split_class_length)

fun class_mem :: "char \<Rightarrow> string \<Rightarrow> bool" where
  "class_mem c [] = False"
| "class_mem c [a] = (c = a)"
| "class_mem c [a, b] = (c = a \<or> c = b)"
| "class_mem c (a # b # d # rest) =
     (if b = CHR ''-'' then (code a \<le> code c \<and> code c \<le> code d) \<or> class_mem c rest
      else c = a \<or> class_mem c (b # d # rest))"

fun glob_match :: "glob_token list \<Rightarrow> string \<Rightarrow> bool" where
  "glob_match [] s = (s = [])"
| "glob_match (GStar # ts) [] = glob_match ts []"
| "glob_match (GStar # ts) (c # cs) = (glob_match ts (c # cs) \<or> glob_match (GStar # ts) cs)"
| "glob_match (GAny # ts) s = (case s of [] \<Rightarrow> False | c # cs \<Rightarrow> glob_match ts cs)"
| "glob_match (GLit a # ts) s = (case s of [] \<Rightarrow> False | c # cs \<Rightarrow> a = c \<and> glob_match ts cs)"
| "glob_match (GClass neg members # ts) s =
     (case s of [] \<Rightarrow> False | c # cs \<Rightarrow> (class_mem c members \<noteq> neg) \<and> glob_match ts cs)"

definition fnmatchcase :: "string \<Rightarrow> string \<Rightarrow> bool" where
  "fnmatchcase name pat = glob_match (glob_tokens pat) name"

lemma glob_star [simp]: "glob_match [GStar] s"
  by (induction s) auto

section \<open>Rules\<close>

datatype mode = Allow | Deny

record filter_rule =
  fr_name :: string
  fr_mode :: mode
  fr_unit :: "string list"
  fr_kind :: "string list"
  fr_sender :: "string list"
  fr_contains :: "string list"
  fr_matches :: "string list"
  fr_enabled :: bool

type_synonym toml = json

definition RULE_KEYS :: "string list" where
  "RULE_KEYS = [''name'', ''mode'', ''enabled'', ''unit'', ''kind'', ''sender'', ''contains'', ''matches'']"

definition filter_error :: "string \<Rightarrow> string \<Rightarrow> exn" where
  "filter_error rule_name message =
     FilterConfigError (''filter '' @ py_repr rule_name @ '': '' @ message)"

definition as_tuple :: "toml \<Rightarrow> string \<Rightarrow> string \<Rightarrow> string list result" where
  "as_tuple value rule_name key =
     (let bad = Inl (filter_error rule_name (key @ '' must be a string or a list of strings''))
      in case value of
           JNull \<Rightarrow> Inr []
         | JStr s \<Rightarrow> Inr [s]
         | JArr vs \<Rightarrow>
             if list_all (\<lambda>v. case v of JStr _ \<Rightarrow> True | _ \<Rightarrow> False) vs
             then Inr (map (\<lambda>v. case v of JStr s \<Rightarrow> s | _ \<Rightarrow> []) vs) else bad
         | _ \<Rightarrow> bad)"

definition read_mode :: "toml \<Rightarrow> string \<Rightarrow> mode result" where
  "read_mode value rule_name =
     (if value = JNull then Inr Deny
      else if value = JStr ''allow'' then Inr Allow
      else if value = JStr ''deny'' then Inr Deny
      else Inl (filter_error rule_name
        (''mode must be 'allow' or 'deny', not '' @ json_repr value)))"

definition lowered :: "string list \<Rightarrow> string set" where
  "lowered values = lower ` set values"

definition matches_sender :: "string option \<Rightarrow> string list \<Rightarrow> bool" where
  "matches_sender address patterns =
     (case address of
        None \<Rightarrow> False
      | Some a \<Rightarrow> list_ex (\<lambda>p. fnmatchcase (lower a) (lower p)) patterns)"

definition reads_body :: "filter_rule \<Rightarrow> bool" where
  "reads_body r \<longleftrightarrow> fr_contains r \<noteq> [] \<or> fr_matches r \<noteq> []"

definition matches_body :: "(string \<Rightarrow> string \<Rightarrow> bool) \<Rightarrow> filter_rule \<Rightarrow> string option \<Rightarrow> bool" where
  "matches_body search r body =
     (if \<not> reads_body r then True
      else (case body of
          None \<Rightarrow> False
        | Some b \<Rightarrow>
            if fr_contains r \<noteq> [] \<and>
               \<not> list_ex (\<lambda>needle. contains_sub (lower needle) (lower b)) (fr_contains r)
            then False
            else fr_matches r = [] \<or> list_ex (\<lambda>p. search p b) (fr_matches r)))"

definition matches_event :: "(string \<Rightarrow> string \<Rightarrow> bool) \<Rightarrow> filter_rule
     \<Rightarrow> (string option, 'n) event \<Rightarrow> bool" where
  "matches_event search r e =
     (if \<not> fr_enabled r then False
      else if fr_unit r \<noteq> [] \<and> lower (ev_unit e) \<notin> lowered (fr_unit r) then False
      else if fr_kind r \<noteq> [] \<and> lower (ev_kind e) \<notin> lowered (fr_kind r) then False
      else if fr_sender r \<noteq> [] \<and> \<not> matches_sender (ev_address e) (fr_sender r) then False
      else matches_body search r (ev_body e))"

definition describe :: "filter_rule \<Rightarrow> string" where
  "describe r = join ''  ''
     (map (\<lambda>(key, values). key @ ''='' @ join ''|'' values)
       (filter (\<lambda>(key, values). values \<noteq> [])
         [(''unit'', fr_unit r), (''kind'', fr_kind r), (''sender'', fr_sender r),
          (''contains'', fr_contains r), (''matches'', fr_matches r)]))"

section \<open>Reading the configuration\<close>

text \<open>The compiled patterns of a rule, or the error of the first one that does not compile.\<close>

definition compile_patterns :: "(string \<Rightarrow> string option) \<Rightarrow> string \<Rightarrow> string list \<Rightarrow> string list result" where
  "compile_patterns bad rule_name =
     rmap (\<lambda>p. case bad p of
         None \<Rightarrow> Inr p
       | Some m \<Rightarrow> Inl (filter_error rule_name (''matches is not a valid regex: '' @ m)))"

definition has_condition :: "filter_rule \<Rightarrow> bool" where
  "has_condition r \<longleftrightarrow> fr_unit r \<noteq> [] \<or> fr_kind r \<noteq> [] \<or> fr_sender r \<noteq> [] \<or>
     fr_contains r \<noteq> [] \<or> fr_matches r \<noteq> []"

definition rule_name :: "(string \<times> toml) list \<Rightarrow> int \<Rightarrow> string" where
  "rule_name data index =
     json_str (if json_truthy (obj_get ''name'' data) then obj_get ''name'' data
               else JStr (''filter-'' @ show_int index))"

definition rule_from_dict :: "(string \<Rightarrow> string option) \<Rightarrow> (string \<times> toml) list \<Rightarrow> int
     \<Rightarrow> filter_rule result" where
  "rule_from_dict bad data index =
     (let name = rule_name data index;
          unknown = filter (\<lambda>k. k \<notin> set RULE_KEYS) (map fst data)
      in if unknown \<noteq> []
         then Inl (filter_error name (''unknown key(s) '' @ join '', '' (sort unknown)))
         else rbind (as_tuple (obj_get ''matches'' data) name ''matches'') (\<lambda>raw.
              rbind (compile_patterns bad name raw) (\<lambda>patterns.
              rbind (read_mode (obj_get ''mode'' data) name) (\<lambda>m.
              rbind (as_tuple (obj_get ''unit'' data) name ''unit'') (\<lambda>u.
              rbind (as_tuple (obj_get ''kind'' data) name ''kind'') (\<lambda>k.
              rbind (as_tuple (obj_get ''sender'' data) name ''sender'') (\<lambda>s.
              rbind (as_tuple (obj_get ''contains'' data) name ''contains'') (\<lambda>c.
              let r = \<lparr>fr_name = name, fr_mode = m, fr_unit = u, fr_kind = k, fr_sender = s,
                       fr_contains = c, fr_matches = patterns,
                       fr_enabled = (case dict_get ''enabled'' data of
                           None \<Rightarrow> True | Some v \<Rightarrow> json_truthy v)\<rparr>
              in if has_condition r then Inr r
                 else Inl (filter_error name
                   (''has no conditions, so it would '' @
                    (if m = Allow then ''push every notification''
                     else ''suppress every notification'') @
                    ''; give it a sender, a kind, a unit or a body match''))))))))))"

fun enumerate_rules :: "(string \<Rightarrow> string option) \<Rightarrow> int \<Rightarrow> toml list \<Rightarrow> filter_rule list result" where
  "enumerate_rules bad index [] = Inr []"
| "enumerate_rules bad index (v # vs) =
     rbind (case v of JObj ms \<Rightarrow> rule_from_dict bad ms index
            | _ \<Rightarrow> Inl (FilterConfigError ''filters must be written as [[filters]] tables, one per rule''))
       (\<lambda>r. rbind (enumerate_rules bad (index + 1) vs) (\<lambda>rs. Inr (r # rs)))"

definition load_rules :: "(string \<Rightarrow> string option) \<Rightarrow> toml \<Rightarrow> filter_rule list result" where
  "load_rules bad entries =
     (let malformed = Inl (FilterConfigError
        ''filters must be written as [[filters]] tables, one per rule'')
      in if \<not> json_truthy entries then Inr []
         else case entries of
             JArr vs \<Rightarrow>
               if list_all (\<lambda>v. case v of JObj _ \<Rightarrow> True | _ \<Rightarrow> False) vs
               then enumerate_rules bad 1 vs else malformed
           | _ \<Rightarrow> malformed)"

section \<open>The decision\<close>

definition should_push :: "(string \<Rightarrow> string \<Rightarrow> bool) \<Rightarrow> (string option, 'n) event
     \<Rightarrow> filter_rule list \<Rightarrow> bool \<times> filter_rule option" where
  "should_push search e rules =
     (let active = filter fr_enabled rules
      in case List.find (\<lambda>r. fr_mode r = Deny \<and> matches_event search r e) active of
           Some r \<Rightarrow> (False, Some r)
         | None \<Rightarrow>
             (let applicable_allows =
                filter (\<lambda>r. fr_mode r = Allow \<and>
                  (fr_kind r = [] \<or> lower (ev_kind e) \<in> lowered (fr_kind r))) active
              in case List.find (\<lambda>r. matches_event search r e) applicable_allows of
                   Some r \<Rightarrow> (True, Some r)
                 | None \<Rightarrow>
                     (case applicable_allows of
                        r # _ \<Rightarrow> (False, Some r)
                      | [] \<Rightarrow> (True, None))))"

text \<open>An enabled allow rule that speaks about the kind of the event.\<close>

definition applicable :: "(string option, 'n) event \<Rightarrow> filter_rule \<Rightarrow> bool" where
  "applicable e r \<longleftrightarrow> fr_enabled r \<and> fr_mode r = Allow \<and>
     (fr_kind r = [] \<or> lower (ev_kind e) \<in> lowered (fr_kind r))"

definition denies :: "(string \<Rightarrow> string \<Rightarrow> bool) \<Rightarrow> (string option, 'n) event \<Rightarrow> filter_rule \<Rightarrow> bool" where
  "denies search e r \<longleftrightarrow> fr_mode r = Deny \<and> matches_event search r e"

definition allows :: "(string \<Rightarrow> string \<Rightarrow> bool) \<Rightarrow> (string option, 'n) event \<Rightarrow> filter_rule \<Rightarrow> bool" where
  "allows search e r \<longleftrightarrow> fr_mode r = Allow \<and> matches_event search r e"

lemma matches_enabled: "matches_event search r e \<Longrightarrow> fr_enabled r"
  by (auto simp: matches_event_def split: if_splits)

lemma matches_kind:
  "matches_event search r e \<Longrightarrow> fr_kind r = [] \<or> lower (ev_kind e) \<in> lowered (fr_kind r)"
  by (auto simp: matches_event_def split: if_splits)

lemma allows_applicable: "allows search e r \<Longrightarrow> applicable e r"
  by (auto simp: allows_def applicable_def matches_enabled dest: matches_kind)

lemma filter_hd_find: "(case filter p xs of [] \<Rightarrow> None | x # _ \<Rightarrow> Some x) = List.find p xs"
  by (induction xs) auto

lemma should_push_find:
  "should_push search e rules =
     (case List.find (denies search e) rules of
        Some r \<Rightarrow> (False, Some r)
      | None \<Rightarrow>
          (case List.find (allows search e) rules of
             Some r \<Rightarrow> (True, Some r)
           | None \<Rightarrow>
               (case List.find (applicable e) rules of
                  Some r \<Rightarrow> (False, Some r)
                | None \<Rightarrow> (True, None))))"
proof -
  have deny: "List.find (\<lambda>r. fr_mode r = Deny \<and> matches_event search r e) (filter fr_enabled rules) =
      List.find (denies search e) rules"
    unfolding find_filter by (rule find_cong_set) (auto simp: denies_def matches_enabled)
  have app: "filter (\<lambda>r. fr_mode r = Allow \<and>
      (fr_kind r = [] \<or> lower (ev_kind e) \<in> lowered (fr_kind r))) (filter fr_enabled rules) =
      filter (applicable e) rules"
    by (auto simp: applicable_def intro: filter_cong)
  have allow: "List.find (\<lambda>r. matches_event search r e) (filter (applicable e) rules) =
      List.find (allows search e) rules"
    unfolding find_filter
    by (rule find_cong_set) (auto simp: allows_def applicable_def matches_enabled dest: matches_kind)
  have hd: "(case filter (applicable e) rules of r # _ \<Rightarrow> (False, Some r) | [] \<Rightarrow> (True, None)) =
      (case List.find (applicable e) rules of Some r \<Rightarrow> (False, Some r) | None \<Rightarrow> (True, None))"
    unfolding filter_hd_find [symmetric] by (simp split: list.split)
  show ?thesis
    unfolding should_push_def Let_def deny app allow hd by (rule refl)
qed

lemma should_push_iff:
  "fst (should_push search e rules) \<longleftrightarrow>
     list_all (\<lambda>r. \<not> denies search e r) rules \<and>
     (list_ex (allows search e) rules \<or> list_all (\<lambda>r. \<not> applicable e r) rules)"
  unfolding should_push_find
  by (auto simp: find_None_iff list_all_iff list_ex_iff dest: find_SomeD split: option.splits)

lemma as_tuple_absent [simp]: "as_tuple JNull n k = Inr []"
  by (simp add: as_tuple_def)

lemma rule_from_dict_sound:
  "rule_from_dict bad data index = Inr r \<Longrightarrow>
     has_condition r \<and> set (map fst data) \<subseteq> set RULE_KEYS \<and> list_all (\<lambda>p. bad p = None) (fr_matches r)"
proof -
  assume a: "rule_from_dict bad data index = Inr r"
  have keys: "filter (\<lambda>k. k \<notin> set RULE_KEYS) (map fst data) = []"
    using a by (auto simp: rule_from_dict_def Let_def split: if_splits)
  then have sub: "set (map fst data) \<subseteq> set RULE_KEYS"
    by (auto simp: filter_empty_conv)
  from a keys obtain raw patterns where p: "compile_patterns bad (rule_name data index) raw = Inr patterns"
    "fr_matches r = patterns" "has_condition r"
    by (auto simp: rule_from_dict_def Let_def rbind_eq_Inr split: if_splits)
  have "bad q = None" if "q \<in> set patterns" for q
    using rmap_Inr_mem [OF p(1) [unfolded compile_patterns_def] that]
    by (auto split: option.splits)
  with p sub show ?thesis by (auto simp: list_all_iff)
qed

lemma enumerate_rules_sound:
  "enumerate_rules bad index vs = Inr rs \<Longrightarrow>
     length rs = length vs \<and>
     list_all (\<lambda>r. has_condition r \<and> list_all (\<lambda>p. bad p = None) (fr_matches r)) rs"
proof (induction vs arbitrary: index rs)
  case Nil
  then show ?case by simp
next
  case (Cons v vs)
  then obtain r rs1 ms where "v = JObj ms" "rule_from_dict bad ms index = Inr r"
    "enumerate_rules bad (index + 1) vs = Inr rs1" "rs = r # rs1"
    by (auto simp: rbind_eq_Inr split: json.splits)
  with Cons.IH rule_from_dict_sound show ?case by fastforce
qed

section \<open>Properties\<close>

text \<open>C25. An event is announced exactly when no enabled deny rule matches it and, if an enabled
  allow rule speaks about its kind, some enabled allow rule matches it.\<close>

theorem should_push_verdict:
  "fst (should_push search e rules) \<longleftrightarrow>
     \<not> list_ex (denies search e) rules \<and>
     (list_ex (allows search e) rules \<or> \<not> list_ex (applicable e) rules)"
  by (auto simp: should_push_iff list_all_iff list_ex_iff)

text \<open>The rule reported with a decision is one of the configured rules, it is enabled, and it
  is a deny rule that matches, or an allow rule; without one the event is announced.\<close>

theorem should_push_reason:
  "(case should_push search e rules of
      (notify, Some r) \<Rightarrow> r \<in> set rules \<and> fr_enabled r \<and>
        (if notify then allows search e r else denies search e r \<or> applicable e r)
    | (notify, None) \<Rightarrow> notify)"
  unfolding should_push_find
  by (auto simp: denies_def allows_def applicable_def matches_enabled
      dest!: find_SomeD split: option.splits)

text \<open>Inserting a deny rule anywhere in the list never causes an event to be announced that
  was not announced without it.\<close>

theorem deny_only_narrows:
  assumes "fr_mode d = Deny" and "fst (should_push search e (rs @ d # rs'))"
  shows "fst (should_push search e (rs @ rs'))"
  using assms by (auto simp: should_push_iff allows_def applicable_def)

definition sample_rule :: filter_rule where
  "sample_rule = \<lparr>fr_name = ''links'', fr_mode = Deny, fr_unit = [], fr_kind = [''sms''],
     fr_sender = [''bee*''], fr_contains = [''https:''], fr_matches = [], fr_enabled = True\<rparr>"

definition sample_message :: "string option \<Rightarrow> (string option, int option) event" where
  "sample_message body = \<lparr>ev_unit = ''lisa01'', ev_kind = ''sms'', ev_source_id = 1,
     ev_address = Some ''BeeLine'', ev_body = body, ev_timestamp = None,
     ev_direction = None, ev_duration = None, ev_raw = None\<rparr>"

lemma should_push_verdict_witness:
  "fst (should_push (\<lambda>p s. False) (sample_message None) [sample_rule])"
  unfolding should_push_verdict by code_simp

lemma deny_only_narrows_witness:
  "fst (should_push (\<lambda>p s. False) (sample_message None) ([] @ []))"
  by (rule deny_only_narrows [of sample_rule])
    (code_simp, code_simp)

text \<open>A message whose text was not relayed is never silenced by a rule that reads the text.\<close>

theorem unread_body_not_denied:
  assumes "ev_body e = None" and "reads_body r"
  shows "\<not> denies search e r"
  using assms by (auto simp: denies_def matches_event_def matches_body_def)

lemma unread_body_not_denied_witness:
  "\<not> denies (\<lambda>p s. False) (sample_message None) sample_rule"
  by (rule unread_body_not_denied) (code_simp, code_simp)

text \<open>C26. Loading the filters yields one rule per table, and every rule loaded has a condition
  and compiled patterns only.\<close>

theorem load_rules_sound:
  assumes "load_rules bad (JArr vs) = Inr rs"
  shows "length rs = length vs \<and>
     list_all (\<lambda>r. has_condition r \<and> list_all (\<lambda>p. bad p = None) (fr_matches r)) rs"
  using assms enumerate_rules_sound [of bad 1 vs rs]
  by (auto simp: load_rules_def Let_def json_truthy_def split: if_splits)

lemma load_rules_sound_witness:
  "list_all has_condition
     (case load_rules (\<lambda>p. None) (JArr [JObj [(''sender'', JStr ''beeline'')]]) of
        Inr rs \<Rightarrow> rs | Inl e \<Rightarrow> [])"
proof -
  have "load_rules (\<lambda>p. None) (JArr [JObj [(''sender'', JStr ''beeline'')]]) =
      Inr [\<lparr>fr_name = ''filter-1'', fr_mode = Deny, fr_unit = [], fr_kind = [],
            fr_sender = [''beeline''], fr_contains = [], fr_matches = [], fr_enabled = True\<rparr>]"
    by code_simp
  from load_rules_sound [OF this] this show ?thesis by simp
qed

end
