(* ===== verification/Config.thy ===== *)
theory Config
  imports Filters
begin

text \<open>
  The gateway's configuration, \<open>gateway/config.py\<close>. The environment is a function from names
  to values, the decoded TOML file a document of the type in \<open>Json\<close> (dates do not occur in
  it). \<open>bad\<close> is the regular-expression compiler of \<open>Filters\<close>. Text settings that the file
  gives as something else than text are not followed.
\<close>

type_synonym environ = "string \<Rightarrow> string option"

section \<open>Addresses\<close>

text \<open>\<open>IPv4Address\<close>: four decimal octets without leading zeros.\<close>

definition read_octet :: "string \<Rightarrow> nat option" where
  "read_octet t =
     (if t = [] \<or> 3 < length t \<or> \<not> list_all is_digit t then None
      else if t \<noteq> ''0'' \<and> hd t = CHR ''0'' then None
      else (let v = foldl (\<lambda>a c. 10 * a + (code c - 48)) 0 t in if v \<le> 255 then Some v else None))"

definition read_ipv4 :: "string \<Rightarrow> nat list option" where
  "read_ipv4 s =
     (let parts = split_on (CHR ''.'') s
      in if length parts = 4 then all_some (map read_octet parts) else None)"

text \<open>\<open>IPv6Address\<close>: the eight groups, after the scope behind a percent sign is cut off.\<close>

definition hex_value :: "char \<Rightarrow> nat option" where
  "hex_value c =
     (if is_digit c then Some (code c - 48)
      else if 97 \<le> code c \<and> code c \<le> 102 then Some (code c - 87)
      else if 65 \<le> code c \<and> code c \<le> 70 then Some (code c - 55) else None)"

definition read_hextet :: "string \<Rightarrow> nat option" where
  "read_hextet t =
     (if t = [] \<or> 4 < length t then None
      else map_option (foldl (\<lambda>a d. 16 * a + d) 0) (all_some (map hex_value t)))"

definition cut_scope :: "string \<Rightarrow> string option" where
  "cut_scope s =
     (case split_on (CHR ''%'') s of
        [a] \<Rightarrow> Some a
      | [a, scope] \<Rightarrow> if scope = [] then None else Some a
      | _ \<Rightarrow> None)"

text \<open>A dotted last part stands for two groups.\<close>

definition colon_parts :: "string \<Rightarrow> nat option list option" where
  "colon_parts s =
     (let parts = split_on (CHR '':'') s
      in if length parts < 3 then None
         else if CHR ''.'' \<in> set (last parts)
         then (case read_ipv4 (last parts) of
             Some [a, b, c, d] \<Rightarrow>
               Some (map read_hextet (butlast parts) @ [Some (256 * a + b), Some (256 * c + d)])
           | _ \<Rightarrow> None)
         else Some (map read_hextet parts))"

definition empty_parts :: "string \<Rightarrow> bool list" where
  "empty_parts s =
     (let parts = split_on (CHR '':'') s
      in map (\<lambda>p. p = []) parts @ (if CHR ''.'' \<in> set (last parts) then [False] else []))"

definition read_ipv6 :: "string \<Rightarrow> nat list option" where
  "read_ipv6 text =
     (case cut_scope text of None \<Rightarrow> None | Some s \<Rightarrow>
      (case colon_parts s of None \<Rightarrow> None | Some parts \<Rightarrow>
        let n = length parts; gaps = empty_parts s;
            inner = filter (\<lambda>i. gaps ! i) [1..<n - 1]
        in if 9 < n then None
           else (case inner of
             [] \<Rightarrow> if n \<noteq> 8 then None else all_some parts
           | [k] \<Rightarrow>
               let hi = (if gaps ! 0 then k - 1 else k);
                   lo = (if gaps ! (n - 1) then n - k - 2 else n - k - 1)
               in if (gaps ! 0 \<and> hi \<noteq> 0) \<or> (gaps ! (n - 1) \<and> lo \<noteq> 0) \<or> 8 \<le> hi + lo then None
                  else (case (all_some (take hi parts), all_some (drop (n - lo) parts)) of
                      (Some a, Some b) \<Rightarrow> Some (a @ replicate (8 - (hi + lo)) 0 @ b)
                    | _ \<Rightarrow> None)
           | _ \<Rightarrow> None)))"

text \<open>\<open>ip_address(host).is_loopback\<close>: 127.0.0.0/8, ::1, or either as a mapped address.\<close>

definition v4_loopback :: "nat list \<Rightarrow> bool" where
  "v4_loopback octets \<longleftrightarrow> octets \<noteq> [] \<and> hd octets = 127"

definition v6_loopback :: "nat list \<Rightarrow> bool" where
  "v6_loopback gs \<longleftrightarrow> gs = [0, 0, 0, 0, 0, 0, 0, 1] \<or>
     (take 6 gs = [0, 0, 0, 0, 0, 65535] \<and> length gs = 8 \<and> gs ! 6 div 256 = 127)"

definition is_loopback :: "string \<Rightarrow> bool" where
  "is_loopback host =
     (if host = ''localhost'' then True
      else (case read_ipv4 host of
          Some octets \<Rightarrow> v4_loopback octets
        | None \<Rightarrow> (case read_ipv6 host of Some gs \<Rightarrow> v6_loopback gs | None \<Rightarrow> False)))"

section \<open>Settings\<close>

definition DEFAULT_CONFIG_PATH :: string where
  "DEFAULT_CONFIG_PATH = ''~/.config/rackphone/gateway.toml''"
definition DEFAULT_POLL_SECONDS :: json where "DEFAULT_POLL_SECONDS = JFloat ''5.0''"
definition DEFAULT_API_HOST :: string where "DEFAULT_API_HOST = ''127.0.0.1''"
definition DEFAULT_API_PORT :: int where "DEFAULT_API_PORT = 9106"
definition DEFAULT_ACCESS_TTL_SECONDS :: int where "DEFAULT_ACCESS_TTL_SECONDS = 900"
definition DEFAULT_REFRESH_TTL_SECONDS :: int where "DEFAULT_REFRESH_TTL_SECONDS = 2592000"
definition DEFAULT_TRUSTED_PROXIES :: "string list" where
  "DEFAULT_TRUSTED_PROXIES = [''127.0.0.1'', ''::1'']"
definition DEFAULT_RETENTION :: "(string, json) dict" where
  "DEFAULT_RETENTION = [(''sms'', JInt 0), (''call'', JInt 0), (''notification'', JInt 30)]"
definition VALID_CAPABILITIES :: "string list" where
  "VALID_CAPABILITIES = [''sms'', ''notifications'', ''screen'', ''files'', ''calls'']"

record admin_config =
  ad_username :: string
  ad_password_hash :: string

record gateway_config =
  gc_poll_seconds :: json
  gc_api_host :: string
  gc_api_port :: int
  gc_api_token :: string
  gc_trusted_proxies :: "string list"
  gc_access_ttl :: int
  gc_refresh_ttl :: int
  gc_database_path :: string
  gc_admin :: admin_config
  gc_retention :: "(string, int) dict"
  gc_unit_capabilities :: "(string, string list) dict"
  gc_filters :: "filter_rule list"

definition is_configured :: "admin_config \<Rightarrow> bool" where
  "is_configured a \<longleftrightarrow> ad_username a \<noteq> [] \<and> ad_password_hash a \<noteq> []"

definition get_config_path :: "environ \<Rightarrow> string" where
  "get_config_path env =
     (case env ''RACKPHONE_GATEWAY_CONFIG'' of Some p \<Rightarrow> p | None \<Rightarrow> DEFAULT_CONFIG_PATH)"

definition mask_secret :: "string \<Rightarrow> string" where
  "mask_secret v = (if v \<noteq> [] then ''set ('' @ show_nat (length v) @ '' chars)'' else ''unset'')"

section \<open>Loading\<close>

text \<open>\<open>section.get(key, default)\<close>, and the same under an environment variable.\<close>

definition table_get :: "string \<Rightarrow> json \<Rightarrow> json \<Rightarrow> json result" where
  "table_get k d t =
     (case t of JObj ms \<Rightarrow> Inr (case dict_get k ms of Some v \<Rightarrow> v | None \<Rightarrow> d)
      | _ \<Rightarrow> Inl (AttributeError ''get''))"

definition setting :: "environ \<Rightarrow> string \<Rightarrow> json \<Rightarrow> string \<Rightarrow> json \<Rightarrow> json result" where
  "setting env var t k d =
     rbind (table_get k d t) (\<lambda>v. Inr (case env var of Some s \<Rightarrow> JStr s | None \<Rightarrow> v))"

definition as_text :: "json \<Rightarrow> string result" where
  "as_text v = (case v of JStr s \<Rightarrow> Inr s | _ \<Rightarrow> Inl (Unmodelled ''a setting that is not text''))"

definition text_setting :: "environ \<Rightarrow> string \<Rightarrow> json \<Rightarrow> string \<Rightarrow> string \<Rightarrow> string result" where
  "text_setting env var t k d = rbind (setting env var t k (JStr d)) as_text"

definition int_setting :: "environ \<Rightarrow> string \<Rightarrow> json \<Rightarrow> string \<Rightarrow> int \<Rightarrow> int result" where
  "int_setting env var t k d = rbind (setting env var t k (JInt d)) json_int"

text \<open>Text \<open>float()\<close> accepts: an optional sign, then a special name or a decimal number.\<close>

definition decimal_float :: "string \<Rightarrow> bool" where
  "decimal_float s =
     (let whole = takeWhile is_digit s; r = drop (length whole) s;
          frac = (if starts_with ''.'' r then takeWhile is_digit (tl r) else []);
          r2 = (if starts_with ''.'' r then drop (length frac) (tl r) else r)
      in (whole \<noteq> [] \<or> frac \<noteq> []) \<and>
         (case r2 of [] \<Rightarrow> True
          | e # ds \<Rightarrow> e = CHR ''e'' \<and>
              (let m = (case ds of c # cs \<Rightarrow> if c = CHR ''+'' \<or> c = CHR ''-'' then cs else ds | [] \<Rightarrow> ds)
               in m \<noteq> [] \<and> list_all is_digit m)))"

definition float_text :: "string \<Rightarrow> bool" where
  "float_text text =
     (let s = lower (strip text);
          u = (case s of c # cs \<Rightarrow> if c = CHR ''+'' \<or> c = CHR ''-'' then cs else s | [] \<Rightarrow> s)
      in u \<in> {''inf'', ''infinity'', ''nan''} \<or> decimal_float u)"

definition json_float :: "json \<Rightarrow> json result" where
  "json_float v =
     (case v of
        JInt n \<Rightarrow> Inr v | JFloat f \<Rightarrow> Inr v | JBool b \<Rightarrow> Inr (JInt (if b then 1 else 0))
      | JStr s \<Rightarrow> if float_text s then Inr (JFloat (strip s))
                  else Inl (ValueError ''could not convert string to float'')
      | _ \<Rightarrow> Inl (TypeError ''float() argument must be a string or a real number''))"

text \<open>\<open>list(v)\<close> and \<open>frozenset(v)\<close> of a TOML value whose items must be text.\<close>

definition text_items :: "json \<Rightarrow> string list result" where
  "text_items v =
     (case v of
        JArr vs \<Rightarrow> rmap as_text vs
      | JStr s \<Rightarrow> Inr (map (\<lambda>c. [c]) s)
      | JObj ms \<Rightarrow> Inr (map fst ms)
      | _ \<Rightarrow> Inl (TypeError ''object is not iterable''))"

definition load_proxies :: "environ \<Rightarrow> json \<Rightarrow> string list result" where
  "load_proxies env gateway =
     (case env ''RACKPHONE_TRUSTED_PROXIES'' of
        Some v \<Rightarrow> Inr (filter (\<lambda>a. a \<noteq> []) (map strip (split_on (CHR '','') v)))
      | None \<Rightarrow> rbind (table_get ''trusted_proxies'' (JArr (map JStr DEFAULT_TRUSTED_PROXIES)) gateway)
          text_items)"

definition days_error :: "string \<Rightarrow> json \<Rightarrow> exn" where
  "days_error kind days = GatewayConfigError (''retention for '' @ py_repr kind @
     '' must be a whole number of days, not '' @ json_repr days @ ''; refusing to start'')"

definition check_days :: "string \<times> json \<Rightarrow> (string \<times> int) result" where
  "check_days kv =
     (case snd kv of
        JInt n \<Rightarrow> if n < 0 then Inl (days_error (fst kv) (snd kv)) else Inr (fst kv, n)
      | _ \<Rightarrow> Inl (days_error (fst kv) (snd kv)))"

text \<open>\<open>DEFAULT_RETENTION | table\<close>: the keys of the table overwrite the defaults in place.\<close>

definition load_retention :: "json \<Rightarrow> (string, int) dict result" where
  "load_retention table =
     (case table of
        JObj ms \<Rightarrow> rmap check_days (fold (\<lambda>(k, v) d. dict_set k v d) ms DEFAULT_RETENTION)
      | _ \<Rightarrow> Inl (TypeError ''unsupported operand type(s) for |''))"

fun load_units :: "(string \<times> json) list \<Rightarrow> (string, string list) dict \<Rightarrow> (string, string list) dict result" where
  "load_units [] d = Inr d"
| "load_units ((u, t) # rest) d =
     rbind (json_in ''capabilities'' t) (\<lambda>present.
       if \<not> present then load_units rest d
       else rbind (json_index ''capabilities'' t) (\<lambda>v.
         rbind (text_items v) (\<lambda>caps.
           case sort (filter (\<lambda>c. c \<notin> set VALID_CAPABILITIES) caps) of
             [] \<Rightarrow> load_units rest (dict_set u caps d)
           | c # cs \<Rightarrow> Inl (GatewayConfigError (''unknown capability '' @ py_repr c @ '' for unit '' @
               py_repr u @ ''; refusing to start'')))))"

definition load_unit_section :: "json \<Rightarrow> (string, string list) dict result" where
  "load_unit_section v =
     (case v of JObj ms \<Rightarrow> load_units ms [] | _ \<Rightarrow> Inl (AttributeError ''items''))"

definition admin_from_dict :: "environ \<Rightarrow> json \<Rightarrow> admin_config result" where
  "admin_from_dict env t =
     rbind (text_setting env ''RACKPHONE_ADMIN_USERNAME'' t ''username'' []) (\<lambda>u.
     rbind (text_setting env ''RACKPHONE_ADMIN_PASSWORD_HASH'' t ''password_hash'' []) (\<lambda>h.
     Inr \<lparr>ad_username = u, ad_password_hash = h\<rparr>))"

definition ttl_error :: "string \<Rightarrow> int \<Rightarrow> exn" where
  "ttl_error name seconds = GatewayConfigError (name @ '' must be positive, not '' @
     show_int seconds @ ''; refusing to start'')"

definition check_config :: "gateway_config \<Rightarrow> gateway_config result" where
  "check_config c =
     (if gc_access_ttl c \<le> 0 then Inl (ttl_error ''access_ttl_seconds'' (gc_access_ttl c))
      else if gc_refresh_ttl c \<le> 0 then Inl (ttl_error ''refresh_ttl_seconds'' (gc_refresh_ttl c))
      else if \<not> is_loopback (gc_api_host c) \<and> \<not> is_configured (gc_admin c)
      then Inl (GatewayConfigError (''set both admin username and password_hash before binding '' @
        ''the API beyond loopback; refusing to start''))
      else Inr c)"

text \<open>\<open>data.get(section, {})\<close> of the file; a missing file is an empty table.\<close>

definition section_of :: "string \<Rightarrow> (string \<times> json) list \<Rightarrow> json" where
  "section_of k data = (case dict_get k data of Some v \<Rightarrow> v | None \<Rightarrow> JObj [])"

definition load_config :: "(string \<Rightarrow> string option) \<Rightarrow> environ \<Rightarrow> (string \<times> json) list option
     \<Rightarrow> gateway_config result" where
  "load_config bad env file =
     (let data = (case file of Some ms \<Rightarrow> ms | None \<Rightarrow> []);
          gateway = section_of ''gateway'' data
      in rbind (load_proxies env gateway) (\<lambda>proxies.
         rbind (load_retention (section_of ''retention'' data)) (\<lambda>retention.
         rbind (load_unit_section (section_of ''units'' data)) (\<lambda>caps.
         rbind (rbind (setting env ''RACKPHONE_POLL_SECONDS'' gateway ''poll_seconds'' DEFAULT_POLL_SECONDS)
           json_float) (\<lambda>poll.
         rbind (text_setting env ''RACKPHONE_API_HOST'' gateway ''api_host'' DEFAULT_API_HOST) (\<lambda>host.
         rbind (int_setting env ''RACKPHONE_API_PORT'' gateway ''api_port'' DEFAULT_API_PORT) (\<lambda>port.
         rbind (text_setting env ''RACKPHONE_API_TOKEN'' gateway ''api_token'' []) (\<lambda>token.
         rbind (int_setting env ''RACKPHONE_ACCESS_TTL'' gateway ''access_ttl_seconds''
           DEFAULT_ACCESS_TTL_SECONDS) (\<lambda>access_ttl.
         rbind (int_setting env ''RACKPHONE_REFRESH_TTL'' gateway ''refresh_ttl_seconds''
           DEFAULT_REFRESH_TTL_SECONDS) (\<lambda>refresh_ttl.
         rbind (text_setting env ''RACKPHONE_DB_PATH'' gateway ''db_path'' []) (\<lambda>db.
         rbind (admin_from_dict env (section_of ''admin'' data)) (\<lambda>admin.
         rbind (load_rules bad (obj_get ''filters'' data)) (\<lambda>rules.
         check_config \<lparr>gc_poll_seconds = poll, gc_api_host = host, gc_api_port = port,
           gc_api_token = token, gc_trusted_proxies = proxies, gc_access_ttl = access_ttl,
           gc_refresh_ttl = refresh_ttl, gc_database_path = db, gc_admin = admin,
           gc_retention = retention, gc_unit_capabilities = caps,
           gc_filters = rules\<rparr>)))))))))))))"

section \<open>Reading the configuration\<close>

definition retention_days :: "gateway_config \<Rightarrow> string \<Rightarrow> int" where
  "retention_days c kind = (case dict_get kind (gc_retention c) of Some n \<Rightarrow> n | None \<Rightarrow> 0)"

definition capabilities_for :: "gateway_config \<Rightarrow> string \<Rightarrow> string set" where
  "capabilities_for c u =
     set (case dict_get u (gc_unit_capabilities c) of Some caps \<Rightarrow> caps | None \<Rightarrow> VALID_CAPABILITIES)"

definition describe_filters :: "gateway_config \<Rightarrow> string" where
  "describe_filters c =
     (let count = (\<lambda>p. show_nat (length (filter p (gc_filters c))))
      in if gc_filters c = [] then ''none''
         else count (\<lambda>r. fr_mode r = Allow) @ '' allow, '' @ count (\<lambda>r. fr_mode r = Deny) @ '' deny, '' @
           count (\<lambda>r. \<not> fr_enabled r) @ '' off'')"

definition or_else :: "string \<Rightarrow> string \<Rightarrow> string" where
  "or_else s d = (if s = [] then d else s)"

definition as_redacted_dict :: "environ \<Rightarrow> gateway_config \<Rightarrow> (string, string) dict" where
  "as_redacted_dict env c =
     [(''config'', get_config_path env),
      (''api'', gc_api_host c @ '':'' @ show_int (gc_api_port c)),
      (''api_token'', mask_secret (gc_api_token c)),
      (''trusted_proxies'', or_else (join '', '' (gc_trusted_proxies c)) ''none''),
      (''admin_username'', or_else (ad_username (gc_admin c)) ''unset''),
      (''admin_password_hash'', mask_secret (ad_password_hash (gc_admin c))),
      (''retention'', join '', '' (map (\<lambda>(kind, days). kind @ ''='' @
          (if days = 0 then ''forever'' else show_int days @ '' days'')) (gc_retention c))),
      (''units_with_capabilities'', show_nat (length (gc_unit_capabilities c))),
      (''filters'', describe_filters c)]"

section \<open>Lemmas\<close>

lemma check_config_Inr:
  "check_config c = Inr d \<Longrightarrow> d = c \<and> 0 < gc_access_ttl c \<and> 0 < gc_refresh_ttl c \<and>
     (is_loopback (gc_api_host c) \<or> is_configured (gc_admin c))"
  by (auto simp: check_config_def split: if_splits)

lemma check_days_Inr: "check_days kv = Inr (k, n) \<Longrightarrow> 0 \<le> n"
  by (auto simp: check_days_def split: json.splits if_splits)

lemma load_retention_nonneg: "load_retention t = Inr d \<Longrightarrow> list_all (\<lambda>(k, n). 0 \<le> n) d"
  by (auto simp: load_retention_def list_all_iff split: json.splits
      dest!: rmap_Inr_mem dest: check_days_Inr)

definition known_capabilities :: "string \<times> string list \<Rightarrow> bool" where
  "known_capabilities kv \<longleftrightarrow> set (snd kv) \<subseteq> set VALID_CAPABILITIES"

lemma dict_set_mem: "kv \<in> set (dict_set k v d) \<Longrightarrow> kv \<in> set d \<or> kv = (k, v)"
  unfolding dict_set_def by (induction d) (auto split: if_splits)

lemma load_units_known:
  "load_units ms d = Inr d' \<Longrightarrow> list_all known_capabilities d \<Longrightarrow> list_all known_capabilities d'"
proof (induction ms d rule: load_units.induct)
  case (1 d)
  then show ?case by simp
next
  case (2 u t rest d)
  from 2(3) obtain present where p: "json_in ''capabilities'' t = Inr present"
    by (auto simp: rbind_eq_Inr)
  show ?case
  proof (cases present)
    case False
    with 2(3) p have "load_units rest d = Inr d'" by simp
    with 2(1) p False 2(4) show ?thesis by blast
  next
    case True
    from 2(3) p True obtain v caps where v: "json_index ''capabilities'' t = Inr v"
        "text_items v = Inr caps" by (auto simp: rbind_eq_Inr)
    have empty: "sort (filter (\<lambda>c. c \<notin> set VALID_CAPABILITIES) caps) = []"
      using 2(3) p True v by (auto split: list.splits)
    then have "filter (\<lambda>c. c \<notin> set VALID_CAPABILITIES) caps = []"
      by (metis length_0_conv length_sort)
    then have "set caps \<subseteq> set VALID_CAPABILITIES" by (auto simp: filter_empty_conv)
    then have "list_all known_capabilities (dict_set u caps d)"
      using 2(4) dict_set_mem by (fastforce simp: list_all_iff known_capabilities_def)
    moreover have "load_units rest (dict_set u caps d) = Inr d'"
      using 2(3) p True v empty by simp
    ultimately show ?thesis using 2(2) p True v empty by blast
  qed
qed

lemma load_unit_section_known: "load_unit_section v = Inr d \<Longrightarrow> list_all known_capabilities d"
  by (auto simp: load_unit_section_def split: json.splits intro: load_units_known)

section \<open>Properties\<close>

text \<open>
  C27. A configuration that loads never exposes the API beyond loopback without both
  administrator credentials; its token lifetimes are positive, its retention periods are not
  negative, and it grants only capabilities that exist, whatever the file and the environment
  hold.
\<close>

theorem loaded_config_safe:
  assumes "load_config bad env file = Inr c"
  shows "(is_loopback (gc_api_host c) \<or> is_configured (gc_admin c)) \<and>
    0 < gc_access_ttl c \<and> 0 < gc_refresh_ttl c \<and>
    list_all (\<lambda>(kind, days). 0 \<le> days) (gc_retention c) \<and>
    list_all (\<lambda>(u, caps). set caps \<subseteq> set VALID_CAPABILITIES) (gc_unit_capabilities c)"
proof -
  from assms obtain g r t u where
    r: "load_retention t = Inr r" and u: "load_unit_section u = Inr g" and
    c: "check_config c = Inr c" "gc_retention c = r" "gc_unit_capabilities c = g"
    unfolding load_config_def Let_def rbind_eq_Inr
    by (elim exE conjE) (frule check_config_Inr, auto)
  show ?thesis
    using check_config_Inr [OF c(1)] load_retention_nonneg [OF r] load_unit_section_known [OF u] c
    by (auto simp: known_capabilities_def case_prod_unfold list_all_iff)
qed

definition sample_env :: environ where
  "sample_env = (\<lambda>x. if x = ''RACKPHONE_API_HOST'' then Some ''10.0.0.5''
     else if x = ''RACKPHONE_ADMIN_USERNAME'' then Some ''admin''
     else if x = ''RACKPHONE_ADMIN_PASSWORD_HASH'' then Some ''scrypt$'' else None)"

definition sample_file :: "(string \<times> json) list" where
  "sample_file = [(''units'', JObj [(''lisa01'', JObj [(''capabilities'', JArr [JStr ''sms''])])])]"

definition sample_config :: gateway_config where
  "sample_config = \<lparr>gc_poll_seconds = JFloat ''5.0'', gc_api_host = ''10.0.0.5'', gc_api_port = 9106,
     gc_api_token = [], gc_trusted_proxies = [''127.0.0.1'', ''::1''], gc_access_ttl = 900,
     gc_refresh_ttl = 2592000, gc_database_path = [],
     gc_admin = \<lparr>ad_username = ''admin'', ad_password_hash = ''scrypt$''\<rparr>,
     gc_retention = [(''sms'', 0), (''call'', 0), (''notification'', 30)],
     gc_unit_capabilities = [(''lisa01'', [''sms''])], gc_filters = []\<rparr>"

lemma sample_loads: "load_config (\<lambda>p. None) sample_env (Some sample_file) = Inr sample_config"
  by (simp add: load_config_def sample_env_def sample_file_def sample_config_def section_of_def
      load_proxies_def table_get_def text_items_def DEFAULT_TRUSTED_PROXIES_def as_text_def
      load_retention_def DEFAULT_RETENTION_def check_days_def load_unit_section_def json_in_def
      json_index_def VALID_CAPABILITIES_def setting_def DEFAULT_POLL_SECONDS_def json_float_def
      text_setting_def DEFAULT_API_HOST_def int_setting_def DEFAULT_API_PORT_def json_int_def
      DEFAULT_ACCESS_TTL_SECONDS_def DEFAULT_REFRESH_TTL_SECONDS_def admin_from_dict_def
      obj_get_def load_rules_def json_truthy_def check_config_def is_configured_def Let_def
      dict_set_def)

theorem loaded_config_safe_witness:
  "is_loopback (gc_api_host sample_config) \<or> is_configured (gc_admin sample_config)"
  using loaded_config_safe [OF sample_loads] by blast

text \<open>
  What the configuration listing shows does not depend on a secret beyond its length: two
  configurations that differ only in an API token and a password hash of equal lengths are
  listed alike.
\<close>

theorem listing_hides_secrets:
  assumes "length token = length (gc_api_token c)"
    and "length pw = length (ad_password_hash (gc_admin c))"
  shows "as_redacted_dict env (c\<lparr>gc_api_token := token,
      gc_admin := (gc_admin c)\<lparr>ad_password_hash := pw\<rparr>\<rparr>) = as_redacted_dict env c"
proof -
  have "mask_secret token = mask_secret (gc_api_token c)"
    "mask_secret pw = mask_secret (ad_password_hash (gc_admin c))"
    using assms by (auto simp: mask_secret_def)
  then show ?thesis by (simp add: as_redacted_dict_def describe_filters_def)
qed

theorem listing_hides_secrets_witness:
  "as_redacted_dict sample_env (sample_config\<lparr>gc_api_token := [],
      gc_admin := (gc_admin sample_config)\<lparr>ad_password_hash := ''forged$''\<rparr>\<rparr>)
   = as_redacted_dict sample_env sample_config"
  by (rule listing_hides_secrets) (simp_all add: sample_config_def)

end
