(* ===== verification/Drain.thy ===== *)
theory Drain
  imports EventStore Config Units
begin

text \<open>
  The drain loop, \<open>gateway/drain.py\<close>, and the phone's side of its contract, the \<open>Inbox\<close> of the
  companion app (\<open>Inbox.kt\<close>): a spool that grows, a batch in flight that is handed out again
  until it is acknowledged.
\<close>

definition DRAIN_TIMEOUT_SECONDS :: int where "DRAIN_TIMEOUT_SECONDS = 60"
definition ACK_TIMEOUT_SECONDS :: int where "ACK_TIMEOUT_SECONDS = 30"
definition PRUNE_INTERVAL_SECONDS :: int where "PRUNE_INTERVAL_SECONDS = 60 * 60"
definition COLLECTOR_PLUGIN :: string where "COLLECTOR_PLUGIN = ''companion''"

record gateway_stats =
  gs_drained :: nat
  gs_stored :: nat
  gs_errors :: nat

record 'w gateway =
  gw_host :: 'w
  gw_events :: event_db
  gw_stats :: gateway_stats
  gw_last_prune :: "int option"

definition at_device :: "('w, 'a) io \<Rightarrow> ('w gateway, 'a) io" where
  "at_device m = (\<lambda>g. case m (gw_host g) of (r, v) \<Rightarrow> (r, g\<lparr>gw_host := v\<rparr>))"

definition commit_events :: "int \<Rightarrow> spool_event list \<Rightarrow> ('w gateway, spool_event list) io" where
  "commit_events now es =
     (\<lambda>g. case add_events now es (gw_events g) of (r, db) \<Rightarrow> (r, g\<lparr>gw_events := db\<rparr>))"

definition count_batch :: "nat \<Rightarrow> nat \<Rightarrow> ('w gateway, unit) io" where
  "count_batch drained stored =
     (\<lambda>g. (Inr (), g\<lparr>gw_stats := (gw_stats g)\<lparr>gs_drained := gs_drained (gw_stats g) + drained,
        gs_stored := gs_stored (gw_stats g) + stored\<rparr>\<rparr>))"

definition somes :: "'a option list \<Rightarrow> 'a list" where
  "somes xs = concat (map (\<lambda>x. case x of Some y \<Rightarrow> [y] | None \<Rightarrow> []) xs)"

definition spool_lines :: "string \<Rightarrow> string list" where
  "spool_lines spool = filter (\<lambda>l. strip l \<noteq> []) (splitlines spool)"

definition drain_unit :: "'w host \<Rightarrow> int \<Rightarrow> unit_file \<Rightarrow> ('w gateway, nat) io" where
  "drain_unit h now u =
     io_bind (at_device (resolve_serial h (un_serial u))) (\<lambda>serial.
     io_bind (at_device (run_device_cli h serial [''action'', COLLECTOR_PLUGIN, ''drain'']
       DRAIN_TIMEOUT_SECONDS)) (\<lambda>spool.
     if spool_lines spool = [] then io_ret 0
     else io_bind (io_lift (rmap (from_spool_line (un_name u)) (spool_lines spool))) (\<lambda>parsed.
       io_bind (commit_events now (somes parsed)) (\<lambda>stored.
       io_bind (count_batch (length (somes parsed)) (length stored)) (\<lambda>x.
       io_bind (at_device (run_device_cli h serial [''action'', COLLECTOR_PLUGIN, ''ack'']
         ACK_TIMEOUT_SECONDS)) (\<lambda>y. io_ret (length stored)))))))"

definition prune_if_due :: "gateway_config \<Rightarrow> int \<Rightarrow> ('w gateway, unit) io" where
  "prune_if_due c now =
     (\<lambda>g. (Inr (),
        if (case gw_last_prune g of Some t \<Rightarrow> now - t < PRUNE_INTERVAL_SECONDS | None \<Rightarrow> False) then g
        else g\<lparr>gw_last_prune := Some now, gw_events := snd (prune (gc_retention c) now (gw_events g))\<rparr>))"

fun drain_each :: "'w host \<Rightarrow> int \<Rightarrow> unit_file list \<Rightarrow> ('w gateway, nat) io" where
  "drain_each h now [] = io_ret 0"
| "drain_each h now (u # us) =
     io_bind (io_catch (drain_unit h now u) (\<lambda>e g. (Inr 0,
         g\<lparr>gw_stats := (gw_stats g)\<lparr>gs_errors := gs_errors (gw_stats g) + 1\<rparr>\<rparr>))) (\<lambda>n.
     io_bind (drain_each h now us) (\<lambda>m. io_ret (n + m)))"

definition run_once :: "'w host \<Rightarrow> gateway_config \<Rightarrow> int \<Rightarrow> ('w gateway, nat) io" where
  "run_once h c now =
     io_bind (prune_if_due c now) (\<lambda>x.
     io_bind (at_device (load_all_units h)) (\<lambda>us. drain_each h now us))"

section \<open>The inbox of the phone\<close>

text \<open>
  The two files of \<open>Inbox.kt\<close>, absent or with their lines. The spool stays below its cap here:
  what \<open>trim\<close> drops is counted by the app and is gone before any drain.
\<close>

record inbox =
  ib_spool :: "string list option"
  ib_inflight :: "string list option"

definition lines_of :: "string list option \<Rightarrow> string list" where
  "lines_of f = (case f of None \<Rightarrow> [] | Some ls \<Rightarrow> ls)"

definition inbox_record :: "string \<Rightarrow> inbox \<Rightarrow> inbox" where
  "inbox_record l b = b\<lparr>ib_spool := Some (lines_of (ib_spool b) @ [l])\<rparr>"

definition file_text :: "string list \<Rightarrow> string" where
  "file_text ls = concat (map (\<lambda>l. l @ [chr_nl]) ls)"

definition inbox_drain :: "inbox \<Rightarrow> string \<times> inbox" where
  "inbox_drain b =
     (case ib_inflight b of
        Some ls \<Rightarrow> (file_text ls, b)
      | None \<Rightarrow> (case ib_spool b of
          None \<Rightarrow> ([], b)
        | Some ls \<Rightarrow> (file_text ls, b\<lparr>ib_spool := None, ib_inflight := Some ls\<rparr>)))"

definition inbox_ack :: "inbox \<Rightarrow> inbox" where
  "inbox_ack b = b\<lparr>ib_inflight := None\<rparr>"

definition pending :: "inbox \<Rightarrow> string list" where
  "pending b = lines_of (ib_inflight b) @ lines_of (ib_spool b)"

section \<open>A phone behind adb\<close>

text \<open>
  A world with one phone. Before each command the script says which lines the app records
  meanwhile and what happens to the command: it works, it fails before it has an effect, its
  reply is lost after the effect, or the gateway gives up waiting. All recorded lines are kept
  in a history the program does not see.
\<close>

datatype fault = Works | Fails | LosesReply | Hangs

record phone =
  ph_inbox :: inbox
  ph_script :: "(fault \<times> string list) list"
  ph_recorded :: "string list"

definition phone_serial :: string where "phone_serial = ''A1''"

definition inbox_command :: "string \<Rightarrow> string list" where
  "inbox_command verb = [''adb'', ''-s'', phone_serial, ''exec-out'', ''su'', ''-c'',
     device_command [''action'', COLLECTOR_PLUGIN, verb]]"

definition phone_command :: "string list \<Rightarrow> phone \<Rightarrow> string \<times> phone" where
  "phone_command args p =
     (if args = [''adb'', ''devices'']
      then (''List of devices attached'' @ [chr_nl] @ phone_serial @ [chr_tab] @ ''device'' @ [chr_nl], p)
      else if args = inbox_command ''drain''
      then (case inbox_drain (ph_inbox p) of (out, b) \<Rightarrow> (out, p\<lparr>ph_inbox := b\<rparr>))
      else if args = inbox_command ''ack'' then ([], p\<lparr>ph_inbox := inbox_ack (ph_inbox p)\<rparr>)
      else ([], p))"

definition record_lines :: "string list \<Rightarrow> phone \<Rightarrow> phone" where
  "record_lines ls p =
     p\<lparr>ph_inbox := fold inbox_record ls (ph_inbox p), ph_recorded := ph_recorded p @ ls\<rparr>"

definition next_fault :: "phone \<Rightarrow> fault \<times> phone" where
  "next_fault p =
     (case ph_script p of
        [] \<Rightarrow> (Works, p)
      | (f, ls) # rest \<Rightarrow> (f, record_lines ls (p\<lparr>ph_script := rest\<rparr>)))"

definition phone_run :: "string list \<Rightarrow> int \<Rightarrow> (phone, int \<times> string \<times> string) io" where
  "phone_run args timeout p =
     (case next_fault p of (f, p1) \<Rightarrow>
        if f = Fails then (Inr (1, [], ''error: closed''), p1)
        else (case phone_command args p1 of (out, p2) \<Rightarrow>
          (if f = Hangs then Inl TimeoutExpired
           else if f = LosesReply then Inr (1, [], ''error: closed'') else Inr (0, out, []), p2)))"

definition phone_host :: "phone host" where
  "phone_host = \<lparr>ho_which_adb = (\<lambda>w. Some ''adb''), ho_server_socket = (\<lambda>w. None), ho_run = phone_run,
     ho_unit_names = (\<lambda>w. None), ho_read_unit = (\<lambda>n w. None), ho_write_unit = (\<lambda>n s. io_ret ()),
     ho_randbelow = (\<lambda>n. io_ret 0), ho_listen = io_ret (0, 0), ho_close = (\<lambda>i. io_ret ()),
     ho_file_size = (\<lambda>p. io_ret 0), ho_read_file = (\<lambda>p. io_ret []), ho_unlink = (\<lambda>p. io_ret ())\<rparr>"

section \<open>Lemmas on the inbox and the phone\<close>

lemma pending_record: "set (pending (fold inbox_record ls b)) = set (pending b) \<union> set ls"
  by (induction ls arbitrary: b) (auto simp: pending_def inbox_record_def lines_of_def split: option.splits)

lemma inflight_record [simp]: "ib_inflight (fold inbox_record ls b) = ib_inflight b"
  by (induction ls arbitrary: b) (simp_all add: inbox_record_def)

lemma pending_drain [simp]: "set (pending (snd (inbox_drain b))) = set (pending b)"
  by (auto simp: pending_def inbox_drain_def lines_of_def split: option.splits)

lemma drain_text: "fst (inbox_drain b) = file_text (lines_of (ib_inflight (snd (inbox_drain b))))"
  by (auto simp: inbox_drain_def lines_of_def file_text_def split: option.splits)

text \<open>A line needs no more care: it is no event, or its event is in the store.\<close>

definition settled :: "string \<Rightarrow> event_db \<Rightarrow> string \<Rightarrow> bool" where
  "settled u db l =
     (case from_spool_line u l of
        Inr None \<Rightarrow> True
      | Inr (Some e) \<Rightarrow> ev_key e \<in> keys_of db
      | Inl e \<Rightarrow> False)"

definition all_lines :: "phone \<Rightarrow> string list" where
  "all_lines p = pending (ph_inbox p) @ concat (map snd (ph_script p))"

definition phone_inv :: "string \<Rightarrow> event_db \<Rightarrow> phone \<Rightarrow> bool" where
  "phone_inv u db p \<longleftrightarrow>
     (\<forall>l \<in> set (ph_recorded p). l \<in> set (pending (ph_inbox p)) \<or> settled u db l) \<and>
     list_all line_free (all_lines p)"

lemma settled_mono: "settled u db l \<Longrightarrow> keys_of db \<subseteq> keys_of db' \<Longrightarrow> settled u db' l"
  by (auto simp: settled_def split: sum.splits option.splits)

lemma phone_inv_mono: "phone_inv u db p \<Longrightarrow> keys_of db \<subseteq> keys_of db' \<Longrightarrow> phone_inv u db' p"
  using settled_mono unfolding phone_inv_def by blast

lemma phone_invI:
  assumes "phone_inv u db p"
    and "set (ph_recorded q) \<subseteq> set (ph_recorded p) \<union> set (pending (ph_inbox q))"
    and "\<And>l. l \<in> set (pending (ph_inbox p)) \<Longrightarrow> l \<in> set (pending (ph_inbox q)) \<or> settled u db l"
    and "set (all_lines q) \<subseteq> set (all_lines p)"
  shows "phone_inv u db q"
  using assms unfolding phone_inv_def list_all_iff by blast

lemma next_fault_inv: "next_fault p = (f, p1) \<Longrightarrow> phone_inv u db p \<Longrightarrow> phone_inv u db p1"
proof (cases "ph_script p")
  case (Cons e rest)
  obtain g ls where e: "e = (g, ls)" by (cases e)
  assume n: "next_fault p = (f, p1)" and inv: "phone_inv u db p"
  have p1: "p1 = record_lines ls (p\<lparr>ph_script := rest\<rparr>)" using n Cons e by (simp add: next_fault_def)
  have pend: "set (pending (ph_inbox p1)) = set (pending (ph_inbox p)) \<union> set ls"
    by (simp add: p1 record_lines_def pending_record)
  show ?thesis
  proof (rule phone_invI [OF inv])
    show "set (ph_recorded p1) \<subseteq> set (ph_recorded p) \<union> set (pending (ph_inbox p1))"
      by (auto simp: p1 record_lines_def pending_record)
    show "set (all_lines p1) \<subseteq> set (all_lines p)"
      using pend Cons e by (auto simp: all_lines_def p1 record_lines_def)
  qed (use pend in blast)
qed (simp add: next_fault_def)

lemma next_fault_inflight: "next_fault p = (f, p1) \<Longrightarrow> ib_inflight (ph_inbox p1) = ib_inflight (ph_inbox p)"
  by (auto simp: next_fault_def record_lines_def split: list.splits)

lemma commands_differ [simp]:
  "inbox_command v \<noteq> [''adb'', ''devices'']" "inbox_command ''ack'' \<noteq> inbox_command ''drain''"
  "inbox_command ''drain'' \<noteq> inbox_command ''ack''"
  by (simp_all add: inbox_command_def device_command_def COLLECTOR_PLUGIN_def shlex_quote_def
      shell_safe_def is_alpha_def code_def)

lemma phone_command_frame [simp]:
  "ph_recorded (snd (phone_command args p)) = ph_recorded p"
  "ph_script (snd (phone_command args p)) = ph_script p"
  by (simp_all add: phone_command_def split: prod.splits)

lemma phone_command_pending:
  "args \<noteq> inbox_command ''ack'' \<Longrightarrow>
     set (pending (ph_inbox (snd (phone_command args p)))) = set (pending (ph_inbox p))"
  by (simp add: phone_command_def case_prod_unfold)

lemma phone_command_inv:
  "args \<noteq> inbox_command ''ack'' \<Longrightarrow> phone_inv u db p \<Longrightarrow> phone_inv u db (snd (phone_command args p))"
  using phone_command_pending [of args p]
  by (simp add: phone_inv_def all_lines_def list_all_iff)

lemma phone_run_world:
  "snd (phone_run args t p) = snd (next_fault p) \<or>
   snd (phone_run args t p) = snd (phone_command args (snd (next_fault p)))"
  by (auto simp: phone_run_def split: prod.splits)

lemma phone_run_inv:
  assumes "args \<noteq> inbox_command ''ack''" "phone_inv u db p"
  shows "phone_inv u db (snd (phone_run args t p))"
  using phone_run_world [of args t p] phone_command_inv [OF assms(1)]
    next_fault_inv [OF prod.collapse [symmetric] assms(2)] by auto

text \<open>An acknowledgement deletes the batch in flight, which must be settled by then.\<close>

lemma ack_inv:
  assumes "phone_inv u db p" "\<And>l. l \<in> set (lines_of (ib_inflight (ph_inbox p))) \<Longrightarrow> settled u db l"
  shows "phone_inv u db (snd (phone_run args t p))"
proof -
  obtain f p1 where n: "next_fault p = (f, p1)" by (cases "next_fault p")
  have inv1: "phone_inv u db p1" by (rule next_fault_inv [OF n assms(1)])
  have infl: "ib_inflight (ph_inbox p1) = ib_inflight (ph_inbox p)" by (rule next_fault_inflight [OF n])
  have "phone_inv u db (snd (phone_command args p1))"
  proof (cases "args = inbox_command ''ack''")
    case True
    let ?q = "p1\<lparr>ph_inbox := inbox_ack (ph_inbox p1)\<rparr>"
    have "phone_inv u db ?q"
    proof (rule phone_invI [OF inv1])
      show "set (all_lines ?q) \<subseteq> set (all_lines p1)"
        by (auto simp: all_lines_def pending_def inbox_ack_def lines_of_def)
      fix l assume "l \<in> set (pending (ph_inbox p1))"
      then show "l \<in> set (pending (ph_inbox ?q)) \<or> settled u db l"
        using assms(2) infl by (auto simp: pending_def inbox_ack_def lines_of_def)
    qed simp
    with True show ?thesis by (simp add: phone_command_def)
  qed (rule phone_command_inv [OF _ inv1])
  then show ?thesis using phone_run_world [of args t p] inv1 n by auto
qed

lemma command_text:
  "args \<noteq> [''adb'', ''devices''] \<Longrightarrow> fst (phone_command args p) = [] \<or>
     fst (phone_command args p) = file_text (lines_of (ib_inflight (ph_inbox (snd (phone_command args p)))))"
  using drain_text [of "ph_inbox p"] unfolding phone_command_def case_prod_unfold
  by (cases "args = inbox_command ''drain''") simp_all

lemma drain_run:
  assumes "phone_run args t p = (Inr (0, out, err), p')" and "args \<noteq> [''adb'', ''devices'']"
  shows "out = [] \<or> out = file_text (lines_of (ib_inflight (ph_inbox p')))"
proof -
  from assms(1) have "out = fst (phone_command args (snd (next_fault p)))"
    "p' = snd (phone_command args (snd (next_fault p)))"
    by (auto simp: phone_run_def case_prod_unfold split: if_splits)
  with command_text [OF assms(2)] show ?thesis by simp
qed

section \<open>Lemmas on the gateway's side\<close>

lemma build_phone [simp]: "build_adb_command phone_host p = (Inr [''adb''], p)"
  by (simp add: build_adb_command_def find_adb_binary_def phone_host_def io_bind_app)

lemma snd_catch_raise:
  "(\<And>e w. snd (f e w) = w) \<Longrightarrow> snd (io_catch m f w) = snd (m w)"
  by (simp add: io_catch_def split: prod.splits sum.splits)

lemma failure_worlds [simp]: "snd (root_failure e w) = w" "snd (cli_failure e w) = w"
  by (cases e; simp add: root_failure_def cli_failure_def)+

lemma phone_host_run [simp]: "ho_run phone_host = phone_run"
  by (simp add: phone_host_def)

lemma exec_out_world:
  "snd (run_exec_out phone_host s args t p) =
     snd (phone_run ([''adb'', ''-s'', s, ''exec-out''] @ args) t p)"
  by (simp add: run_exec_out_def io_bind_app split: prod.splits sum.splits)

lemma device_cli_world:
  "snd (run_device_cli phone_host s args t p) =
     snd (phone_run [''adb'', ''-s'', s, ''exec-out'', ''su'', ''-c'', device_command args] t p)"
  unfolding run_device_cli_def run_as_root_def by (simp add: snd_catch_raise exec_out_world)

lemma list_devices_inv: "phone_inv u db p \<Longrightarrow> phone_inv u db (snd (list_devices phone_host p))"
  using phone_run_inv [of "[''adb'', ''devices'']" u db p]
  by (auto simp: list_devices_def snd_io_bind inbox_command_def split: sum.splits)

lemma choose_only_world [simp]: "snd (choose_only us p) = p"
  by (simp add: choose_only_def split: list.splits)

lemma resolve_inv:
  assumes "phone_inv u db p" shows "phone_inv u db (snd (resolve_serial phone_host s p))"
  unfolding resolve_serial_def
proof (rule io_bind_keeps [where P = "phone_inv u db", OF assms])
  fix w assume "phone_inv u db w"
  then show "phone_inv u db (snd (list_devices phone_host w))" by (rule list_devices_inv)
next
  fix all p assume "phone_inv u db p"
  then show "phone_inv u db (snd ((let usable = filter is_usable all
     in case s of
          Some s \<Rightarrow>
            if s = [] then choose_only usable
            else if list_ex (\<lambda>d. dv_serial d = s) usable then io_ret s
            else io_bind (list_devices phone_host) (\<lambda>again.
              case dict_get s (states_of again) of
                Some st \<Rightarrow> io_raise (AdbError (''device '' @ s @ '' is in state '' @ [chr_quote] @ st @
                  [chr_quote] @ '', not 'device'. Unauthorized usually means the RSA prompt on the '' @
                  ''phone is unanswered.''))
              | None \<Rightarrow> io_raise (AdbError (''device '' @ s @ '' is not connected'')))
        | None \<Rightarrow> choose_only usable) p))"
    using list_devices_inv by (auto simp: Let_def snd_io_bind split: option.splits sum.splits)
qed

definition gateway_inv :: "string \<Rightarrow> phone gateway \<Rightarrow> bool" where
  "gateway_inv u g \<longleftrightarrow> phone_inv u (gw_events g) (gw_host g)"

lemma at_device_inv:
  "gateway_inv u g \<Longrightarrow> phone_inv u (gw_events g) (snd (m (gw_host g))) \<Longrightarrow>
     gateway_inv u (snd (at_device m g))"
  by (simp add: gateway_inv_def at_device_def case_prod_unfold)

lemma add_events_mono: "add_events now es db = (r, db') \<Longrightarrow> keys_of db \<subseteq> keys_of db'"
  by (rule sink.add_mono)

lemma somes_mem: "x \<in> set (somes xs) \<longleftrightarrow> Some x \<in> set xs"
  by (force simp: somes_def split: option.splits)

lemma rmap_mem: "rmap f xs = Inr ys \<Longrightarrow> x \<in> set xs \<Longrightarrow> \<exists>y \<in> set ys. f x = Inr y"
  by (induction xs arbitrary: ys) (auto simp: rbind_eq_Inr)

text \<open>After the commit every line of the batch is settled.\<close>

lemma batch_settled:
  assumes "rmap (from_spool_line u) (filter (\<lambda>l. strip l \<noteq> []) ls) = Inr parsed"
    and "add_events now (somes parsed) db = (Inr st, db')" and "l \<in> set ls"
  shows "settled u db' l"
proof (cases "strip l = []")
  case True
  then show ?thesis by (simp add: settled_def from_spool_line_def)
next
  case False
  then obtain y where y: "y \<in> set parsed" "from_spool_line u l = Inr y"
    using rmap_mem [OF assms(1)] assms(3) by auto
  have "keys_of db' = keys_of db \<union> ev_key ` set (somes parsed)"
    using assms(2) by (rule sink.add_keys)
  then show ?thesis using y by (cases y) (auto simp: settled_def somes_mem)
qed

lemma ack_step:
  assumes "gateway_inv u g"
    and "\<And>l. l \<in> set (lines_of (ib_inflight (ph_inbox (gw_host g)))) \<Longrightarrow> settled u (gw_events g) l"
  shows "gateway_inv u (snd (at_device (run_device_cli phone_host s args t) g))"
  using assms by (intro at_device_inv) (simp_all add: device_cli_world ack_inv gateway_inv_def)

text \<open>Everything after the batch has been received.\<close>

lemma commit_and_ack_inv:
  assumes inv: "gateway_inv u g"
    and lines: "splitlines spool = lines_of (ib_inflight (ph_inbox (gw_host g)))"
  shows "gateway_inv u (snd (io_bind (io_lift (rmap (from_spool_line u) (spool_lines spool))) (\<lambda>parsed.
       io_bind (commit_events now (somes parsed)) (\<lambda>stored.
       io_bind (count_batch (length (somes parsed)) (length stored)) (\<lambda>x.
       io_bind (at_device (run_device_cli phone_host serial args t)) (\<lambda>y. io_ret (length stored))))) g))"
proof (cases "rmap (from_spool_line u) (spool_lines spool)")
  case (Inl e)
  with inv show ?thesis by (simp add: io_bind_app)
next
  case (Inr parsed)
  obtain r db' where add: "add_events now (somes parsed) (gw_events g) = (r, db')"
    by (cases "add_events now (somes parsed) (gw_events g)")
  have inv': "gateway_inv u (g\<lparr>gw_events := db'\<rparr>)"
    using inv phone_inv_mono add_events_mono [OF add] by (simp add: gateway_inv_def)
  show ?thesis
  proof (cases r)
    case (Inl e)
    with Inr add inv' show ?thesis by (simp add: io_bind_app commit_events_def)
  next
    case (Inr st)
    let ?g = "snd (count_batch (length (somes parsed)) (length st) (g\<lparr>gw_events := db'\<rparr>))"
    have "gateway_inv u (snd (at_device (run_device_cli phone_host serial args t) ?g))"
    proof (rule ack_step)
      show "gateway_inv u ?g" using inv' by (simp add: count_batch_def gateway_inv_def)
      fix l assume "l \<in> set (lines_of (ib_inflight (ph_inbox (gw_host ?g))))"
      then have "l \<in> set (splitlines spool)" using lines by (simp add: count_batch_def)
      then show "settled u (gw_events ?g) l"
        using batch_settled [OF _ add [unfolded Inr]] \<open>rmap _ _ = Inr parsed\<close>
        by (simp add: count_batch_def spool_lines_def)
    qed
    moreover have "commit_events now (somes parsed) g = (Inr st, g\<lparr>gw_events := db'\<rparr>)"
      using add Inr by (simp add: commit_events_def)
    moreover have "fst (count_batch (length (somes parsed)) (length st) (g\<lparr>gw_events := db'\<rparr>)) = Inr ()"
      by (simp add: count_batch_def)
    ultimately show ?thesis
      using \<open>rmap _ _ = Inr parsed\<close> by (simp add: snd_io_bind split: sum.splits)
  qed
qed

lemma drain_not_ack: "[''adb'', ''-s'', s, ''exec-out'', ''su'', ''-c'',
    device_command [''action'', COLLECTOR_PLUGIN, ''drain'']] \<noteq> inbox_command ''ack''"
  using commands_differ(3) by (auto simp: inbox_command_def)

lemma drained_text:
  assumes "run_device_cli phone_host s [''action'', COLLECTOR_PLUGIN, ''drain''] t p = (Inr spool, p')"
    and "phone_inv u db p'"
  shows "spool = [] \<or> splitlines spool = lines_of (ib_inflight (ph_inbox p'))"
proof -
  obtain err where "phone_run [''adb'', ''-s'', s, ''exec-out'', ''su'', ''-c'',
      device_command [''action'', COLLECTOR_PLUGIN, ''drain'']] t p = (Inr (0, spool, err), p')"
    using assms(1) by (auto simp: run_device_cli_Inr run_exec_out_Inr)
  then have "spool = [] \<or> spool = file_text (lines_of (ib_inflight (ph_inbox p')))"
    by (rule drain_run) simp
  moreover have "list_all line_free (lines_of (ib_inflight (ph_inbox p')))"
    using assms(2) by (simp add: phone_inv_def all_lines_def pending_def)
  ultimately show ?thesis using splitlines_concat by (auto simp: file_text_def)
qed

lemma drain_unit_inv:
  assumes "gateway_inv (un_name u) g"
  shows "gateway_inv (un_name u) (snd (drain_unit phone_host now u g))"
  unfolding drain_unit_def
proof (rule io_bind_keeps [where P = "gateway_inv (un_name u)", OF assms])
  fix g :: "phone gateway" assume "gateway_inv (un_name u) g"
  then show "gateway_inv (un_name u) (snd (at_device (resolve_serial phone_host (un_serial u)) g))"
    by (intro at_device_inv) (simp_all add: gateway_inv_def resolve_inv)
next
  fix serial and g :: "phone gateway" assume inv: "gateway_inv (un_name u) g"
  let ?cli = "run_device_cli phone_host serial [''action'', COLLECTOR_PLUGIN, ''drain'']
    DRAIN_TIMEOUT_SECONDS"
  obtain r p' where r: "?cli (gw_host g) = (r, p')" by (cases "?cli (gw_host g)")
  let ?g = "g\<lparr>gw_host := p'\<rparr>"
  have p': "phone_inv (un_name u) (gw_events g) p'"
    using phone_run_inv [OF drain_not_ack inv [unfolded gateway_inv_def]]
      device_cli_world [of serial _ _ "gw_host g"] r by (metis snd_conv)
  then have inv': "gateway_inv (un_name u) ?g" by (simp add: gateway_inv_def)
  have dev: "at_device ?cli g = (r, ?g)" using r by (simp add: at_device_def)
  show "gateway_inv (un_name u) (snd (io_bind (at_device ?cli) (\<lambda>spool.
     if spool_lines spool = [] then io_ret 0
     else io_bind (io_lift (rmap (from_spool_line (un_name u)) (spool_lines spool))) (\<lambda>parsed.
       io_bind (commit_events now (somes parsed)) (\<lambda>stored.
       io_bind (count_batch (length (somes parsed)) (length stored)) (\<lambda>x.
       io_bind (at_device (run_device_cli phone_host serial [''action'', COLLECTOR_PLUGIN, ''ack'']
         ACK_TIMEOUT_SECONDS)) (\<lambda>y. io_ret (length stored)))))) g))"
  proof (cases r)
    case (Inl e)
    then show ?thesis using dev inv' by (simp add: io_bind_app)
  next
    case (Inr spool)
    have "spool = [] \<or> splitlines spool = lines_of (ib_inflight (ph_inbox (gw_host ?g)))"
      using drained_text [OF r [unfolded Inr] p'] by simp
    moreover have "spool_lines [] = []" by (simp add: spool_lines_def)
    ultimately show ?thesis
      using commit_and_ack_inv [OF inv'] inv' dev Inr by (auto simp: snd_io_bind)
  qed
qed

text \<open>One poll of a phone whose commands all work.\<close>

lemma healthy_run:
  "ph_script p = [] \<Longrightarrow> phone_run args t p =
     (Inr (0, fst (phone_command args p), []), snd (phone_command args p))"
  by (simp add: phone_run_def next_fault_def case_prod_unfold)

lemma healthy_resolve:
  "ph_script p = [] \<Longrightarrow> s \<in> {None, Some phone_serial} \<Longrightarrow>
     resolve_serial phone_host s p = (Inr phone_serial, p)"
  by (auto simp: resolve_serial_def list_devices_def healthy_run phone_command_def phone_serial_def
      parse_devices_def chr_defs break_rest_def is_break_def is_space_def code_def strip_def lstrip_def
      rstrip_def is_usable_def DEVICE_STATE_READY_def choose_only_def io_bind_app)

lemma healthy_cli:
  assumes "ph_script p = []"
  shows "run_device_cli phone_host phone_serial [''action'', COLLECTOR_PLUGIN, v] t p =
    (Inr (fst (phone_command (inbox_command v) p)), snd (phone_command (inbox_command v) p))"
  using assms
  by (simp add: run_device_cli_def run_as_root_def run_exec_out_def io_catch_app io_bind_app healthy_run
      inbox_command_def)

lemma healthy_poll:
  assumes "ph_script (gw_host g) = []" and "un_serial u \<in> {None, Some phone_serial}"
    and "ph_inbox (gw_host g) = \<lparr>ib_spool = Some ls, ib_inflight = None\<rparr>"
    and "spool_lines (file_text ls) \<noteq> []"
    and "rmap (from_spool_line (un_name u)) (spool_lines (file_text ls)) = Inr parsed"
    and "add_events now (somes parsed) (gw_events g) = (Inr st, db')"
  shows "drain_unit phone_host now u g = (Inr (length st),
    g\<lparr>gw_host := (gw_host g)\<lparr>ph_inbox := \<lparr>ib_spool = None, ib_inflight = None\<rparr>\<rparr>, gw_events := db',
      gw_stats := (gw_stats g)\<lparr>gs_drained := gs_drained (gw_stats g) + length (somes parsed),
        gs_stored := gs_stored (gw_stats g) + length st\<rparr>\<rparr>)"
proof -
  let ?p = "gw_host g"
  let ?q = "?p\<lparr>ph_inbox := \<lparr>ib_spool = None, ib_inflight = Some ls\<rparr>\<rparr>"
  have drain: "run_device_cli phone_host phone_serial [''action'', COLLECTOR_PLUGIN, ''drain''] t ?p =
      (Inr (file_text ls), ?q)" for t
    unfolding healthy_cli [OF assms(1)] by (simp add: phone_command_def inbox_drain_def assms(3))
  have "ph_script ?q = []" using assms(1) by simp
  then have ack: "run_device_cli phone_host phone_serial [''action'', COLLECTOR_PLUGIN, ''ack''] t ?q =
      (Inr [], ?p\<lparr>ph_inbox := \<lparr>ib_spool = None, ib_inflight = None\<rparr>\<rparr>)" for t
    by (simp add: healthy_cli phone_command_def inbox_ack_def)
  show ?thesis
    unfolding drain_unit_def at_device_def
    using healthy_resolve [OF assms(1,2)] assms(4-6)
    by (simp add: io_bind_app drain ack commit_events_def count_batch_def)
qed

section \<open>Properties\<close>

text \<open>
  C1. Nothing is lost on the way: the gateway polls a phone again and again while the phone
  records lines, and any command may fail before or after its effect or time out. At every
  moment each line recorded is still on the phone or settled: stored with its unit, kind and
  id, or not an event. (Lines hold no line boundary; the spool stays below its cap.)
\<close>

theorem no_event_lost:
  assumes "list_all line_free (concat (map snd script))"
    and "phone_world = \<lparr>ph_inbox = \<lparr>ib_spool = None, ib_inflight = None\<rparr>, ph_script = script,
      ph_recorded = []\<rparr>"
    and "final = fold (\<lambda>now g. snd (drain_unit phone_host now u g)) polls (start\<lparr>gw_host := phone_world\<rparr>)"
  shows "list_all (\<lambda>l. l \<in> set (pending (ph_inbox (gw_host final))) \<or>
      (case from_spool_line (un_name u) l of
         Inl e \<Rightarrow> False | Inr None \<Rightarrow> True | Inr (Some e) \<Rightarrow> ev_key e \<in> keys_of (gw_events final)))
    (ph_recorded (gw_host final))"
proof -
  have "gateway_inv (un_name u) (start\<lparr>gw_host := phone_world\<rparr>)"
    using assms(1) unfolding assms(2)
    by (simp add: gateway_inv_def phone_inv_def all_lines_def pending_def lines_of_def)
  then have "gateway_inv (un_name u) final"
    unfolding assms(3) by (induction polls rule: rev_induct) (simp_all add: drain_unit_inv)
  then show ?thesis
    unfolding gateway_inv_def phone_inv_def list_all_iff settled_def [symmetric] by blast
qed

definition sms_line :: "string \<Rightarrow> string" where
  "sms_line body = ''{'' @ dump_string ''kind'' @ '':'' @ dump_string ''sms'' @ '','' @ dump_string ''id'' @
     '':7,'' @ dump_string ''body'' @ '':'' @ [chr_dquote] @ body @ [chr_dquote] @ ''}''"

definition rack_unit :: unit_file where
  "rack_unit = \<lparr>un_name = ''lisa01'', un_serial = Some phone_serial, un_label = [], un_settings = []\<rparr>"

definition empty_gateway :: "phone \<Rightarrow> phone gateway" where
  "empty_gateway p = \<lparr>gw_host = p, gw_events = [], gw_stats = \<lparr>gs_drained = 0, gs_stored = 0,
     gs_errors = 0\<rparr>, gw_last_prune = None\<rparr>"

definition flaky_phone :: phone where
  "flaky_phone = \<lparr>ph_inbox = \<lparr>ib_spool = None, ib_inflight = None\<rparr>, ph_script = [(Works, [sms_line ''hi'']),
     (LosesReply, []), (Hangs, []), (Works, [])], ph_recorded = []\<rparr>"

theorem no_event_lost_witness:
  "list_all (\<lambda>l. l \<in> set (pending (ph_inbox (gw_host (fold (\<lambda>now g. snd (drain_unit phone_host now rack_unit g))
         [10, 20, 30] (empty_gateway flaky_phone))))) \<or>
      (case from_spool_line (un_name rack_unit) l of
         Inl e \<Rightarrow> False | Inr None \<Rightarrow> True | Inr (Some e) \<Rightarrow> ev_key e \<in> keys_of (gw_events
           (fold (\<lambda>now g. snd (drain_unit phone_host now rack_unit g)) [10, 20, 30]
              (empty_gateway flaky_phone)))))
    (ph_recorded (gw_host (fold (\<lambda>now g. snd (drain_unit phone_host now rack_unit g)) [10, 20, 30]
       (empty_gateway flaky_phone))))"
proof (rule no_event_lost [OF _ refl])
  show "list_all line_free (concat (map snd (ph_script flaky_phone)))"
    by (simp add: flaky_phone_def sms_line_def dump_string_def dump_char_def chr_defs break_rest_def
        is_break_def code_def)
  have "flaky_phone = \<lparr>ph_inbox = \<lparr>ib_spool = None, ib_inflight = None\<rparr>,
      ph_script = ph_script flaky_phone, ph_recorded = []\<rparr>"
    by (simp add: flaky_phone_def)
  then show "fold (\<lambda>now g. snd (drain_unit phone_host now rack_unit g)) [10, 20, 30]
      (empty_gateway flaky_phone) = fold (\<lambda>now g. snd (drain_unit phone_host now rack_unit g)) [10, 20, 30]
      ((empty_gateway flaky_phone)\<lparr>gw_host := \<lparr>ph_inbox = \<lparr>ib_spool = None, ib_inflight = None\<rparr>,
        ph_script = ph_script flaky_phone, ph_recorded = []\<rparr>\<rparr>)"
    by (simp add: empty_gateway_def)
qed

text \<open>
  One poll of a phone that answers empties its spool: the events of the lines are stored,
  the new ones counted, and the batch is deleted from the phone.
\<close>

theorem poll_delivers:
  assumes "ph_script (gw_host g) = []" and "un_serial u \<in> {None, Some phone_serial}"
    and "ph_inbox (gw_host g) = \<lparr>ib_spool = Some ls, ib_inflight = None\<rparr>"
    and "spool_lines (file_text ls) \<noteq> []"
    and "rmap (from_spool_line (un_name u)) (spool_lines (file_text ls)) = Inr parsed"
    and "add_events now (somes parsed) (gw_events g) = (Inr st, db')"
    and "drain_unit phone_host now u g = (r, g')"
  shows "r = Inr (length st) \<and> pending (ph_inbox (gw_host g')) = [] \<and> gw_events g' = db' \<and>
    keys_of db' = keys_of (gw_events g) \<union> ev_key ` set (somes parsed) \<and>
    gs_stored (gw_stats g') = gs_stored (gw_stats g) + length st"
  using healthy_poll [OF assms(1-6)] assms(7) sink.add_keys [OF assms(6)]
  by (auto simp: pending_def lines_of_def)

definition healthy_phone :: "string \<Rightarrow> phone" where
  "healthy_phone l = \<lparr>ph_inbox = \<lparr>ib_spool = Some [l], ib_inflight = None\<rparr>, ph_script = [],
     ph_recorded = [l]\<rparr>"

definition hi_event :: spool_event where
  "hi_event = \<lparr>ev_unit = ''lisa01'', ev_kind = ''sms'', ev_source_id = 7, ev_address = JNull,
     ev_body = JStr ''hi'', ev_timestamp = JNull, ev_direction = JNull, ev_duration = JNull,
     ev_raw = Some (JObj [(''kind'', JStr ''sms''), (''id'', JInt 7), (''body'', JStr ''hi'')])\<rparr>"

lemma hi_parsed:
  "rmap (from_spool_line ''lisa01'') (spool_lines (file_text [sms_line ''hi''])) = Inr [Some hi_event]"
  by code_simp

lemma hi_lines: "spool_lines (file_text [sms_line ''hi'']) \<noteq> []"
  by code_simp

lemma hi_stored: "\<exists>row. add_events 9 [hi_event] [] = (Inr [hi_event], [row])"
  by (simp add: add_events_def hi_event_def bind_event_def fits64_def bind_text_def bind_int_def
      has_key_def Let_def)

theorem poll_delivers_witness:
  "\<exists>r g'. drain_unit phone_host 9 rack_unit (empty_gateway (healthy_phone (sms_line ''hi''))) = (r, g') \<and>
     r = Inr 1 \<and> pending (ph_inbox (gw_host g')) = []"
proof -
  let ?g = "empty_gateway (healthy_phone (sms_line ''hi''))"
  obtain row where st: "add_events 9 (somes [Some hi_event]) (gw_events ?g) = (Inr [hi_event], [row])"
    using hi_stored by (auto simp: somes_def empty_gateway_def)
  obtain r g' where d: "drain_unit phone_host 9 rack_unit ?g = (r, g')"
    by (cases "drain_unit phone_host 9 rack_unit ?g")
  have "rmap (from_spool_line (un_name rack_unit)) (spool_lines (file_text [sms_line ''hi''])) =
      Inr [Some hi_event]"
    using hi_parsed by (simp add: rack_unit_def)
  from poll_delivers [OF _ _ _ hi_lines this st d]
  have "r = Inr 1 \<and> pending (ph_inbox (gw_host g')) = []"
    by (simp add: empty_gateway_def healthy_phone_def rack_unit_def)
  with d show ?thesis by blast
qed

definition separator_line :: string where
  "separator_line = sms_line (''a'' @ [CHR 0xE2, CHR 0x80, CHR 0xA8] @ ''b'')"

lemma separator_is_event:
  "case from_spool_line ''lisa01'' separator_line of
     Inr (Some e) \<Rightarrow> ev_key e = (''lisa01'', ''sms'', 7) | _ \<Rightarrow> False"
  by code_simp

lemma separator_split:
  "rmap (from_spool_line ''lisa01'') (spool_lines (file_text [separator_line])) = Inr [None, None]"
  by code_simp

lemma separator_lines: "spool_lines (file_text [separator_line]) \<noteq> []"
  by code_simp


end
