(* ===== verification/Commands.thy ===== *)
theory Commands
  imports Cli Drain "HOL-Library.Multiset"
begin

text \<open>
  The remaining commands: adopting devices (\<open>cli/commands/inventory.py\<close>), installing modules
  (\<open>modules.py\<close>), switching plugins (\<open>plugins.py\<close>), reports (\<open>monitoring.py\<close>), starting the gateway
  (\<open>gateway.py\<close>) and the dispatch of \<open>cli/main.py\<close>. The build script and the files of \<open>dist/\<close> are
  arguments.
\<close>

section \<open>Dispatch\<close>

text \<open>Exceptions a command may raise to report a failure; the others end the program with a traceback.\<close>

definition reported :: "exn \<Rightarrow> bool" where
  "reported e = (case e of
       AdbError m \<Rightarrow> True | KeyError m \<Rightarrow> True | FileNotFoundError m \<Rightarrow> True | _ \<Rightarrow> False)"

definition main_exit :: "('w, int) io \<Rightarrow> ('w, int) io" where
  "main_exit handler = io_catch handler (\<lambda>e. if reported e then io_ret EXIT_FAILURE else io_raise e)"

section \<open>Inventory\<close>

definition unit_online :: "device list \<Rightarrow> unit_file \<Rightarrow> bool" where
  "unit_online devices u =
     (let live = remdups (map dv_serial (filter is_usable devices))
      in case un_serial u of
           Some s \<Rightarrow> if s = [] then length live = 1 else s \<in> set live
         | None \<Rightarrow> length live = 1)"

definition list_online :: "'w host \<Rightarrow> ('w, (string \<times> bool) list) io" where
  "list_online h =
     io_bind (list_devices h) (\<lambda>devices.
     io_bind (load_all_units h) (\<lambda>us.
     io_ret (map (\<lambda>u. (un_name u, unit_online devices u)) us)))"

definition adopted_names :: "unit_file list \<Rightarrow> (string, string) dict" where
  "adopted_names us = fold (\<lambda>u d. case un_serial u of
       Some s \<Rightarrow> if s = [] then d else dict_set s (un_name u) d
     | None \<Rightarrow> d) us []"

definition list_adopted :: "'w host \<Rightarrow> ('w, (string \<times> string \<times> string option) list) io" where
  "list_adopted h =
     io_bind (load_all_units h) (\<lambda>us.
     io_bind (list_devices h) (\<lambda>devices.
     io_ret (map (\<lambda>d. (dv_serial d, dv_state d, dict_get (dv_serial d) (adopted_names us))) devices)))"

definition cmd_adopt_unit :: "'w host \<Rightarrow> string \<Rightarrow> string option \<Rightarrow> string \<Rightarrow> ('w, int) io" where
  "cmd_adopt_unit h name serial label =
     io_bind (resolve_serial h serial) (\<lambda>s.
     io_bind (create_unit h name s label) (\<lambda>u. io_ret EXIT_OK))"

section \<open>Modules\<close>

definition REMOTE_DIR :: string where "REMOTE_DIR = ''/data/local/tmp''"
definition MODULE_INSTALL_TIMEOUT_SECONDS :: int where "MODULE_INSTALL_TIMEOUT_SECONDS = 180"
definition CORE_MODULE_MARKER :: string where "CORE_MODULE_MARKER = ''core''"

definition is_core :: "string \<Rightarrow> bool" where
  "is_core name \<longleftrightarrow> contains_sub CORE_MODULE_MARKER name"

definition select_module_zips :: "string list \<Rightarrow> string list \<Rightarrow> string list" where
  "select_module_zips zips patterns =
     (let zs = sort_key (\<lambda>n. (\<not> is_core n, n)) zips
      in if patterns \<noteq> [] then filter (\<lambda>n. list_ex (\<lambda>p. contains_sub p n) patterns) zs else zs)"

definition is_adb_error :: "exn \<Rightarrow> bool" where
  "is_adb_error e = (case e of AdbError m \<Rightarrow> True | _ \<Rightarrow> False)"

definition install_module_zip :: "'w host \<Rightarrow> string \<Rightarrow> string \<Rightarrow> string \<Rightarrow> ('w, bool) io" where
  "install_module_zip h serial dir name =
     (let remote = REMOTE_DIR @ ''/'' @ name
      in io_bind (push_file h serial (dir @ ''/'' @ name) remote) (\<lambda>x.
         io_finally
           (io_catch (io_bind (run_as_root h serial (''magisk --install-module '' @ remote)
                MODULE_INSTALL_TIMEOUT_SECONDS) (\<lambda>out. io_ret True))
              (\<lambda>e. if is_adb_error e then io_ret False else io_raise e))
           (io_catch (io_bind (run_exec_out h serial [''rm'', ''-f'', remote] DEFAULT_TIMEOUT_SECONDS)
                (\<lambda>out. io_ret ()))
              (\<lambda>e. if is_adb_error e then io_ret () else io_raise e))))"

fun install_each :: "'w host \<Rightarrow> string \<Rightarrow> string \<Rightarrow> string list \<Rightarrow> ('w, bool) io" where
  "install_each h serial dir [] = io_ret True"
| "install_each h serial dir (z # zs) =
     io_bind (install_module_zip h serial dir z) (\<lambda>ok.
     if ok then install_each h serial dir zs else io_ret False)"

definition cmd_install_modules :: "'w host \<Rightarrow> ('w, bool) io \<Rightarrow> ('w, string list) io \<Rightarrow> string
     \<Rightarrow> string \<Rightarrow> string \<Rightarrow> string list \<Rightarrow> bool \<Rightarrow> bool \<Rightarrow> ('w, int) io" where
  "cmd_install_modules h build zips dir u serial patterns no_build reboot =
     io_bind (resolve_target h u serial) (\<lambda>tg.
     io_bind (if no_build then io_ret True else build) (\<lambda>built.
     if \<not> built then io_ret EXIT_FAILURE
     else io_bind zips (\<lambda>found.
       if select_module_zips found patterns = [] then io_ret EXIT_FAILURE
       else io_bind (install_each h (tg_serial tg) dir (select_module_zips found patterns)) (\<lambda>ok.
         if \<not> ok then io_ret EXIT_FAILURE
         else if reboot
         then io_bind (run_exec_out h (tg_serial tg) [''reboot''] DEFAULT_TIMEOUT_SECONDS) (\<lambda>out. io_ret EXIT_OK)
         else io_ret EXIT_OK))))"

definition cmd_reboot_unit :: "'w host \<Rightarrow> string \<Rightarrow> string \<Rightarrow> ('w, int) io" where
  "cmd_reboot_unit h u serial =
     io_bind (resolve_target h u serial) (\<lambda>tg.
     io_bind (run_exec_out h (tg_serial tg) [''reboot''] DEFAULT_TIMEOUT_SECONDS) (\<lambda>out. io_ret EXIT_OK))"

section \<open>Plugins and reports\<close>

text \<open>The command line of the root shell is not quoted here: the plugin's name is pasted into it.\<close>

definition cmd_set_plugin_state :: "'w host \<Rightarrow> string \<Rightarrow> string \<Rightarrow> string \<Rightarrow> string \<Rightarrow> ('w, int) io" where
  "cmd_set_plugin_state h u serial command plugin_id =
     io_bind (resolve_target h u serial) (\<lambda>tg.
     io_bind (run_as_root h (tg_serial tg)
       (''rackphone '' @ (if command = ''enable'' then ''enable'' else ''disable'') @ '' '' @ plugin_id)
       ROOT_TIMEOUT_SECONDS) (\<lambda>out. io_ret EXIT_OK))"

definition STATUS_TIMEOUT_SECONDS :: int where "STATUS_TIMEOUT_SECONDS = 60"

definition cmd_report :: "string \<Rightarrow> 'w host \<Rightarrow> string \<Rightarrow> string \<Rightarrow> ('w, string) io" where
  "cmd_report verb h u serial =
     io_bind (resolve_target h u serial) (\<lambda>tg.
     run_device_cli h (tg_serial tg) [verb] STATUS_TIMEOUT_SECONDS)"

definition cmd_run_doctor :: "'w host \<Rightarrow> string \<Rightarrow> string \<Rightarrow> ('w, string) io" where
  "cmd_run_doctor h u serial = io_bind (cmd_report ''doctor'' h u serial) (\<lambda>out. io_ret (rstrip out))"

definition cmd_print_metrics :: "'w host \<Rightarrow> string \<Rightarrow> string \<Rightarrow> ('w, string) io" where
  "cmd_print_metrics h u serial = cmd_report ''metrics'' h u serial"

section \<open>Starting the gateway\<close>

text \<open>
  The configuration of \<open>run_gateway\<close>: loaded, then changed by \<open>--host\<close> and \<open>--port\<close>; an absent
  option is the empty text or 0. \<open>None\<close> when a filter rule cannot be honoured.
\<close>

definition gateway_command_config :: "(string \<Rightarrow> string option) \<Rightarrow> environ \<Rightarrow> (string \<times> json) list option
     \<Rightarrow> gateway_config option result" where
  "gateway_command_config bad env file =
     (case load_config bad env file of
        Inl e \<Rightarrow> (case e of FilterConfigError m \<Rightarrow> Inr None | _ \<Rightarrow> Inl e)
      | Inr c \<Rightarrow> Inr (Some c))"

definition bound_config :: "string \<Rightarrow> int \<Rightarrow> gateway_config \<Rightarrow> gateway_config" where
  "bound_config host port c =
     (let c1 = (if host \<noteq> [] then c\<lparr>gc_api_host := host\<rparr> else c)
      in if port \<noteq> 0 then c1\<lparr>gc_api_port := port\<rparr> else c1)"

definition drain_once :: "'w host \<Rightarrow> gateway_config \<Rightarrow> int \<Rightarrow> ('w gateway, int) io" where
  "drain_once h c now =
     io_bind (run_once h c now) (\<lambda>stored.
     io_bind (io_read (\<lambda>g. gs_errors (gw_stats g))) (\<lambda>errors.
     io_ret (if errors \<noteq> 0 then EXIT_FAILURE else EXIT_OK)))"

section \<open>Properties\<close>

lemma sorted_core:
  assumes "sorted_wrt (\<lambda>a b. (\<not> is_core a, a) \<le> (\<not> is_core b, b)) zs"
  shows "filter is_core zs @ filter (\<lambda>n. \<not> is_core n) zs = zs"
  using assms
proof (induction zs)
  case (Cons z zs)
  show ?case
  proof (cases "is_core z")
    case False
    then have "filter is_core zs = []" using Cons.prems by (auto simp: filter_empty_conv)
    then show ?thesis using False Cons by simp
  qed (use Cons in simp)
qed simp

text \<open>
  The modules are installed with the core first: the selected files are those of the directory
  that match a pattern, each as often as it is there, and no plugin precedes a core module.
\<close>

theorem core_modules_first:
  "filter is_core (select_module_zips zips ps) @ filter (\<lambda>n. \<not> is_core n) (select_module_zips zips ps)
     = select_module_zips zips ps \<and>
   mset (select_module_zips zips ps) =
     filter_mset (\<lambda>n. ps = [] \<or> list_ex (\<lambda>p. contains_sub p n) ps) (mset zips)"
proof -
  let ?k = "\<lambda>n. (\<not> is_core n, n)"
  have "sorted (map ?k (sort_key ?k zips))" by simp
  then have s: "sorted_wrt (\<lambda>a b. ?k a \<le> ?k b) (sort_key ?k zips)" unfolding sorted_map .
  then have "sorted_wrt (\<lambda>a b. ?k a \<le> ?k b) (select_module_zips zips ps)"
    unfolding select_module_zips_def Let_def using sorted_wrt_filter' [OF s] by simp
  then have "filter is_core (select_module_zips zips ps) @ filter (\<lambda>n. \<not> is_core n) (select_module_zips zips ps)
      = select_module_zips zips ps"
    by (rule sorted_core)
  moreover have "mset (select_module_zips zips ps) =
      filter_mset (\<lambda>n. ps = [] \<or> list_ex (\<lambda>p. contains_sub p n) ps) (mset zips)"
    by (cases "ps = []") (simp_all add: select_module_zips_def Let_def mset_filter)
  ultimately show ?thesis by blast
qed


end
