(* ===== verification/Contacts.thy ===== *)
theory Contacts
  imports Calls
begin

text \<open>
  The address book of a unit, \<open>gateway/contacts.py\<close>: reading it through the companion, and the
  cache \<open>ContactBook\<close> that several request threads share. The cache's lock covers the look-up and
  the store, but not the read of the phone between them, so requests interleave there; the last
  section is that interleaving as a step relation. Clock readings are integers.
\<close>

definition DEFAULT_CONTACTS_TIMEOUT_SECONDS :: int where "DEFAULT_CONTACTS_TIMEOUT_SECONDS = 30"
definition CONTACTS_TTL_SECONDS :: int where "CONTACTS_TTL_SECONDS = 300"

section \<open>Reading\<close>

record contact =
  ct_name :: string
  ct_number :: string
  ct_normalized :: json

definition contacts_error :: "string \<Rightarrow> exn" where
  "contacts_error m = BoundaryError ContactsBoundary True m"

text \<open>\<open>str(exc)\<close> of a device fault; the text of a timeout is abbreviated.\<close>

definition fault_text :: "exn \<Rightarrow> string" where
  "fault_text e = (case e of AdbError m \<Rightarrow> m | _ \<Rightarrow> ''Command timed out'')"

definition contact_of :: "json \<Rightarrow> contact list" where
  "contact_of v =
     (case v of
        JObj ms \<Rightarrow>
          if json_truthy (obj_get ''name'' ms) \<and> json_truthy (obj_get ''number'' ms)
          then [\<lparr>ct_name = json_str (obj_get ''name'' ms), ct_number = json_str (obj_get ''number'' ms),
                 ct_normalized = (if json_truthy (obj_get ''normalized'' ms)
                   then obj_get ''normalized'' ms else JNull)\<rparr>]
          else []
      | _ \<Rightarrow> [])"

definition contacts_outcome :: "string \<Rightarrow> json option \<Rightarrow> contact list result" where
  "contacts_outcome u doc =
     (case doc of
        Some (JArr vs) \<Rightarrow> Inr (concat (map contact_of vs))
      | _ \<Rightarrow> Inl (contacts_error (''unit '' @ py_repr u @ '' returned an invalid address book'')))"

definition read_contacts :: "'w host \<Rightarrow> int \<Rightarrow> string \<Rightarrow> ('w, contact list) io" where
  "read_contacts h timeout u =
     io_bind (load_unit h u) (\<lambda>target.
     io_bind (on_fault (io_bind (resolve_serial h (un_serial target)) (\<lambda>s.
         run_device_cli h s [''action'', COMPANION_PLUGIN, ''contacts''] timeout))
       (\<lambda>e. contacts_error (''unit '' @ py_repr u @ '' could not export its contacts: '' @ fault_text e))) (\<lambda>out.
     io_lift (contacts_outcome u (json_loads out))))"

section \<open>The cache\<close>

type_synonym book = "(string, int \<times> contact list) dict"

definition empty_book :: book where
  "empty_book = []"

text \<open>The two critical sections of \<open>ContactBook.get\<close>.\<close>

definition book_hit :: "int \<Rightarrow> int \<Rightarrow> string \<Rightarrow> bool \<Rightarrow> book \<Rightarrow> contact list option" where
  "book_hit ttl now u refresh b =
     (case dict_get u b of
        Some (read_at, cs) \<Rightarrow> if \<not> refresh \<and> now - read_at < ttl then Some cs else None
      | None \<Rightarrow> None)"

definition book_store :: "int \<Rightarrow> string \<Rightarrow> contact list \<Rightarrow> book \<Rightarrow> book" where
  "book_store now u cs b = dict_set u (now, cs) b"

definition book_get ::
  "(string \<Rightarrow> ('w, contact list) io) \<Rightarrow> int \<Rightarrow> int \<Rightarrow> string \<Rightarrow> bool \<Rightarrow> (book \<times> 'w, contact list) io" where
  "book_get reader ttl now u refresh =
     (\<lambda>(b, w). case book_hit ttl now u refresh b of
        Some cs \<Rightarrow> (Inr cs, (b, w))
      | None \<Rightarrow> (case reader u w of
            (Inl e, w') \<Rightarrow> (Inl e, (b, w'))
          | (Inr cs, w') \<Rightarrow> (Inr cs, (book_store now u cs b, w'))))"

section \<open>Requests that interleave\<close>

text \<open>
  A request reads the clock and looks in the cache in one step; on a miss it goes to the phone,
  and stores and returns what it read in another. \<open>sy_reads\<close> and \<open>sy_answers\<close> record what
  happened: every completed read with the time its request began, and every answer given.
\<close>

record book_system =
  sy_book :: book
  sy_reading :: "(string \<times> int \<times> bool) list"
  sy_reads :: "(string \<times> int \<times> contact list) set"
  sy_answers :: "(string \<times> int \<times> bool \<times> contact list) list"

definition idle_system :: book_system where
  "idle_system = \<lparr>sy_book = empty_book, sy_reading = [], sy_reads = {}, sy_answers = []\<rparr>"

inductive book_step :: "int \<Rightarrow> book_system \<Rightarrow> book_system \<Rightarrow> bool" for ttl where
  hit: "book_hit ttl now u refresh (sy_book s) = Some cs \<Longrightarrow>
    book_step ttl s (s\<lparr>sy_answers := (u, now, refresh, cs) # sy_answers s\<rparr>)"
| miss: "book_hit ttl now u refresh (sy_book s) = None \<Longrightarrow>
    book_step ttl s (s\<lparr>sy_reading := (u, now, refresh) # sy_reading s\<rparr>)"
| fill: "(u, now, refresh) \<in> set (sy_reading s) \<Longrightarrow>
    book_step ttl s (s\<lparr>sy_reading := remove1 (u, now, refresh) (sy_reading s),
      sy_book := book_store now u cs (sy_book s), sy_reads := insert (u, now, cs) (sy_reads s),
      sy_answers := (u, now, refresh, cs) # sy_answers s\<rparr>)"
| failed: "(u, now, refresh) \<in> set (sy_reading s) \<Longrightarrow>
    book_step ttl s (s\<lparr>sy_reading := remove1 (u, now, refresh) (sy_reading s)\<rparr>)"

inductive_cases book_stepE: "book_step ttl s s'"

inductive book_reaches :: "int \<Rightarrow> book_system \<Rightarrow> bool" for ttl where
  start: "book_reaches ttl idle_system"
| step: "book_reaches ttl s \<Longrightarrow> book_step ttl s s' \<Longrightarrow> book_reaches ttl s'"

definition fresh_answer :: "int \<Rightarrow> (string \<times> int \<times> contact list) set \<Rightarrow> string \<times> int \<times> bool \<times> contact list \<Rightarrow> bool" where
  "fresh_answer ttl reads = (\<lambda>(u, now, refresh, cs).
     \<exists>read_at. (u, read_at, cs) \<in> reads \<and> (if refresh then read_at = now else read_at = now \<or> now - read_at < ttl))"

definition book_ok :: "int \<Rightarrow> book_system \<Rightarrow> bool" where
  "book_ok ttl s \<longleftrightarrow>
     (\<forall>u t cs. dict_get u (sy_book s) = Some (t, cs) \<longrightarrow> (u, t, cs) \<in> sy_reads s) \<and>
     (\<forall>a \<in> set (sy_answers s). fresh_answer ttl (sy_reads s) a)"

lemma fresh_answer_more: "fresh_answer ttl R a \<Longrightarrow> R \<subseteq> R' \<Longrightarrow> fresh_answer ttl R' a"
  by (auto simp: fresh_answer_def split: prod.splits)

lemma book_ok_step: "book_step ttl s s' \<Longrightarrow> book_ok ttl s \<Longrightarrow> book_ok ttl s'"
proof (induction rule: book_step.induct)
  case (hit now u refresh s cs)
  then obtain t where "dict_get u (sy_book s) = Some (t, cs)" "\<not> refresh" "now - t < ttl"
    by (auto simp: book_hit_def split: option.splits if_splits)
  with hit.prems have "fresh_answer ttl (sy_reads s) (u, now, refresh, cs)"
    by (auto simp: book_ok_def fresh_answer_def)
  with hit.prems show ?case by (simp add: book_ok_def)
next
  case (fill u now refresh s cs)
  then have "fresh_answer ttl (insert (u, now, cs) (sy_reads s)) a" if "a \<in> set (sy_answers s)" for a
    using fresh_answer_more [of ttl "sy_reads s" a] that by (auto simp: book_ok_def)
  with fill show ?case
    by (auto simp: book_ok_def book_store_def fresh_answer_def)
qed (simp_all add: book_ok_def)

lemma reaches_book_ok: "book_reaches ttl s \<Longrightarrow> book_ok ttl s"
proof (induction rule: book_reaches.induct)
  case start
  show ?case by (simp add: idle_system_def empty_book_def book_ok_def)
next
  case (step s s')
  then show ?case using book_ok_step by blast
qed

text \<open>The sequential operation is a run of the steps.\<close>

lemma book_get_steps:
  assumes "book_get reader ttl now u refresh (sy_book s, w) = (Inr cs, (b', w'))"
  shows "\<exists>s'. (book_step ttl)\<^sup>*\<^sup>* s s' \<and> sy_book s' = b' \<and> sy_reading s' = sy_reading s \<and>
    sy_answers s' = (u, now, refresh, cs) # sy_answers s"
proof (cases "book_hit ttl now u refresh (sy_book s)")
  case (Some cs')
  then have "cs' = cs" "b' = sy_book s" using assms by (auto simp: book_get_def)
  then show ?thesis
    using hit [OF Some] by (intro exI [of _ "s\<lparr>sy_answers := (u, now, refresh, cs) # sy_answers s\<rparr>"]) auto
next
  case None
  then have b: "b' = book_store now u cs (sy_book s)"
    using assms by (auto simp: book_get_def split: prod.splits sum.splits)
  let ?m = "s\<lparr>sy_reading := (u, now, refresh) # sy_reading s\<rparr>"
  have "book_step ttl s ?m" by (rule miss [OF None])
  moreover have "book_step ttl ?m (?m\<lparr>sy_reading := remove1 (u, now, refresh) (sy_reading ?m),
      sy_book := book_store now u cs (sy_book ?m), sy_reads := insert (u, now, cs) (sy_reads ?m),
      sy_answers := (u, now, refresh, cs) # sy_answers ?m\<rparr>)" (is "book_step ttl ?m ?f")
    by (rule fill) simp
  ultimately have "(book_step ttl)\<^sup>*\<^sup>* s ?f" by (meson converse_rtranclp_into_rtranclp r_into_rtranclp)
  then show ?thesis using b by (intro exI [of _ ?f]) simp
qed

section \<open>Properties\<close>

text \<open>
  However requests for address books interleave, each answer is the outcome of one completed read
  of that very unit: a read the request itself made, or, unless it asked for a fresh copy, one
  whose own request began less than the time to live before it.
\<close>

theorem contacts_never_stale:
  assumes "book_reaches ttl s" and "(u, now, refresh, cs) \<in> set (sy_answers s)"
  shows "\<exists>read_at. (u, read_at, cs) \<in> sy_reads s \<and>
    (read_at = now \<or> \<not> refresh \<and> now - read_at < ttl)"
  using reaches_book_ok [OF assms(1)] assms(2)
  by (auto simp: book_ok_def fresh_answer_def split: if_splits)

definition sample_contact :: contact where
  "sample_contact = \<lparr>ct_name = ''Ada'', ct_number = ''112'', ct_normalized = JNull\<rparr>"

lemma sample_book_run:
  "book_reaches 300 \<lparr>sy_book = [(''lisa01'', 0, [sample_contact])], sy_reading = [],
     sy_reads = {(''lisa01'', 0, [sample_contact])},
     sy_answers = [(''lisa01'', 299, False, [sample_contact]), (''lisa01'', 0, True, [sample_contact])]\<rparr>"
proof -
  have "book_reaches 300 (idle_system\<lparr>sy_reading := [(''lisa01'', 0, True)]\<rparr>)" (is "book_reaches _ ?a")
    using book_reaches.step [OF book_reaches.start, OF miss [of 300 0 "''lisa01''" True idle_system]]
    by (simp add: idle_system_def empty_book_def book_hit_def)
  from book_reaches.step [OF this, OF fill [of "''lisa01''" 0 True ?a 300 "[sample_contact]"]]
  have "book_reaches 300 \<lparr>sy_book = [(''lisa01'', 0, [sample_contact])], sy_reading = [],
     sy_reads = {(''lisa01'', 0, [sample_contact])}, sy_answers = [(''lisa01'', 0, True, [sample_contact])]\<rparr>"
    (is "book_reaches _ ?b")
    by (simp add: idle_system_def empty_book_def book_store_def dict_set_def)
  from book_reaches.step [OF this, OF hit [of 300 299 "''lisa01''" False ?b "[sample_contact]"]]
  show ?thesis by (simp add: book_hit_def)
qed

theorem contacts_never_stale_witness:
  "\<exists>read_at. (''lisa01'', read_at, [sample_contact]) \<in> {(''lisa01'', 0, [sample_contact])} \<and>
     (read_at = 299 \<or> \<not> False \<and> (299::int) - read_at < 300)"
  using contacts_never_stale [OF sample_book_run, of "''lisa01''" 299 False "[sample_contact]"] by simp

end
