(* ===== verification/Session.thy ===== *)
theory Session
  imports Units
begin

text \<open>
  Leased ownership of a unit's screen or voice channel, \<open>gateway/session.py\<close>: the session table
  of a manager, its tunnels, and the device commands around them. The manager's lock makes
  each operation one step; its state is the host's world with the two tables.
\<close>

definition REMOTE_PLUGIN :: string where "REMOTE_PLUGIN = ''remote''"
definition REMOTE_SOCKET :: string where "REMOTE_SOCKET = ''localabstract:scrcpy''"
definition SOCKET_ID_LIMIT :: int where "SOCKET_ID_LIMIT = 0x80000000"
definition HEARTBEAT_TIMEOUT_SECONDS :: int where "HEARTBEAT_TIMEOUT_SECONDS = 30"

record tunnel =
  tn_port :: string
  tn_reverse_name :: "string option"
  tn_listener :: "int option"

record screen_session =
  sc_unit :: string
  sc_holder :: string
  sc_started_at :: int
  sc_last_seen :: int
  sc_local_port :: string

record manager =
  sm_plugin :: string
  sm_socket :: string
  sm_kind :: string
  sm_reverse :: bool

record 'w session_world =
  sw_host :: 'w
  sw_sessions :: "(string, screen_session) dict"
  sw_tunnels :: "(string, tunnel) dict"

definition same_session :: "screen_session option \<Rightarrow> screen_session option \<Rightarrow> bool" where
  "same_session current mine =
     (case (current, mine) of
        (Some a, Some b) \<Rightarrow> (sc_holder a, sc_started_at a, sc_local_port a) =
          (sc_holder b, sc_started_at b, sc_local_port b)
      | _ \<Rightarrow> False)"

section \<open>The device side\<close>

definition on_host :: "('w, 'a) io \<Rightarrow> ('w session_world, 'a) io" where
  "on_host m = (\<lambda>w. case m (sw_host w) of (r, v) \<Rightarrow> (r, w\<lparr>sw_host := v\<rparr>))"

definition session_serial :: "'w host \<Rightarrow> string \<Rightarrow> ('w, string) io" where
  "session_serial h u = io_bind (load_unit h u) (\<lambda>x. resolve_serial h (un_serial x))"

definition close_listener :: "'w host \<Rightarrow> tunnel \<Rightarrow> ('w, unit) io" where
  "close_listener h t = (case tn_listener t of None \<Rightarrow> io_ret () | Some l \<Rightarrow> ho_close h l)"

definition close_tunnel :: "'w host \<Rightarrow> string \<Rightarrow> tunnel option \<Rightarrow> ('w, unit) io" where
  "close_tunnel h serial tunnel =
     (case tunnel of
        None \<Rightarrow> io_ret ()
      | Some t \<Rightarrow>
          io_bind (io_catch (case tn_reverse_name t of
               Some name \<Rightarrow> remove_reverse h serial name
             | None \<Rightarrow> remove_forward h serial (''tcp:'' @ tn_port t)) (\<lambda>e. io_ret ()))
            (\<lambda>x. close_listener h t))"

definition open_reverse :: "'w host \<Rightarrow> string \<Rightarrow> string \<Rightarrow> ('w, tunnel) io" where
  "open_reverse h serial remote =
     io_bind (ho_listen h) (\<lambda>(listener, port_number).
     let port = show_int port_number
     in io_bind (io_catch (adb_reverse h serial remote (''tcp:'' @ port))
          (\<lambda>e. io_bind (ho_close h listener) (\<lambda>x. io_raise e))) (\<lambda>x.
        io_ret \<lparr>tn_port = port, tn_reverse_name = Some remote, tn_listener = Some listener\<rparr>))"

text \<open>Eight lower-case hexadecimal digits.\<close>

definition hex8 :: "int \<Rightarrow> string" where
  "hex8 n = map (\<lambda>i. ''0123456789abcdef'' ! (nat n div 16 ^ i mod 16)) [7, 6, 5, 4, 3, 2, 1, 0]"

definition stop_plugin :: "'w host \<Rightarrow> manager \<Rightarrow> string \<Rightarrow> ('w, unit) io" where
  "stop_plugin h m serial =
     io_catch (io_bind (run_device_cli h serial [''action'', sm_plugin m, ''stop'']
       DEFAULT_TIMEOUT_SECONDS) (\<lambda>out. io_ret ())) (\<lambda>e. io_ret ())"

text \<open>The commands of \<open>acquire\<close>: on any failure the tunnel and the device session are closed.\<close>

definition start_session :: "'w host \<Rightarrow> manager \<Rightarrow> string \<Rightarrow> ('w, tunnel) io" where
  "start_session h m u =
     io_bind (session_serial h u) (\<lambda>serial.
     io_bind (ho_randbelow h SOCKET_ID_LIMIT) (\<lambda>n.
     let socket_id = hex8 n; remote = sm_socket m @ ''_'' @ socket_id
     in io_bind (if sm_reverse m
          then io_bind (open_reverse h serial remote) (\<lambda>t. io_ret (Some t)) else io_ret None) (\<lambda>opened.
        io_catch
          (io_bind (run_device_cli h serial [''action'', sm_plugin m, ''start'', socket_id]
             DEFAULT_TIMEOUT_SECONDS) (\<lambda>out.
           case opened of
             Some t \<Rightarrow> io_ret t
           | None \<Rightarrow> io_bind (adb_forward h serial ''tcp:0'' remote) (\<lambda>port.
               io_ret \<lparr>tn_port = port, tn_reverse_name = None, tn_listener = None\<rparr>)))
          (\<lambda>e. io_bind (close_tunnel h serial opened) (\<lambda>x.
               io_bind (stop_plugin h m serial) (\<lambda>y. io_raise e))))))"

text \<open>The commands of \<open>_release_locked\<close>, which gives up when the device cannot be resolved.\<close>

definition stop_session :: "'w host \<Rightarrow> manager \<Rightarrow> string \<Rightarrow> tunnel option \<Rightarrow> ('w, unit) io" where
  "stop_session h m u tunnel =
     io_bind (io_catch (io_bind (io_bind (load_unit h u) (\<lambda>x. case un_serial x of
           Some s \<Rightarrow> if s = [] then resolve_serial h None else io_ret s
         | None \<Rightarrow> resolve_serial h None)) (\<lambda>s. io_ret (Some s))) (\<lambda>e. io_ret None)) (\<lambda>serial.
     case serial of
       None \<Rightarrow> io_ret ()
     | Some s \<Rightarrow> io_bind (close_tunnel h s tunnel) (\<lambda>x. stop_plugin h m s))"

section \<open>The session manager\<close>

definition release_locked :: "'w host \<Rightarrow> manager \<Rightarrow> string \<Rightarrow> ('w session_world, unit) io" where
  "release_locked h m u =
     (\<lambda>w. on_host (stop_session h m u (dict_get u (sw_tunnels w)))
            (w\<lparr>sw_sessions := dict_pop u (sw_sessions w)\<rparr>))"

definition lease_fresh :: "int \<Rightarrow> screen_session \<Rightarrow> bool" where
  "lease_fresh now s \<longleftrightarrow> now - sc_last_seen s \<le> HEARTBEAT_TIMEOUT_SECONDS"

definition open_session :: "'w host \<Rightarrow> manager \<Rightarrow> string \<Rightarrow> string \<Rightarrow> int
     \<Rightarrow> ('w session_world, screen_session) io" where
  "open_session h m u holder now =
     io_bind (on_host (start_session h m u)) (\<lambda>t w.
       let s = \<lparr>sc_unit = u, sc_holder = holder, sc_started_at = now, sc_last_seen = now,
                sc_local_port = tn_port t\<rparr>
       in (Inr s, w\<lparr>sw_sessions := dict_set u s (sw_sessions w),
                   sw_tunnels := dict_set u t (sw_tunnels w)\<rparr>))"

definition acquire :: "'w host \<Rightarrow> manager \<Rightarrow> string \<Rightarrow> string \<Rightarrow> int
     \<Rightarrow> ('w session_world, screen_session) io" where
  "acquire h m u holder now =
     (\<lambda>w. case dict_get u (sw_sessions w) of
        None \<Rightarrow> open_session h m u holder now w
      | Some current \<Rightarrow>
          if lease_fresh now current
          then (Inl (SessionBusy (sc_holder current) (sc_started_at current) (sm_kind m)), w)
          else io_bind (release_locked h m u) (\<lambda>x. open_session h m u holder now) w)"

definition listener :: "string \<Rightarrow> ('w session_world, int) io" where
  "listener u =
     (\<lambda>w. (case dict_get u (sw_tunnels w) of
        None \<Rightarrow> Inl (RuntimeError (u @ '' has no reverse tunnel''))
      | Some t \<Rightarrow> (case tn_listener t of
          None \<Rightarrow> Inl (RuntimeError (u @ '' has no reverse tunnel''))
        | Some l \<Rightarrow> Inr l), w))"

definition heartbeat :: "'w host \<Rightarrow> manager \<Rightarrow> string \<Rightarrow> int \<Rightarrow> string option
     \<Rightarrow> ('w session_world, screen_session option) io" where
  "heartbeat h m u now holder =
     (\<lambda>w. case dict_get u (sw_sessions w) of
        None \<Rightarrow> (Inr None, w)
      | Some current \<Rightarrow>
          if holder \<noteq> None \<and> holder \<noteq> Some (sc_holder current) then (Inr None, w)
          else if \<not> lease_fresh now current
          then io_bind (release_locked h m u) (\<lambda>x. io_ret None) w
          else let refreshed = current\<lparr>sc_last_seen := now\<rparr>
               in (Inr (Some refreshed), w\<lparr>sw_sessions := dict_set u refreshed (sw_sessions w)\<rparr>))"

definition release :: "'w host \<Rightarrow> manager \<Rightarrow> string \<Rightarrow> int \<Rightarrow> ('w session_world, unit) io" where
  "release h m u now = release_locked h m u"

definition take_over :: "'w host \<Rightarrow> manager \<Rightarrow> string \<Rightarrow> string \<Rightarrow> int
     \<Rightarrow> ('w session_world, screen_session) io" where
  "take_over h m u holder now = io_bind (release_locked h m u) (\<lambda>x. acquire h m u holder now)"

definition stale_units :: "int \<Rightarrow> 'w session_world \<Rightarrow> string list" where
  "stale_units now w =
     filter (\<lambda>u. case dict_get u (sw_sessions w) of Some s \<Rightarrow> \<not> lease_fresh now s | None \<Rightarrow> False)
       (dict_keys (sw_sessions w))"

fun release_each :: "'w host \<Rightarrow> manager \<Rightarrow> string list \<Rightarrow> ('w session_world, unit) io" where
  "release_each h m [] = io_ret ()"
| "release_each h m (u # us) = io_bind (release_locked h m u) (\<lambda>x. release_each h m us)"

definition reap :: "'w host \<Rightarrow> manager \<Rightarrow> int \<Rightarrow> ('w session_world, unit) io" where
  "reap h m now = (\<lambda>w. release_each h m (stale_units now w) w)"

definition get_session :: "string \<Rightarrow> 'w session_world \<Rightarrow> screen_session option" where
  "get_session u w = dict_get u (sw_sessions w)"

section \<open>Leases\<close>

text \<open>
  A resource held under a lease: operations carry a time, some of them may end or replace a
  holding, and any other leaves a holding whose lease has not run out, or renews it.
\<close>

locale lease =
  fixes held :: "'k \<Rightarrow> 's \<Rightarrow> ('h \<times> int) option"
    and apply_op :: "'op \<Rightarrow> 's \<Rightarrow> 's"
    and op_time :: "'op \<Rightarrow> int"
    and ends :: "'k \<Rightarrow> 'op \<Rightarrow> bool"
    and ttl :: int
  assumes kept: "held k s = Some (x, seen) \<Longrightarrow> \<not> ends k op \<Longrightarrow> op_time op - seen \<le> ttl \<Longrightarrow>
      \<exists>later. held k (apply_op op s) = Some (x, later) \<and> (later = seen \<or> later = op_time op)"
begin

lemma kept_run:
  "held k s = Some (x, seen) \<Longrightarrow> start \<le> seen \<Longrightarrow> seen \<le> start + ttl \<Longrightarrow>
     list_all (\<lambda>op. \<not> ends k op \<and> start \<le> op_time op \<and> op_time op \<le> start + ttl) ops \<Longrightarrow>
     \<exists>later. held k (fold apply_op ops s) = Some (x, later)"
proof (induction ops arbitrary: s seen)
  case (Cons op ops)
  then have "\<not> ends k op" "op_time op - seen \<le> ttl" by simp_all
  then obtain later where l: "held k (apply_op op s) = Some (x, later)"
      "later = seen \<or> later = op_time op"
    using kept [OF Cons.prems(1)] by blast
  then have "start \<le> later" "later \<le> start + ttl" using Cons.prems by auto
  then show ?case using Cons.IH [OF l(1)] Cons.prems(4) by simp
qed simp

end

datatype session_op =
    Acquire string string int
  | Heartbeat string int "string option"
  | Release string int
  | TakeOver string string int
  | Reap int

fun session_time :: "session_op \<Rightarrow> int" where
  "session_time (Acquire u holder now) = now"
| "session_time (Heartbeat u now holder) = now"
| "session_time (Release u now) = now"
| "session_time (TakeOver u holder now) = now"
| "session_time (Reap now) = now"

fun ends_session :: "string \<Rightarrow> session_op \<Rightarrow> bool" where
  "ends_session k (Release u now) = (u = k)"
| "ends_session k (TakeOver u holder now) = (u = k)"
| "ends_session k _ = False"

fun session_apply :: "'w host \<Rightarrow> manager \<Rightarrow> session_op \<Rightarrow> 'w session_world \<Rightarrow> 'w session_world" where
  "session_apply h m (Acquire u holder now) w = snd (acquire h m u holder now w)"
| "session_apply h m (Heartbeat u now holder) w = snd (heartbeat h m u now holder w)"
| "session_apply h m (Release u now) w = snd (release h m u now w)"
| "session_apply h m (TakeOver u holder now) w = snd (take_over h m u holder now w)"
| "session_apply h m (Reap now) w = snd (reap h m now w)"

definition holding :: "string \<Rightarrow> 'w session_world \<Rightarrow> ((string \<times> int \<times> string) \<times> int) option" where
  "holding u w = map_option (\<lambda>s. ((sc_holder s, sc_started_at s, sc_local_port s), sc_last_seen s))
     (get_session u w)"

section \<open>Lemmas\<close>

lemma on_host_frame [simp]:
  "sw_sessions (snd (on_host f w)) = sw_sessions w" "sw_tunnels (snd (on_host f w)) = sw_tunnels w"
  by (simp_all add: on_host_def split: prod.splits)

lemma release_locked_frame [simp]:
  "sw_sessions (snd (release_locked h m u w)) = dict_pop u (sw_sessions w)"
  "sw_tunnels (snd (release_locked h m u w)) = sw_tunnels w"
  by (simp_all add: release_locked_def)

lemma open_session_other:
  "k \<noteq> u \<Longrightarrow> dict_get k (sw_sessions (snd (open_session h m u holder now w))) = dict_get k (sw_sessions w)"
  by (simp add: open_session_def snd_io_bind Let_def split: sum.splits)

lemma acquire_other:
  "k \<noteq> u \<Longrightarrow> dict_get k (sw_sessions (snd (acquire h m u holder now w))) = dict_get k (sw_sessions w)"
  by (auto simp: acquire_def snd_io_bind open_session_other split: option.splits sum.splits)

lemma take_over_other:
  "k \<noteq> u \<Longrightarrow> dict_get k (sw_sessions (snd (take_over h m u holder now w))) = dict_get k (sw_sessions w)"
  by (auto simp: take_over_def snd_io_bind acquire_other split: sum.splits)

lemma heartbeat_other:
  "k \<noteq> u \<Longrightarrow> dict_get k (sw_sessions (snd (heartbeat h m u now holder w))) = dict_get k (sw_sessions w)"
  by (auto simp: heartbeat_def snd_io_bind Let_def split: option.splits sum.splits)

lemma release_each_other:
  "k \<notin> set us \<Longrightarrow> dict_get k (sw_sessions (snd (release_each h m us w))) = dict_get k (sw_sessions w)"
  by (induction us arbitrary: w) (auto simp: snd_io_bind split: sum.splits)

lemma stale_units_fresh:
  "dict_get k (sw_sessions w) = Some s \<Longrightarrow> lease_fresh now s \<Longrightarrow> k \<notin> set (stale_units now w)"
  by (simp add: stale_units_def)

lemma session_kept:
  assumes "dict_get k (sw_sessions w) = Some s" "\<not> ends_session k op"
    and "lease_fresh (session_time op) s"
  shows "\<exists>s'. dict_get k (sw_sessions (session_apply h m op w)) = Some s' \<and> same_session (Some s') (Some s) \<and>
    (sc_last_seen s' = sc_last_seen s \<or> sc_last_seen s' = session_time op)"
proof (cases op)
  case (Acquire u holder now)
  show ?thesis
  proof (cases "u = k")
    case True
    then show ?thesis using Acquire assms by (simp add: acquire_def same_session_def)
  next
    case False
    then show ?thesis using Acquire assms by (simp add: acquire_other same_session_def)
  qed
next
  case (Heartbeat u now holder)
  show ?thesis
  proof (cases "u = k")
    case True
    then show ?thesis using Heartbeat assms by (auto simp: heartbeat_def same_session_def Let_def)
  next
    case False
    then show ?thesis using Heartbeat assms by (simp add: heartbeat_other same_session_def)
  qed
next
  case (Release u now)
  then show ?thesis using assms by (simp add: release_def same_session_def)
next
  case (TakeOver u holder now)
  then show ?thesis using assms by (simp add: take_over_other same_session_def)
next
  case (Reap now)
  then have "k \<notin> set (stale_units now w)" using stale_units_fresh assms by simp
  then show ?thesis using Reap assms by (simp add: release_each_other reap_def same_session_def)
qed

interpretation screen: lease holding "session_apply h m" session_time ends_session HEARTBEAT_TIMEOUT_SECONDS
proof
  fix k and w :: "'a session_world" and x seen op
  assume held: "holding k w = Some (x, seen)" and op: "\<not> ends_session k op"
    and t: "session_time op - seen \<le> HEARTBEAT_TIMEOUT_SECONDS"
  from held obtain s where s: "dict_get k (sw_sessions w) = Some s"
      "x = (sc_holder s, sc_started_at s, sc_local_port s)" "seen = sc_last_seen s"
    by (auto simp: holding_def get_session_def)
  with t have "lease_fresh (session_time op) s" by (simp add: lease_fresh_def)
  then obtain s' where "dict_get k (sw_sessions (session_apply h m op w)) = Some s'"
      "same_session (Some s') (Some s)" "sc_last_seen s' = seen \<or> sc_last_seen s' = session_time op"
    using session_kept [OF s(1) op] s(3) by blast
  with s(2) show
    "\<exists>later. holding k (session_apply h m op w) = Some (x, later) \<and> (later = seen \<or> later = session_time op)"
    by (auto simp: holding_def get_session_def same_session_def)
qed

lemma open_session_Inr:
  "open_session h m u holder now w = (Inr s, w') \<Longrightarrow>
     get_session u w' = Some s \<and> sc_holder s = holder \<and> sc_started_at s = now \<and> sc_last_seen s = now \<and>
     sc_unit s = u"
  by (auto simp: open_session_def io_bind_Inr get_session_def Let_def)

section \<open>Properties\<close>

text \<open>
  C22. A unit has one holder: acquiring a unit whose lease is fresh is refused with the
  holder's name and start, without touching the device or any table, and an acquisition that
  succeeds found no fresh lease and leaves the new holder's session, starting now.
\<close>

theorem acquire_is_exclusive:
  "(case get_session u w of
      Some s \<Rightarrow> lease_fresh now s \<and> acquire h m u holder now w =
                  (Inl (SessionBusy (sc_holder s) (sc_started_at s) (sm_kind m)), w)
    | None \<Rightarrow> False) \<or>
   (case get_session u w of Some s \<Rightarrow> now - sc_last_seen s > 30 | None \<Rightarrow> True) \<and>
   (case acquire h m u holder now w of
      (Inl e, w') \<Rightarrow> get_session u w' = None
    | (Inr s, w') \<Rightarrow> get_session u w' = Some s \<and> sc_holder s = holder \<and> sc_started_at s = now)"
proof (cases "get_session u w")
  case None
  have "get_session u w' = None" if "open_session h m u holder now w = (Inl e, w')" for e w'
  proof -
    have "sw_sessions w' = sw_sessions (snd (on_host (start_session h m u) w))"
      using that by (auto simp: open_session_def io_bind_Inl Let_def)
    then show ?thesis using None by (simp add: get_session_def)
  qed
  then show ?thesis
    using None open_session_Inr [of h m u holder now w]
    by (auto simp: acquire_def get_session_def split: prod.splits sum.splits)
next
  case (Some s)
  show ?thesis
  proof (cases "lease_fresh now s")
    case True
    then show ?thesis using Some by (simp add: acquire_def get_session_def)
  next
    case False
    let ?m = "io_bind (release_locked h m u) (\<lambda>x. open_session h m u holder now)"
    have eq: "acquire h m u holder now w = ?m w"
      using Some False by (simp add: acquire_def get_session_def)
    have "get_session u w' = None" if e: "?m w = (Inl e, w')" for e w'
    proof -
      have rel: "get_session u (snd (release_locked h m u w)) = None" by (simp add: get_session_def)
      from e consider "release_locked h m u w = (Inl e, w')"
        | x w1 where "release_locked h m u w = (Inr x, w1)" "open_session h m u holder now w1 = (Inl e, w')"
        unfolding io_bind_Inl by blast
      then show ?thesis
      proof cases
        case 1
        then show ?thesis using rel by simp
      next
        case 2
        then have "sw_sessions w' = sw_sessions (snd (on_host (start_session h m u) w1))"
          by (auto simp: open_session_def io_bind_Inl Let_def)
        then show ?thesis using rel 2 by (simp add: get_session_def)
      qed
    qed
    moreover have "get_session u w' = Some s' \<and> sc_holder s' = holder \<and> sc_started_at s' = now"
      if "?m w = (Inr s', w')" for s' w'
      using that open_session_Inr unfolding io_bind_Inr by blast
    ultimately show ?thesis
      using Some False unfolding eq
      by (auto simp: lease_fresh_def HEARTBEAT_TIMEOUT_SECONDS_def split: prod.splits sum.splits)
  qed
qed

text \<open>
  C23. A holder keeps its unit for the whole lease: whatever other clients and the reaper do in
  the thirty seconds after a sign of life, short of releasing or taking over that unit, the
  same session is still there.
\<close>

theorem holder_keeps_lease:
  assumes "get_session u w = Some s"
    and "list_all (\<lambda>op. \<not> ends_session u op \<and> sc_last_seen s \<le> session_time op \<and>
      session_time op \<le> sc_last_seen s + HEARTBEAT_TIMEOUT_SECONDS) ops"
  shows "same_session (get_session u (fold (session_apply h m) ops w)) (Some s)"
proof -
  have "holding u w = Some ((sc_holder s, sc_started_at s, sc_local_port s), sc_last_seen s)"
    using assms(1) by (simp add: holding_def)
  from screen.kept_run [OF this _ _ assms(2)]
  obtain later where "holding u (fold (session_apply h m) ops w) =
      Some ((sc_holder s, sc_started_at s, sc_local_port s), later)"
    by (auto simp: HEARTBEAT_TIMEOUT_SECONDS_def)
  then show ?thesis by (auto simp: holding_def same_session_def)
qed

definition sample_session :: screen_session where
  "sample_session = \<lparr>sc_unit = ''lisa01'', sc_holder = ''laptop'', sc_started_at = 100,
     sc_last_seen = 110, sc_local_port = ''4000''\<rparr>"

definition screen_manager :: manager where
  "screen_manager = \<lparr>sm_plugin = REMOTE_PLUGIN, sm_socket = REMOTE_SOCKET, sm_kind = ''screen'',
     sm_reverse = True\<rparr>"

theorem holder_keeps_lease_witness:
  "same_session (get_session ''lisa01'' (fold (session_apply sample_host screen_manager)
      [Acquire ''lisa01'' ''phone'' 120, Reap 125, Release ''lisa02'' 130,
       Heartbeat ''lisa01'' 140 (Some ''phone'')]
      \<lparr>sw_host = (), sw_sessions = [(''lisa01'', sample_session)], sw_tunnels = []\<rparr>))
    (Some sample_session)"
  by (rule holder_keeps_lease)
     (simp_all add: get_session_def sample_session_def HEARTBEAT_TIMEOUT_SECONDS_def)

text \<open>
  Releasing a unit keeps its tunnel on the books: the listener of the ended session is
  still handed out afterwards, although its socket has been closed.
\<close>

theorem released_listener_still_returned:
  "fst (listener u (snd (release h m u now w))) = fst (listener u w)"
  by (simp add: listener_def release_def)

end
