(* ===== verification/Auth.thy ===== *)
theory Auth
  imports PyStr
begin

text \<open>
  The credential primitives, \<open>gateway/auth.py\<close>: password records, time-based codes, signed
  access tokens and scopes. Bytes are \<open>char\<close>s. Base64 and base32 are defined here; the
  hashes \<open>hashlib\<close> and \<open>hmac\<close> provide are parameters: \<open>scrypt\<close> of a password and its cost
  profile, and \<open>mac key message\<close> for either HMAC. Random bytes are arguments.
\<close>

unbundle bit_operations_syntax

section \<open>Base64\<close>

definition sextet_char :: "nat \<Rightarrow> char" where
  "sextet_char n =
     (if n < 26 then char_of (65 + n) else if n < 52 then char_of (71 + n)
      else if n < 62 then char_of (n - 4) else if n = 62 then CHR ''+'' else CHR ''/'')"

definition char_sextet :: "char \<Rightarrow> nat option" where
  "char_sextet c =
     (if 65 \<le> code c \<and> code c \<le> 90 then Some (code c - 65)
      else if 97 \<le> code c \<and> code c \<le> 122 then Some (code c - 71)
      else if 48 \<le> code c \<and> code c \<le> 57 then Some (code c + 4)
      else if c = CHR ''+'' then Some 62 else if c = CHR ''/'' then Some 63 else None)"

fun b64_sextets :: "string \<Rightarrow> nat list" where
  "b64_sextets [] = []"
| "b64_sextets [x] = [code x div 4, code x mod 4 * 16]"
| "b64_sextets [x, y] = [code x div 4, code x mod 4 * 16 + code y div 16, code y mod 16 * 4]"
| "b64_sextets (x # y # z # r) =
     [code x div 4, code x mod 4 * 16 + code y div 16, code y mod 16 * 4 + code z div 64,
      code z mod 64] @ b64_sextets r"

fun b64_bytes :: "nat list \<Rightarrow> string" where
  "b64_bytes [] = []"
| "b64_bytes [a] = []"
| "b64_bytes [a, b] = [char_of (a * 4 + b div 16)]"
| "b64_bytes [a, b, c] = [char_of (a * 4 + b div 16), char_of (b mod 16 * 16 + c div 4)]"
| "b64_bytes (a # b # c # d # r) =
     [char_of (a * 4 + b div 16), char_of (b mod 16 * 16 + c div 4),
      char_of (c mod 4 * 64 + d)] @ b64_bytes r"

definition b64encode :: "string \<Rightarrow> string" where
  "b64encode bs =
     map sextet_char (b64_sextets bs) @ replicate ((3 - length bs mod 3) mod 3) (CHR ''='')"

text \<open>
  The strict decoder: alphabet characters, then the padding their number calls for; bits
  beyond the last byte are ignored.
\<close>

definition b64decode :: "string \<Rightarrow> string option" where
  "b64decode s =
     (let data = takeWhile (\<lambda>c. c \<noteq> CHR ''='') s;
          pads = dropWhile (\<lambda>c. c \<noteq> CHR ''='') s
      in if list_all (\<lambda>c. c = CHR ''='') pads \<and>
            (length data mod 4, length pads) \<in> {(0, 0), (2, 2), (3, 1)}
         then map_option b64_bytes (all_some (map char_sextet data))
         else None)"

lemma code_less [simp]: "code c < 256"
  by (simp add: code_def)

lemma char_of_code [simp]: "char_of (code c) = c"
  by (simp add: code_def)

lemma code_eq: "code c = code d \<longleftrightarrow> c = d"
  by (simp add: code_def)

lemma code_plus [simp]: "code (CHR ''+'') = 43" and code_slash [simp]: "code (CHR ''/'') = 47"
  by (simp_all add: code_def)

lemma char_sextet_char: "n < 64 \<Longrightarrow> char_sextet (sextet_char n) = Some n"
proof -
  assume "n < 64"
  then consider "n < 26" | "26 \<le> n" "n < 52" | "52 \<le> n" "n < 62" | "n = 62" | "n = 63"
    by linarith
  then show ?thesis
  proof cases
    case 3
    then have "code (char_of (n - 4)) = n - 4" "48 \<le> n - 4" "n - 4 \<le> 57" by simp_all
    with 3 show ?thesis by (simp add: char_sextet_def sextet_char_def)
  qed (simp_all add: char_sextet_def sextet_char_def)
qed

lemma sextets_bound: "\<forall>n \<in> set (b64_sextets bs). n < 64"
proof (induction bs rule: b64_sextets.induct)
  case (2 x)
  show ?case using code_less [of x] by (simp del: code_less)
next
  case (3 x y)
  have "code x < 256" "code y < 256" by simp_all
  then show ?case by (simp del: code_less; linarith)
next
  case (4 x y z r)
  have "code x < 256" "code y < 256" "code z < 256" by simp_all
  with 4 show ?case by (simp del: code_less; linarith)
qed simp

lemma b64_bytes_sextets: "b64_bytes (b64_sextets bs) = bs"
proof (induction bs rule: b64_sextets.induct)
  case (2 x)
  have "code x div 4 * 4 + code x mod 4 * 16 div 16 = code x" by simp
  then show ?case by simp
next
  case (3 x y)
  have "code y div 16 < 16" using code_less [of y] by (simp del: code_less)
  then have "code x div 4 * 4 + (code x mod 4 * 16 + code y div 16) div 16 = code x"
    "(code x mod 4 * 16 + code y div 16) mod 16 * 16 + code y mod 16 * 4 div 4 = code y"
    by simp_all
  then show ?case by simp
next
  case (4 x y z r)
  have "code y div 16 < 16" "code z div 64 < 4"
    using code_less [of y] code_less [of z] by (simp_all del: code_less)
  then have "code x div 4 * 4 + (code x mod 4 * 16 + code y div 16) div 16 = code x"
    "(code x mod 4 * 16 + code y div 16) mod 16 * 16 + (code y mod 16 * 4 + code z div 64) div 4 =
       code y"
    "(code y mod 16 * 4 + code z div 64) mod 4 * 64 + code z mod 64 = code z"
    by simp_all
  with 4 show ?case by simp
qed simp

lemma all_some_map: "\<forall>x \<in> set xs. f (g x) = Some x \<Longrightarrow> all_some (map f (map g xs)) = Some xs"
  by (induction xs) auto

lemma sextet_char_no_pad: "n < 64 \<Longrightarrow> sextet_char n \<noteq> CHR ''=''"
  using char_sextet_char [of n] by (auto simp: char_sextet_def code_def)

lemma length_sextets:
  "(length (b64_sextets bs) mod 4, (3 - length bs mod 3) mod 3) \<in> {(0, 0), (2, 2), (3, 1)}"
proof (induction bs rule: b64_sextets.induct)
  case (4 x y z r)
  have "length (x # y # z # r) mod 3 = length r mod 3"
    "length (b64_sextets (x # y # z # r)) mod 4 = length (b64_sextets r) mod 4"
    by simp_all
  with 4 show ?case by (simp only:)
qed simp_all

lemma takeWhile_no_pad: "\<forall>c \<in> set xs. c \<noteq> p \<Longrightarrow>
    takeWhile (\<lambda>c. c \<noteq> p) (xs @ replicate n p) = xs \<and>
    dropWhile (\<lambda>c. c \<noteq> p) (xs @ replicate n p) = replicate n p"
  by (induction xs) (cases n; simp)+

lemma b64decode_sextets:
  assumes "(length (b64_sextets bs) mod 4, n) \<in> {(0, 0), (2, 2), (3, 1)}"
  shows "b64decode (map sextet_char (b64_sextets bs) @ replicate n (CHR ''='')) = Some bs"
proof -
  have "\<forall>c \<in> set (map sextet_char (b64_sextets bs)). c \<noteq> CHR ''=''"
    using sextets_bound sextet_char_no_pad by auto
  note tw = takeWhile_no_pad [OF this, of n]
  have "all_some (map char_sextet (map sextet_char (b64_sextets bs))) = Some (b64_sextets bs)"
    using sextets_bound char_sextet_char by (intro all_some_map) blast
  then have "map_option b64_bytes (all_some (map char_sextet (map sextet_char (b64_sextets bs)))) =
      Some bs"
    by (simp add: b64_bytes_sextets)
  moreover have "list_all (\<lambda>c. c = CHR ''='') (replicate n (CHR ''=''))"
    by (simp add: list_all_iff)
  ultimately show ?thesis
    unfolding b64decode_def Let_def conjunct1 [OF tw] conjunct2 [OF tw]
    using assms by (simp only: length_map length_replicate simp_thms if_True)
qed

lemma b64_roundtrip: "b64decode (b64encode bs) = Some bs"
  unfolding b64encode_def by (rule b64decode_sextets) (rule length_sextets)

text \<open>
  The URL-safe form without padding: \<open>-\<close> and \<open>_\<close> for \<open>+\<close> and \<open>/\<close>. The decoder restores
  as many padding characters as the length asks for, and translates the two characters
  back, leaving \<open>+\<close> and \<open>/\<close> themselves acceptable.
\<close>

definition to_urlsafe :: "char \<Rightarrow> char" where
  "to_urlsafe c = (if c = CHR ''+'' then CHR ''-'' else if c = CHR ''/'' then CHR ''_'' else c)"

definition from_urlsafe :: "char \<Rightarrow> char" where
  "from_urlsafe c = (if c = CHR ''-'' then CHR ''+'' else if c = CHR ''_'' then CHR ''/'' else c)"

definition rstrip_char :: "char \<Rightarrow> string \<Rightarrow> string" where
  "rstrip_char p s = rev (dropWhile (\<lambda>c. c = p) (rev s))"

definition urlsafe_encode :: "string \<Rightarrow> string" where
  "urlsafe_encode value = rstrip_char (CHR ''='') (map to_urlsafe (b64encode value))"

definition urlsafe_decode :: "string \<Rightarrow> string option" where
  "urlsafe_decode value =
     (if \<not> list_all (\<lambda>c. code c < 128) value then None
      else b64decode (map from_urlsafe
        (value @ replicate ((4 - length value mod 4) mod 4) (CHR ''=''))))"

definition b64_alphabet :: "char \<Rightarrow> bool" where
  "b64_alphabet c \<longleftrightarrow> is_alpha c \<or> is_digit c \<or> c = CHR ''+'' \<or> c = CHR ''/''"

lemma sextet_alphabet: "n < 64 \<Longrightarrow> b64_alphabet (sextet_char n)"
proof -
  assume "n < 64"
  then consider "n < 26" | "26 \<le> n" "n < 52" | "52 \<le> n" "n < 62" | "n = 62" | "n = 63"
    by linarith
  then show ?thesis
  proof cases
    case 3
    then have "code (char_of (n - 4)) = n - 4" "48 \<le> n - 4" "n - 4 \<le> 57" by simp_all
    with 3 show ?thesis by (simp add: b64_alphabet_def sextet_char_def is_digit_def)
  qed (simp_all add: b64_alphabet_def sextet_char_def is_alpha_def)
qed

lemma from_urlsafe_pad [simp]: "from_urlsafe (CHR ''='') = CHR ''=''"
  by (simp add: from_urlsafe_def)

lemma from_to_urlsafe: "b64_alphabet c \<Longrightarrow> from_urlsafe (to_urlsafe c) = c"
  by (auto simp: b64_alphabet_def to_urlsafe_def from_urlsafe_def is_alpha_def is_digit_def code_def)

lemma sextets_alphabet: "c \<in> set (map sextet_char (b64_sextets bs)) \<Longrightarrow> b64_alphabet c"
  using sextets_bound sextet_alphabet by auto

lemma alphabet_free:
  "b64_alphabet c \<Longrightarrow> c \<noteq> CHR ''='' \<and> c \<noteq> CHR ''$'' \<and> to_urlsafe c \<noteq> CHR ''='' \<and>
     to_urlsafe c \<noteq> CHR ''.'' \<and> code (to_urlsafe c) < 128"
  by (auto simp: b64_alphabet_def is_alpha_def is_digit_def code_def to_urlsafe_def)

lemma rstrip_char_replicate:
  "\<forall>c \<in> set xs. c \<noteq> p \<Longrightarrow> rstrip_char p (xs @ replicate n p) = xs"
proof -
  assume a: "\<forall>c \<in> set xs. c \<noteq> p"
  have "dropWhile (\<lambda>c. c = p) (replicate n p @ ys) = dropWhile (\<lambda>c. c = p) ys" for ys
    by (induction n) auto
  moreover have "dropWhile (\<lambda>c. c = p) (rev xs) = rev xs"
    using a by (cases "rev xs") (auto dest: arg_cong [where f = set])
  ultimately show ?thesis by (simp add: rstrip_char_def)
qed

lemma urlsafe_encode_chars:
  "urlsafe_encode bs = map to_urlsafe (map sextet_char (b64_sextets bs))"
proof -
  have no_pad: "\<forall>c \<in> set (map to_urlsafe (map sextet_char (b64_sextets bs))). c \<noteq> CHR ''=''"
    using sextets_alphabet alphabet_free by auto
  have "map to_urlsafe (b64encode bs) = map to_urlsafe (map sextet_char (b64_sextets bs)) @
      replicate ((3 - length bs mod 3) mod 3) (CHR ''='')"
    by (simp add: b64encode_def to_urlsafe_def)
  then show ?thesis
    unfolding urlsafe_encode_def using rstrip_char_replicate [OF no_pad] by simp
qed

lemma urlsafe_roundtrip: "urlsafe_decode (urlsafe_encode bs) = Some bs"
proof -
  let ?six = "b64_sextets bs"
  let ?n = "(4 - length ?six mod 4) mod 4"
  have alpha: "\<forall>n \<in> set ?six. b64_alphabet (sextet_char n)"
    using sextets_bound sextet_alphabet by blast
  have ascii: "list_all (\<lambda>c. code c < 128) (urlsafe_encode bs)"
    using sextets_alphabet alphabet_free by (auto simp: urlsafe_encode_chars list_all_iff)
  have undone: "map from_urlsafe (map to_urlsafe (map sextet_char ?six)) = map sextet_char ?six"
    using alpha from_to_urlsafe by simp
  have pad: "(length ?six mod 4, ?n) \<in> {(0, 0), (2, 2), (3, 1)}"
    using length_sextets [of bs] by auto
  have "map from_urlsafe (urlsafe_encode bs @ replicate ?n (CHR ''='')) =
      map sextet_char ?six @ replicate ?n (CHR ''='')"
    unfolding urlsafe_encode_chars map_append undone by (simp add: from_urlsafe_def)
  moreover have "length (urlsafe_encode bs) = length ?six"
    by (simp add: urlsafe_encode_chars)
  ultimately show ?thesis
    unfolding urlsafe_decode_def using ascii b64decode_sextets [OF pad] by simp
qed

section \<open>Codecs between separators\<close>

text \<open>
  Tokens and password records join encoded fields with a separator the code's alphabet
  does not contain; splitting then finds the fields again.
\<close>

locale codec =
  fixes encode :: "string \<Rightarrow> string"
    and decode :: "string \<Rightarrow> string option"
    and sep :: char
  assumes decode_encode: "decode (encode b) = Some b"
    and encode_no_sep: "sep \<notin> set (encode b)"
begin

lemma framed_pair: "split_on sep (encode a @ [sep] @ encode b) = [encode a, encode b]"
  by (rule split_on_join1) (rule encode_no_sep)+

lemma framed_last: "sep \<notin> set p \<Longrightarrow> split_on sep (p @ [sep] @ encode a) = [p, encode a]"
  by (rule split_on_join1) (assumption, rule encode_no_sep)

lemma encode_inj: "encode a = encode b \<Longrightarrow> a = b"
  by (metis decode_encode option.inject)

end

lemma urlsafe_free: "CHR ''.'' \<notin> set (urlsafe_encode b)"
proof
  assume "CHR ''.'' \<in> set (urlsafe_encode b)"
  then obtain c where "c \<in> set (map sextet_char (b64_sextets b))" "to_urlsafe c = CHR ''.''"
    unfolding urlsafe_encode_chars set_map [of to_urlsafe] by fastforce
  with alphabet_free [OF sextets_alphabet] show False by blast
qed

lemma b64_free: "CHR ''$'' \<notin> set (b64encode b)"
  using sextets_alphabet alphabet_free by (auto simp: b64encode_def)

interpretation url: codec urlsafe_encode urlsafe_decode "CHR ''.''"
  by unfold_locales (rule urlsafe_roundtrip, rule urlsafe_free)

interpretation std64: codec b64encode b64decode "CHR ''$''"
  by unfold_locales (rule b64_roundtrip, rule b64_free)

section \<open>Scopes\<close>

definition SCOPE_READ :: string where "SCOPE_READ = ''read''"
definition SCOPE_CONTROL :: string where "SCOPE_CONTROL = ''control''"
definition SCOPE_ADMIN :: string where "SCOPE_ADMIN = ''admin''"

lemmas scope_defs = SCOPE_READ_def SCOPE_CONTROL_def SCOPE_ADMIN_def

definition scope_rank :: "string \<Rightarrow> int option" where
  "scope_rank s = dict_get s [(SCOPE_READ, 1), (SCOPE_CONTROL, 2), (SCOPE_ADMIN, 3)]"

definition scope_allows :: "string \<Rightarrow> string \<Rightarrow> bool" where
  "scope_allows held required =
     (case (scope_rank held, scope_rank required) of
        (Some h, Some r) \<Rightarrow> r \<le> h
      | _ \<Rightarrow> False)"

section \<open>Passwords\<close>

definition SCRYPT_N :: int where "SCRYPT_N = 2 ^ 14"
definition SCRYPT_R :: int where "SCRYPT_R = 8"
definition SCRYPT_P :: int where "SCRYPT_P = 1"
definition SCRYPT_DKLEN :: nat where "SCRYPT_DKLEN = 32"
definition SCRYPT_MIN_N :: int where "SCRYPT_MIN_N = 2 ^ 12"
definition SCRYPT_MAX_FACTOR :: int where "SCRYPT_MAX_FACTOR = 32"
definition SCRYPT_MAX_MEMORY_BYTES :: int where "SCRYPT_MAX_MEMORY_BYTES = 128 * 2 ^ 20"
definition MIN_SALT_BYTES :: nat where "MIN_SALT_BYTES = 8"
definition MIN_HASH_BYTES :: nat where "MIN_HASH_BYTES = 16"

lemmas scrypt_defs = SCRYPT_N_def SCRYPT_R_def SCRYPT_P_def SCRYPT_DKLEN_def SCRYPT_MIN_N_def
  SCRYPT_MAX_FACTOR_def SCRYPT_MAX_MEMORY_BYTES_def MIN_SALT_BYTES_def MIN_HASH_BYTES_def

text \<open>
  The parameter: \<open>scrypt password salt n r p dklen\<close>, \<open>None\<close> when the library raises
  \<open>ValueError\<close>.
\<close>

type_synonym scrypt = "string \<Rightarrow> string \<Rightarrow> int \<Rightarrow> int \<Rightarrow> int \<Rightarrow> nat \<Rightarrow> string option"

definition is_supported_cost :: "int \<Rightarrow> int \<Rightarrow> int \<Rightarrow> bool" where
  "is_supported_cost n r p =
     (if n < SCRYPT_MIN_N \<or> n AND (n - 1) \<noteq> 0 then False
      else if \<not> (1 \<le> r \<and> r \<le> SCRYPT_MAX_FACTOR) \<or> \<not> (1 \<le> p \<and> p \<le> SCRYPT_MAX_FACTOR) then False
      else 128 * n * r \<le> SCRYPT_MAX_MEMORY_BYTES)"

definition hash_password :: "scrypt \<Rightarrow> string \<Rightarrow> string \<Rightarrow> string result" where
  "hash_password scrypt salt password =
     (case scrypt password salt SCRYPT_N SCRYPT_R SCRYPT_P SCRYPT_DKLEN of
        None \<Rightarrow> Inl (ValueError ''scrypt'')
      | Some derived \<Rightarrow> Inr (join ''$''
          [''scrypt'', show_int SCRYPT_N, show_int SCRYPT_R, show_int SCRYPT_P,
           b64encode salt, b64encode derived]))"

definition verify_password :: "scrypt \<Rightarrow> string \<Rightarrow> string \<Rightarrow> bool" where
  "verify_password scrypt password encoded =
     (case split_on (CHR ''$'') encoded of
        [scheme, n_text, r_text, p_text, salt_text, hash_text] \<Rightarrow>
          if scheme \<noteq> ''scrypt'' then False
          else (case (parse_int n_text, parse_int r_text, parse_int p_text) of
              (Some n, Some r, Some p) \<Rightarrow>
                if \<not> is_supported_cost n r p then False
                else (case (b64decode salt_text, b64decode hash_text) of
                    (Some salt, Some expected) \<Rightarrow>
                      if length salt < MIN_SALT_BYTES \<or> length expected < MIN_HASH_BYTES
                      then False
                      else (case scrypt password salt n r p (length expected) of
                          None \<Rightarrow> False
                        | Some derived \<Rightarrow> derived = expected)
                  | _ \<Rightarrow> False)
            | _ \<Rightarrow> False)
      | _ \<Rightarrow> False)"

text \<open>A positive number whose binary form shares no bit with its predecessor's is a power of two.\<close>

lemma and_pred_power:
  "0 < n \<Longrightarrow> n AND (n - 1) = 0 \<Longrightarrow> \<exists>k. n = 2 ^ k" for n :: int
proof (induction "nat n" arbitrary: n rule: less_induct)
  case less
  show ?case
  proof (cases "even n")
    case True
    then obtain m where m: "n = 2 * m" by blast
    with less.prems have "0 < m" by simp
    have half: "(2 * m - 1) div 2 = m - 1" by presburger
    have "n AND (n - 1) = 2 * (m AND (m - 1))"
      unfolding m and_int_rec [of "2 * m"] using half by simp
    with less.prems have "m AND (m - 1) = 0" by simp
    moreover have "nat m < nat n" using m \<open>0 < m\<close> by simp
    ultimately obtain k where "m = 2 ^ k" using less.hyps \<open>0 < m\<close> by blast
    with m have "n = 2 ^ Suc k" by simp
    then show ?thesis by blast
  next
    case False
    then obtain m where m: "n = 2 * m + 1" by (meson oddE)
    have "n AND (n - 1) = 2 * (m AND m)"
      using m by (simp add: and_int_rec [of n] and_int_rec [of "2 * m + 1"])
    with less.prems m have "n = 2 ^ 0" by simp
    then show ?thesis by blast
  qed
qed

section \<open>Time-based codes\<close>

definition TOTP_STEP :: int where "TOTP_STEP = 30"
definition TOTP_DIGITS :: nat where "TOTP_DIGITS = 6"

definition b32_value :: "char \<Rightarrow> nat option" where
  "b32_value c =
     (let u = (if 97 \<le> code c \<and> code c \<le> 122 then code c - 32 else code c)
      in if 65 \<le> u \<and> u \<le> 90 then Some (u - 65)
         else if 50 \<le> u \<and> u \<le> 55 then Some (u - 24) else None)"

definition quintets :: "nat list \<Rightarrow> nat" where
  "quintets ds = foldl (\<lambda>a d. a * 32 + d) 0 ds"

definition bytes5 :: "nat \<Rightarrow> string" where
  "bytes5 a = map (\<lambda>i. char_of (a div 256 ^ i mod 256)) [4, 3, 2, 1, 0]"

text \<open>Groups of eight digits are five bytes; a shorter last group is filled up and cut.\<close>

fun b32_bytes :: "nat list \<Rightarrow> string" where
  "b32_bytes (a # b # c # d # e # f # g # h # rest) =
     bytes5 (quintets [a, b, c, d, e, f, g, h]) @ b32_bytes rest"
| "b32_bytes ds = take (length ds * 5 div 8) (bytes5 (quintets ds * 32 ^ (8 - length ds)))"

text \<open>
  \<open>_decode_totp_secret\<close>: the secret is padded to a multiple of eight, and the decoder
  accepts 0, 1, 3, 4 or 6 padding characters at the end.
\<close>

definition decode_totp_secret :: "string \<Rightarrow> string result" where
  "decode_totp_secret secret =
     (let padded = secret @ replicate ((8 - length secret mod 8) mod 8) (CHR ''='');
          data = rstrip_char (CHR ''='') padded
      in case all_some (map b32_value data) of
           None \<Rightarrow> Inl (ValueError ''Non-base32 digit found'')
         | Some ds \<Rightarrow>
             if length padded - length data \<in> {0, 1, 3, 4, 6} then Inr (b32_bytes ds)
             else Inl (ValueError ''Incorrect padding''))"

definition pack_u64 :: "int \<Rightarrow> string result" where
  "pack_u64 n =
     (if 0 \<le> n \<and> n < 2 ^ 64
      then Inr (map (\<lambda>i. char_of (nat n div 256 ^ i mod 256)) [7, 6, 5, 4, 3, 2, 1, 0])
      else Inl (ValueError ''struct.error''))"

definition unpack_u32 :: "string \<Rightarrow> int result" where
  "unpack_u32 s =
     (if length s = 4 then Inr (foldl (\<lambda>a c. a * 256 + int (code c)) 0 s)
      else Inl (ValueError ''struct.error''))"

text \<open>A number below \<open>10 ^ 6\<close> in six digits, leading zeros included.\<close>

definition six_digits :: "int \<Rightarrow> string" where
  "six_digits v = map (\<lambda>i. digit_char (nat v div 10 ^ i mod 10)) [5, 4, 3, 2, 1, 0]"

definition totp_code :: "(string \<Rightarrow> string \<Rightarrow> string) \<Rightarrow> string \<Rightarrow> int \<Rightarrow> string result" where
  "totp_code mac secret at =
     (let counter = at div TOTP_STEP
      in rbind (decode_totp_secret secret) (\<lambda>key.
         rbind (pack_u64 counter) (\<lambda>message.
           let digest = mac key message
           in if digest = [] then Inl (ValueError ''index out of range'')
              else let offset = code (last digest) mod 16
              in rbind (unpack_u32 (take 4 (drop offset digest))) (\<lambda>word.
                 let value = word mod 2 ^ 31
                 in Inr (six_digits (value mod 10 ^ TOTP_DIGITS))))))"

text \<open>
  \<open>verify_totp\<close>: the offsets are tried in ascending order and the first match ends the
  search; an exception before that is a refusal.
\<close>

fun try_offsets :: "(string \<Rightarrow> string \<Rightarrow> string) \<Rightarrow> string \<Rightarrow> string \<Rightarrow> int \<Rightarrow> int list \<Rightarrow> bool" where
  "try_offsets mac secret c at [] = False"
| "try_offsets mac secret c at (offset # offsets) =
     (if at + offset * TOTP_STEP < 0 then try_offsets mac secret c at offsets
      else (case totp_code mac secret (at + offset * TOTP_STEP) of
          Inl e \<Rightarrow> False
        | Inr d \<Rightarrow> c = d \<or> try_offsets mac secret c at offsets))"

definition verify_totp :: "(string \<Rightarrow> string \<Rightarrow> string) \<Rightarrow> string \<Rightarrow> string \<Rightarrow> int \<Rightarrow> int \<Rightarrow> bool" where
  "verify_totp mac secret c at window =
     (if length c \<noteq> TOTP_DIGITS \<or> \<not> list_all is_digit c then False
      else if window < 0 then False
      else try_offsets mac secret c at [- window..window])"

section \<open>Access tokens\<close>

record access_claims =
  ac_refresh_id :: int
  ac_scope :: string
  ac_expires_at :: int

definition access_payload :: "int \<Rightarrow> string \<Rightarrow> int \<Rightarrow> string" where
  "access_payload refresh_id scope expires_at =
     join '':'' [''v1'', show_int refresh_id, scope, show_int expires_at]"

definition issue_access_token :: "(string \<Rightarrow> string \<Rightarrow> string) \<Rightarrow> string \<Rightarrow> int \<Rightarrow> string \<Rightarrow> int
     \<Rightarrow> string" where
  "issue_access_token mac key refresh_id scope expires_at =
     (let payload = access_payload refresh_id scope expires_at
      in urlsafe_encode payload @ [CHR ''.''] @ urlsafe_encode (mac key payload))"

definition read_claims :: "string \<Rightarrow> int \<Rightarrow> access_claims option" where
  "read_claims payload now =
     (if \<not> utf8_valid payload then None
      else case split_on (CHR '':'') payload of
        [version, refresh_text, scope, expiry_text] \<Rightarrow>
          if version \<noteq> ''v1'' then None
          else (case (parse_int refresh_text, parse_int expiry_text) of
              (Some i, Some e) \<Rightarrow>
                if e \<le> now then None
                else Some \<lparr>ac_refresh_id = i, ac_scope = scope, ac_expires_at = e\<rparr>
            | _ \<Rightarrow> None)
      | _ \<Rightarrow> None)"

definition verify_access_token :: "(string \<Rightarrow> string \<Rightarrow> string) \<Rightarrow> string \<Rightarrow> string \<Rightarrow> int
     \<Rightarrow> access_claims option" where
  "verify_access_token mac key token now =
     (case split_on (CHR ''.'') token of
        [payload_text, signature_text] \<Rightarrow>
          (case (urlsafe_decode payload_text, urlsafe_decode signature_text) of
             (Some payload, Some signature) \<Rightarrow>
               if signature \<noteq> mac key payload then None else read_claims payload now
           | _ \<Rightarrow> None)
      | _ \<Rightarrow> None)"


section \<open>Generated credentials\<close>

text \<open>The draws of the \<open>secrets\<close> module are arguments: bytes, or positions in the alphabet.\<close>

definition b32_char :: "nat \<Rightarrow> char" where
  "b32_char n = char_of (if n < 26 then 65 + n else 24 + n)"

definition group5 :: "string \<Rightarrow> string" where
  "group5 bs =
     (let a = foldl (\<lambda>a c. a * 256 + code c) 0 (bs @ replicate (5 - length bs) (CHR 0x00))
      in map (\<lambda>i. b32_char (a div 32 ^ i mod 32)) [7, 6, 5, 4, 3, 2, 1, 0])"

fun b32encode :: "string \<Rightarrow> string" where
  "b32encode [] = []"
| "b32encode (a # b # c # d # e # rest) = group5 [a, b, c, d, e] @ b32encode rest"
| "b32encode bs =
     (let n = (length bs * 8 + 4) div 5
      in take n (group5 bs) @ replicate (8 - n) (CHR ''=''))"

definition generate_totp_secret :: "string \<Rightarrow> string" where
  "generate_totp_secret token_bytes = rstrip_char (CHR ''='') (b32encode token_bytes)"

definition recovery_alphabet :: string where
  "recovery_alphabet = ''abcdefghjkmnpqrstuvwxyz23456789''"

definition generate_recovery_codes :: "nat list list \<Rightarrow> string list" where
  "generate_recovery_codes draws =
     map (\<lambda>ds. map ((!) recovery_alphabet) (take 5 ds) @ ''-'' @
              map ((!) recovery_alphabet) (take 5 (drop 5 ds))) draws"

definition generate_token :: "string \<Rightarrow> string" where
  "generate_token token_bytes = urlsafe_encode token_bytes"

definition hex_byte :: "char \<Rightarrow> string" where
  "hex_byte c = [''0123456789abcdef'' ! (code c div 16), ''0123456789abcdef'' ! (code c mod 16)]"

definition hash_token :: "(string \<Rightarrow> string) \<Rightarrow> string \<Rightarrow> string" where
  "hash_token sha token = concat (map hex_byte (sha token))"

section \<open>Lemmas\<close>

lemma show_nat_ascii: "list_all (\<lambda>c. code c < 128) (show_nat n)"
  using show_nat_digits [of n] by (auto simp: list_all_iff is_digit_def)

lemma show_int_ascii: "list_all (\<lambda>c. code c < 128) (show_int i)"
  using show_nat_ascii by (auto simp: show_int_def code_def)

lemma colon_free: "CHR '':'' \<notin> set (show_int i)"
  by (rule show_int_free) (simp_all add: is_digit_def code_def)

lemma dollar_free: "CHR ''$'' \<notin> set (show_int i)"
  by (rule show_int_free) (simp_all add: is_digit_def code_def)

lemma access_payload_fields:
  "CHR '':'' \<notin> set scope \<Longrightarrow>
     split_on (CHR '':'') (access_payload i scope e) = [''v1'', show_int i, scope, show_int e]"
  using colon_free [of i] colon_free [of e]
  by (simp add: access_payload_def split_on_append split_on_free)

lemma access_payload_utf8:
  "list_all (\<lambda>c. code c < 128) scope \<Longrightarrow> utf8_valid (access_payload i scope e)"
  by (rule utf8_ascii) (simp add: access_payload_def show_int_ascii, simp add: code_def)

lemma read_claims_payload:
  "CHR '':'' \<notin> set scope \<Longrightarrow> list_all (\<lambda>c. code c < 128) scope \<Longrightarrow>
     read_claims (access_payload i scope e) now =
       (if e \<le> now then None
        else Some \<lparr>ac_refresh_id = i, ac_scope = scope, ac_expires_at = e\<rparr>)"
  by (simp add: read_claims_def access_payload_fields access_payload_utf8)

lemma hash_password_fields:
  "split_on (CHR ''$'') (join ''$'' [''scrypt'', show_int n, show_int r, show_int p,
       b64encode salt, b64encode d])
   = [''scrypt'', show_int n, show_int r, show_int p, b64encode salt, b64encode d]"
  using dollar_free [of n] dollar_free [of r] dollar_free [of p] b64_free [of salt] b64_free [of d]
  by (simp add: split_on_append split_on_free)

lemma default_cost: "is_supported_cost SCRYPT_N SCRYPT_R SCRYPT_P"
  by (simp add: is_supported_cost_def scrypt_defs)

lemma length_six_digits [simp]: "length (six_digits v) = 6"
  by (simp add: six_digits_def)

lemma six_digits_digits: "list_all is_digit (six_digits v)"
  by (simp add: six_digits_def)

lemma supported_cost_power:
  "is_supported_cost n r p \<Longrightarrow> \<exists>k. n = 2 ^ k \<and> 12 \<le> k"
proof -
  assume c: "is_supported_cost n r p"
  then have "2 ^ 12 \<le> n" "n AND (n - 1) = 0"
    by (simp_all add: is_supported_cost_def scrypt_defs split: if_splits)
  moreover obtain k where k: "n = 2 ^ k" using and_pred_power calculation by fastforce
  ultimately have "(2::int) ^ 12 \<le> 2 ^ k" by simp
  then have "12 \<le> k" by (rule power_le_imp_le_exp [rotated]) simp
  with k show ?thesis by blast
qed

text \<open>With a secret that decodes and a 20-byte digest every time gives a code.\<close>

lemma totp_total:
  assumes mac: "\<forall>k m. length (mac k m) = 20"
    and key: "decode_totp_secret secret = Inr key"
    and at: "0 \<le> at" "at < 2 ^ 63"
  shows "\<exists>c. totp_code mac secret at = Inr c \<and> length c = 6 \<and> list_all is_digit c"
proof -
  have "0 \<le> at div 30" "at div 30 < 2 ^ 64" using at by auto
  then have "\<exists>m. pack_u64 (at div TOTP_STEP) = Inr m" by (simp add: pack_u64_def TOTP_STEP_def)
  then obtain m where m: "pack_u64 (at div TOTP_STEP) = Inr m" by blast
  have twenty: "length (mac key m) = 20" using mac by blast
  then have ne: "mac key m \<noteq> []" by auto
  have "code (last (mac key m)) mod 16 < 16" by simp
  then have "length (take 4 (drop (code (last (mac key m)) mod 16) (mac key m))) = 4"
    using twenty by simp
  then have "\<exists>w. unpack_u32 (take 4 (drop (code (last (mac key m)) mod 16) (mac key m))) = Inr w"
    by (simp add: unpack_u32_def)
  then obtain w where
    "unpack_u32 (take 4 (drop (code (last (mac key m)) mod 16) (mac key m))) = Inr w" by blast
  then have "totp_code mac secret at = Inr (six_digits (w mod 2 ^ 31 mod 10 ^ TOTP_DIGITS))"
    unfolding totp_code_def Let_def key m rbind_simps if_not_P [OF ne] by simp
  then show ?thesis using six_digits_digits by simp
qed

lemma try_offsets_hit:
  assumes total: "\<And>t. t \<in> (\<lambda>k. at + k * TOTP_STEP) ` set offs \<Longrightarrow> 0 \<le> t \<Longrightarrow>
      \<exists>c. totp_code mac secret t = Inr c"
    and hit: "off \<in> set offs" "0 \<le> at + off * TOTP_STEP"
      "totp_code mac secret (at + off * TOTP_STEP) = Inr c"
  shows "try_offsets mac secret c at offs"
  using assms
proof (induction offs)
  case Nil
  then show ?case by simp
next
  case (Cons o1 offs)
  show ?case
  proof (cases "o1 = off")
    case True
    with Cons.prems show ?thesis by simp
  next
    case False
    then have "try_offsets mac secret c at offs" using Cons by auto
    moreover have "0 \<le> at + o1 * TOTP_STEP \<Longrightarrow> \<exists>c. totp_code mac secret (at + o1 * TOTP_STEP) = Inr c"
      using Cons.prems(1) by simp
    ultimately show ?thesis
      by (cases "at + o1 * TOTP_STEP < 0") (auto simp: not_less split: sum.splits)
  qed
qed

lemma try_offsets_sound:
  "try_offsets mac secret c at offs \<Longrightarrow>
     \<exists>off \<in> set offs. totp_code mac secret (at + off * TOTP_STEP) = Inr c"
  by (induction offs) (auto split: if_splits sum.splits)

lemma same_step_code: "a div TOTP_STEP = b div TOTP_STEP \<Longrightarrow> totp_code mac secret a = totp_code mac secret b"
  by (simp add: totp_code_def)

lemma scope_allows_rank:
  "scope_allows held required \<longleftrightarrow>
     (\<exists>h r. scope_rank held = Some h \<and> scope_rank required = Some r \<and> r \<le> h)"
  by (simp add: scope_allows_def split: option.splits)

lemma scope_allows_trans: "scope_allows a b \<Longrightarrow> scope_allows b c \<Longrightarrow> scope_allows a c"
  by (fastforce simp: scope_allows_rank)

lemma scope_allows_trivial [simp]:
  "scope_allows SCOPE_ADMIN SCOPE_CONTROL" "scope_allows SCOPE_ADMIN SCOPE_READ"
  "scope_allows SCOPE_CONTROL SCOPE_READ" "\<not> scope_allows SCOPE_READ SCOPE_CONTROL"
  "\<not> scope_allows SCOPE_CONTROL SCOPE_ADMIN" "\<not> scope_allows SCOPE_READ SCOPE_ADMIN"
  by (simp_all add: scope_allows_def scope_rank_def scope_defs)


text \<open>An issued token and a fresh password record, read back.\<close>

lemma verify_issued:
  assumes "CHR '':'' \<notin> set scope" and "list_all (\<lambda>c. code c < 128) scope"
  shows "verify_access_token mac key (issue_access_token mac key i scope e) now =
    (if e \<le> now then None
     else Some \<lparr>ac_refresh_id = i, ac_scope = scope, ac_expires_at = e\<rparr>)"
proof -
  let ?p = "access_payload i scope e"
  have "issue_access_token mac key i scope e =
      urlsafe_encode ?p @ [CHR ''.''] @ urlsafe_encode (mac key ?p)"
    by (simp add: issue_access_token_def Let_def)
  then show ?thesis
    unfolding verify_access_token_def using url.framed_pair url.decode_encode
      read_claims_payload [OF assms] by simp
qed

lemma verify_record:
  assumes "length d = SCRYPT_DKLEN" and "MIN_SALT_BYTES \<le> length salt"
  shows "verify_password scrypt candidate (join ''$'' [''scrypt'', show_int SCRYPT_N,
      show_int SCRYPT_R, show_int SCRYPT_P, b64encode salt, b64encode d]) =
    (scrypt candidate salt SCRYPT_N SCRYPT_R SCRYPT_P SCRYPT_DKLEN = Some d)"
proof -
  have len: "MIN_HASH_BYTES \<le> length d" using assms(1) by (simp add: scrypt_defs)
  have "verify_password scrypt candidate (join ''$'' [''scrypt'', show_int SCRYPT_N,
      show_int SCRYPT_R, show_int SCRYPT_P, b64encode salt, b64encode d]) =
    (case scrypt candidate salt SCRYPT_N SCRYPT_R SCRYPT_P (length d) of
       None \<Rightarrow> False | Some derived \<Rightarrow> derived = d)"
    unfolding verify_password_def hash_password_fields
    using default_cost std64.decode_encode len assms(2) by simp
  also have "\<dots> = (scrypt candidate salt SCRYPT_N SCRYPT_R SCRYPT_P SCRYPT_DKLEN = Some d)"
    using assms(1) by (auto split: option.splits)
  finally show ?thesis .
qed

section \<open>Properties\<close>

text \<open>
  A token the gateway issues is accepted with exactly the claims it was issued for until
  it expires, and refused from that second on.
\<close>

theorem access_token_roundtrip:
  assumes "CHR '':'' \<notin> set scope" and "list_all (\<lambda>c. code c < 128) scope"
  shows "verify_access_token mac key (issue_access_token mac key i scope e) now =
    (if e \<le> now then None
     else Some \<lparr>ac_refresh_id = i, ac_scope = scope, ac_expires_at = e\<rparr>)"
  by (rule verify_issued [OF assms])

theorem access_token_roundtrip_witness:
  "verify_access_token (\<lambda>k m. k @ rev m) ''key''
     (issue_access_token (\<lambda>k m. k @ rev m) ''key'' 7 ''control'' 900) 899
   = Some \<lparr>ac_refresh_id = 7, ac_scope = ''control'', ac_expires_at = 900\<rparr>"
  by (subst access_token_roundtrip) (simp_all add: code_def)


text \<open>
  A password record verifies exactly the candidates whose derived key is the stored one,
  for every password and salt, whatever bytes the salt and the key hold.
\<close>

theorem password_roundtrip:
  assumes "scrypt pw salt SCRYPT_N SCRYPT_R SCRYPT_P SCRYPT_DKLEN = Some d"
    and "length d = SCRYPT_DKLEN" and "MIN_SALT_BYTES \<le> length salt"
  shows "rbind (hash_password scrypt salt pw) (\<lambda>rec. Inr (verify_password scrypt candidate rec)) =
    Inr (scrypt candidate salt SCRYPT_N SCRYPT_R SCRYPT_P SCRYPT_DKLEN = Some d)"
  unfolding hash_password_def assms(1) using verify_record [OF assms(2,3)] by simp

theorem password_roundtrip_witness:
  "rbind (hash_password (\<lambda>p s n r q k. Some (take k (p @ s @ replicate k (CHR ''x''))))
       ''0123456789abcdef'' ''pw'')
     (\<lambda>rec. Inr (verify_password (\<lambda>p s n r q k. Some (take k (p @ s @ replicate k (CHR ''x''))))
        ''wrong'' rec))
   = Inr False"
  by (subst password_roundtrip [where d = "''pw0123456789abcdefxxxxxxxxxxxxxx''"])
     (simp_all add: scrypt_defs numeral_eq_Suc)

text \<open>
  The code of a moment is accepted by a clock up to one step of 30 seconds away, in
  either direction, for every secret that decodes.
\<close>

theorem totp_drift:
  assumes "\<forall>k m. length (mac k m) = 20" and "decode_totp_secret secret = Inr key"
    and "0 \<le> at" "0 \<le> now" "now < 2 ^ 62" "\<bar>now - at\<bar> \<le> TOTP_STEP"
    and "totp_code mac secret at = Inr c"
  shows "verify_totp mac secret c now 1"
proof -
  let ?off = "at div 30 - now div 30"
  have off: "?off \<in> {-1, 0, 1}" using assms(3-6) by (auto simp: TOTP_STEP_def)
  have step: "(now + ?off * 30) div 30 = at div 30" by simp
  then have same: "totp_code mac secret (now + ?off * TOTP_STEP) = Inr c"
    using assms(7) same_step_code [of "now + ?off * 30" at mac secret] by (simp add: TOTP_STEP_def)
  have nonneg: "0 \<le> now + ?off * TOTP_STEP" using assms(3) step by (simp add: TOTP_STEP_def) presburger
  have "at < 2 ^ 63" using assms(5,6) by (simp add: TOTP_STEP_def)
  then have shape: "length c = 6" "list_all is_digit c"
    using totp_total [OF assms(1,2,3) \<open>at < 2 ^ 63\<close>] assms(7) by simp_all
  have "try_offsets mac secret c now [-1..1]"
  proof (rule try_offsets_hit [OF _ _ nonneg same])
    fix t assume t: "t \<in> (\<lambda>k. now + k * TOTP_STEP) ` set [-1..1]" "0 \<le> t"
    then have "t < 2 ^ 63" using assms(5) by (auto simp: TOTP_STEP_def)
    then show "\<exists>c. totp_code mac secret t = Inr c" using totp_total [OF assms(1,2) t(2)] by blast
  next
    show "?off \<in> set [-1..1]" using off by auto
  qed
  then show ?thesis unfolding verify_totp_def using shape by (simp add: TOTP_DIGITS_def)
qed


lemma sample_secret: "decode_totp_secret ''MZXW6YTB'' = Inr ''fooba''"
  by (simp add: decode_totp_secret_def rstrip_char_def b32_value_def code_def quintets_def
        bytes5_def Let_def char_of_def bit_0)

lemma sample_code:
  "totp_code (\<lambda>k m. ''HHHHHHHHHHHH'' @ take 8 (m @ ''HHHHHHHH''))
     ''MZXW6YTB'' 45 = Inr ''696648''"
  apply (simp only: totp_code_def sample_secret TOTP_STEP_def TOTP_DIGITS_def pack_u64_def
      rbind_simps Let_def)
  apply (simp add: code_def)
  apply (simp add: unpack_u32_def code_def)
  apply (simp add: six_digits_def digit_char_def char_of_def bit_0)
  done

theorem totp_drift_witness:
  "verify_totp (\<lambda>k m. ''HHHHHHHHHHHH'' @ take 8 (m @ ''HHHHHHHH''))
     ''MZXW6YTB'' ''696648'' 75 1"
  by (rule totp_drift [OF _ sample_secret _ _ _ _ sample_code]) (simp_all add: TOTP_STEP_def, arith)

end
