(* ===== verification/AuthStore.thy ===== *)
theory AuthStore
  imports EventStore Auth
begin

text \<open>
  The authentication tables, \<open>gateway/authstore.py\<close>: key/value state, recovery codes, refresh
  tokens with their families, login attempts, lockouts and the audit log. Each table is the
  list of its rows; an operation that raises inside its transaction leaves them unchanged.
\<close>

section \<open>Tables\<close>

record refresh_row =
  rr_id :: int
  rr_hash :: string
  rr_label :: string
  rr_scope :: string
  rr_issued :: int
  rr_expires :: int
  rr_seen :: int
  rr_revoked :: "int option"
  rr_family :: "int option"

text \<open>\<open>RefreshToken\<close>: a session without its stored hash.\<close>

record session =
  se_id :: int
  se_label :: string
  se_scope :: string
  se_issued :: int
  se_expires :: int
  se_seen :: int
  se_revoked :: "int option"

definition session_of :: "refresh_row \<Rightarrow> session" where
  "session_of r = \<lparr>se_id = rr_id r, se_label = rr_label r, se_scope = rr_scope r,
     se_issued = rr_issued r, se_expires = rr_expires r, se_seen = rr_seen r,
     se_revoked = rr_revoked r\<rparr>"

record attempt =
  at_time :: int
  at_ip :: string
  at_username :: string
  at_ok :: bool

record lockout =
  lo_subject :: string
  lo_level :: int
  lo_until :: int

record audit_row =
  ad_id :: int
  ad_at :: int
  ad_actor :: string
  ad_action :: string
  ad_subject :: string
  ad_detail :: string

record auth_db =
  au_state :: "(string, string) dict"
  au_codes :: "(string, int option) dict"
  au_refresh :: "refresh_row list"
  au_attempts :: "attempt list"
  au_locks :: "(string, int \<times> int) dict"
  au_audit :: "audit_row list"

definition empty_auth :: auth_db where
  "empty_auth = \<lparr>au_state = [], au_codes = [], au_refresh = [], au_attempts = [], au_locks = [],
     au_audit = []\<rparr>"

section \<open>The lockout ladder\<close>

definition LOCKOUT_LADDER :: "int list" where
  "LOCKOUT_LADDER = [3600, 21600, 43200, 86400]"

definition next_lockout :: "string \<Rightarrow> int \<Rightarrow> int \<Rightarrow> int list \<Rightarrow> lockout" where
  "next_lockout subject level now ladder =
     (let rung = min (max level 0) (int (length ladder) - 1);
          next_level = min (rung + 1) (int (length ladder))
      in \<lparr>lo_subject = subject, lo_level = next_level, lo_until = now + ladder ! nat rung\<rparr>)"

section \<open>Keys and second factors\<close>

definition to_hex :: "string \<Rightarrow> string" where
  "to_hex bs = concat (map hex_byte bs)"

definition hex_digit :: "char \<Rightarrow> nat option" where
  "hex_digit c =
     (if is_digit c then Some (code c - 48)
      else if 97 \<le> code c \<and> code c \<le> 102 then Some (code c - 87)
      else if 65 \<le> code c \<and> code c \<le> 70 then Some (code c - 55) else None)"

fun from_hex :: "string \<Rightarrow> string option" where
  "from_hex [] = Some []"
| "from_hex [c] = (if is_space c then Some [] else None)"
| "from_hex (a # b # rest) =
     (if is_space a then from_hex (b # rest)
      else (case (hex_digit a, hex_digit b, from_hex rest) of
          (Some x, Some y, Some bs) \<Rightarrow> Some (char_of (16 * x + y) # bs)
        | _ \<Rightarrow> None))"

definition read_key :: "string \<Rightarrow> string result" where
  "read_key text =
     (case from_hex text of None \<Rightarrow> Inl (ValueError ''non-hexadecimal number'') | Some k \<Rightarrow> Inr k)"

text \<open>
  \<open>access_key\<close>: the bytes drawn are an argument. \<open>INSERT ... DO NOTHING\<close> keeps a row another
  connection has written between the read and the insert: \<open>other\<close> is the table at that point.
\<close>

definition access_key_race :: "string \<Rightarrow> (string, string) dict \<Rightarrow> auth_db \<Rightarrow> string result \<times> auth_db" where
  "access_key_race drawn other s =
     (case dict_get ''access_key'' (au_state s) of
        Some v \<Rightarrow> (read_key v, s)
      | None \<Rightarrow>
          let st = (case dict_get ''access_key'' other of
                      None \<Rightarrow> dict_set ''access_key'' (to_hex drawn) other | Some v \<Rightarrow> other)
          in (case dict_get ''access_key'' st of
                None \<Rightarrow> (Inl (TypeError ''NoneType is not subscriptable''), s\<lparr>au_state := st\<rparr>)
              | Some v \<Rightarrow> (read_key v, s\<lparr>au_state := st\<rparr>)))"

definition access_key :: "string \<Rightarrow> auth_db \<Rightarrow> string result \<times> auth_db" where
  "access_key drawn s = access_key_race drawn (au_state s) s"

definition rotate_access_key :: "string \<Rightarrow> auth_db \<Rightarrow> string \<times> auth_db" where
  "rotate_access_key drawn s =
     (drawn, s\<lparr>au_state := dict_set ''access_key'' (to_hex drawn) (au_state s)\<rparr>)"

definition totp_secret :: "auth_db \<Rightarrow> string option" where
  "totp_secret s = dict_get ''totp_secret'' (au_state s)"

definition enable_totp :: "string \<Rightarrow> string list \<Rightarrow> auth_db \<Rightarrow> auth_db result" where
  "enable_totp secret hashes s =
     (if distinct hashes
      then Inr (s\<lparr>au_state := dict_set ''totp_secret'' secret (au_state s),
                 au_codes := map (\<lambda>h. (h, None)) hashes\<rparr>)
      else Inl (IntegrityError ''UNIQUE constraint failed: recovery_codes.code_hash''))"

definition disable_totp :: "auth_db \<Rightarrow> auth_db" where
  "disable_totp s =
     s\<lparr>au_state := dict_pop ''totp_secret'' (au_state s), au_codes := []\<rparr>"

definition consume_recovery_code :: "string \<Rightarrow> int \<Rightarrow> auth_db \<Rightarrow> bool \<times> auth_db" where
  "consume_recovery_code h now s =
     (case dict_get h (au_codes s) of
        Some None \<Rightarrow> (True, s\<lparr>au_codes := dict_set h (Some now) (au_codes s)\<rparr>)
      | _ \<Rightarrow> (False, s))"

section \<open>Refresh tokens\<close>

definition row_live :: "int \<Rightarrow> refresh_row \<Rightarrow> bool" where
  "row_live now r \<longleftrightarrow> rr_revoked r = None \<and> now < rr_expires r"

text \<open>\<open>COALESCE(family_id, id)\<close>\<close>

definition family :: "refresh_row \<Rightarrow> int" where
  "family r = (case rr_family r of Some f \<Rightarrow> f | None \<Rightarrow> rr_id r)"

definition find_live :: "string \<Rightarrow> int \<Rightarrow> refresh_row list \<Rightarrow> refresh_row option" where
  "find_live h now rows = List.find (\<lambda>r. rr_hash r = h \<and> row_live now r) rows"

definition next_refresh_id :: "refresh_row list \<Rightarrow> int" where
  "next_refresh_id rows = max_or0 (map rr_id rows) + 1"

definition insert_refresh :: "refresh_row \<Rightarrow> refresh_row list \<Rightarrow> refresh_row list result" where
  "insert_refresh r rows =
     (if \<not> fits64 (rr_expires r) then Inl too_large
      else if rr_hash r \<in> set (map rr_hash rows)
      then Inl (IntegrityError ''UNIQUE constraint failed: refresh_tokens.token_hash'')
      else Inr (rows @ [r]))"

definition issue_refresh :: "string \<Rightarrow> string \<Rightarrow> string \<Rightarrow> int \<Rightarrow> int \<Rightarrow> auth_db
     \<Rightarrow> (int \<times> auth_db) result" where
  "issue_refresh h label scope now ttl s =
     (let i = next_refresh_id (au_refresh s)
      in rbind (insert_refresh \<lparr>rr_id = i, rr_hash = h, rr_label = label, rr_scope = scope,
           rr_issued = now, rr_expires = now + ttl, rr_seen = now, rr_revoked = None,
           rr_family = None\<rparr> (au_refresh s))
         (\<lambda>rows. Inr (i, s\<lparr>au_refresh := rows\<rparr>)))"

definition set_seen :: "int \<Rightarrow> int \<Rightarrow> refresh_row list \<Rightarrow> refresh_row list" where
  "set_seen i now rows = map (\<lambda>r. if rr_id r = i then r\<lparr>rr_seen := now\<rparr> else r) rows"

definition revoke_rows :: "(refresh_row \<Rightarrow> bool) \<Rightarrow> int \<Rightarrow> refresh_row list \<Rightarrow> refresh_row list" where
  "revoke_rows p now rows = map (\<lambda>r. if p r then r\<lparr>rr_revoked := Some now\<rparr> else r) rows"

definition resolve_refresh :: "string \<Rightarrow> int \<Rightarrow> auth_db \<Rightarrow> session option \<times> auth_db" where
  "resolve_refresh h now s =
     (case find_live h now (au_refresh s) of
        None \<Rightarrow> (None, s)
      | Some r \<Rightarrow> (Some ((session_of r)\<lparr>se_seen := now\<rparr>),
                   s\<lparr>au_refresh := set_seen (rr_id r) now (au_refresh s)\<rparr>))"

text \<open>\<open>row["family_id"] or row["id"]\<close>: a family id of 0 would count as absent.\<close>

definition family_or_id :: "refresh_row \<Rightarrow> int" where
  "family_or_id r =
     (case rr_family r of None \<Rightarrow> rr_id r | Some f \<Rightarrow> if f = 0 then rr_id r else f)"

definition rotate_refresh :: "string \<Rightarrow> string \<Rightarrow> int \<Rightarrow> int \<Rightarrow> auth_db
     \<Rightarrow> (int option \<times> auth_db) result" where
  "rotate_refresh old_hash new_hash now ttl s =
     (case find_live old_hash now (au_refresh s) of
        None \<Rightarrow> Inr (None, s)
      | Some r \<Rightarrow>
          let revoked = revoke_rows (\<lambda>q. rr_id q = rr_id r) now (au_refresh s);
              i = next_refresh_id revoked
          in rbind (insert_refresh \<lparr>rr_id = i, rr_hash = new_hash, rr_label = rr_label r,
               rr_scope = rr_scope r, rr_issued = now, rr_expires = now + ttl, rr_seen = now,
               rr_revoked = None, rr_family = Some (family_or_id r)\<rparr> revoked)
             (\<lambda>rows. Inr (Some i, s\<lparr>au_refresh := rows\<rparr>)))"

definition revoke_refresh :: "int \<Rightarrow> int \<Rightarrow> auth_db \<Rightarrow> bool \<times> auth_db" where
  "revoke_refresh i now s =
     (let p = (\<lambda>r. rr_id r = i \<and> rr_revoked r = None)
      in (length (filter p (au_refresh s)) = 1,
          s\<lparr>au_refresh := revoke_rows p now (au_refresh s)\<rparr>))"

definition revoke_all :: "int \<Rightarrow> auth_db \<Rightarrow> int \<times> auth_db" where
  "revoke_all now s =
     (int (length (filter (row_live now) (au_refresh s))),
      s\<lparr>au_refresh := revoke_rows (row_live now) now (au_refresh s)\<rparr>)"

definition list_refresh :: "auth_db \<Rightarrow> session list" where
  "list_refresh s = map session_of (order_desc (\<lambda>r. (rr_issued r, rr_id r)) (au_refresh s))"

definition live_refresh :: "int \<Rightarrow> int \<Rightarrow> auth_db \<Rightarrow> session option" where
  "live_refresh i now s =
     map_option session_of (List.find (\<lambda>r. rr_id r = i \<and> row_live now r) (au_refresh s))"

definition family_live :: "int \<Rightarrow> int \<Rightarrow> auth_db \<Rightarrow> bool" where
  "family_live i now s =
     (case List.find (\<lambda>r. rr_id r = i) (au_refresh s) of
        None \<Rightarrow> False
      | Some r \<Rightarrow> list_ex (\<lambda>q. family q = family r \<and> row_live now q) (au_refresh s))"

section \<open>Attempts, lockouts and the audit log\<close>

definition record_attempt :: "string \<Rightarrow> string \<Rightarrow> bool \<Rightarrow> int \<Rightarrow> auth_db \<Rightarrow> auth_db" where
  "record_attempt ip username ok now s =
     s\<lparr>au_attempts := au_attempts s @
         [\<lparr>at_time = now, at_ip = ip, at_username = username, at_ok = ok\<rparr>]\<rparr>"

definition failures_since :: "int \<Rightarrow> string option \<Rightarrow> string option \<Rightarrow> auth_db \<Rightarrow> int result" where
  "failures_since since ip username s =
     (let failed = filter (\<lambda>a. \<not> at_ok a \<and> since \<le> at_time a) (au_attempts s)
      in if (ip = None) = (username = None)
         then Inl (ValueError ''provide exactly one of ip or username'')
         else (case ip of
             Some i \<Rightarrow> Inr (int (length (filter (\<lambda>a. at_ip a = i) failed)))
           | None \<Rightarrow> Inr (int (length (filter (\<lambda>a. Some (at_username a) = username) failed)))))"

definition lock :: "lockout \<Rightarrow> auth_db \<Rightarrow> auth_db" where
  "lock l s = s\<lparr>au_locks := dict_set (lo_subject l) (lo_level l, lo_until l) (au_locks s)\<rparr>"

definition active_lock :: "string \<Rightarrow> int \<Rightarrow> auth_db \<Rightarrow> lockout option" where
  "active_lock subject now s =
     (case dict_get subject (au_locks s) of
        None \<Rightarrow> None
      | Some (level, until) \<Rightarrow>
          if now < until
          then Some \<lparr>lo_subject = subject, lo_level = level, lo_until = until\<rparr> else None)"

definition clear_lock :: "string \<Rightarrow> auth_db \<Rightarrow> auth_db" where
  "clear_lock subject s = s\<lparr>au_locks := dict_pop subject (au_locks s)\<rparr>"

definition last_level :: "string \<Rightarrow> auth_db \<Rightarrow> int" where
  "last_level subject s =
     (case dict_get subject (au_locks s) of None \<Rightarrow> 0 | Some (level, until) \<Rightarrow> level)"

definition record_audit :: "int \<Rightarrow> string \<Rightarrow> string \<Rightarrow> string \<Rightarrow> string \<Rightarrow> auth_db \<Rightarrow> auth_db" where
  "record_audit now action actor subject detail s =
     s\<lparr>au_audit := au_audit s @
         [\<lparr>ad_id = max_or0 (map ad_id (au_audit s)) + 1, ad_at = now, ad_actor = actor,
           ad_action = action, ad_subject = subject, ad_detail = detail\<rparr>]\<rparr>"

text \<open>A negative \<open>LIMIT\<close> of SQLite is no limit.\<close>

definition sql_limit :: "int \<Rightarrow> 'a list \<Rightarrow> 'a list" where
  "sql_limit n xs = (if n < 0 then xs else take (nat n) xs)"

definition query_audit :: "int option \<Rightarrow> int \<Rightarrow> auth_db \<Rightarrow> audit_row list" where
  "query_audit since limit s =
     sql_limit limit (order_desc (\<lambda>r. (ad_at r, ad_id r))
       (case since of None \<Rightarrow> au_audit s | Some t \<Rightarrow> filter (\<lambda>r. t \<le> ad_at r) (au_audit s)))"

record security_summary =
  ss_last_login :: "(int \<times> string) option"
  ss_failed :: int
  ss_locked_until :: "int option"
  ss_totp :: bool

definition security_summary :: "int \<Rightarrow> auth_db \<Rightarrow> security_summary" where
  "security_summary now s =
     (let logins = order_desc (\<lambda>r. (ad_at r, ad_id r))
                     (filter (\<lambda>r. ad_action r = ''login'') (au_audit s));
          locks = map (\<lambda>(k, l, u). u) (filter (\<lambda>(k, l, u).
                     starts_with ''account:'' (lower k) \<and> now < u) (au_locks s))
      in \<lparr>ss_last_login = (case logins of [] \<Rightarrow> None | r # _ \<Rightarrow> Some (ad_at r, ad_subject r)),
          ss_failed = int (length (filter (\<lambda>a. \<not> at_ok a \<and> now - 86400 \<le> at_time a)
                             (au_attempts s))),
          ss_locked_until = (if locks = [] then None else Some (max_or0 locks)),
          ss_totp = (case totp_secret s of None \<Rightarrow> False | Some t \<Rightarrow> t \<noteq> [])\<rparr>)"

section \<open>Interfaces\<close>

text \<open>What the login policy relies on in the lockout table.\<close>

locale lock_ledger =
  fixes put :: "lockout \<Rightarrow> 's \<Rightarrow> 's"
    and active :: "string \<Rightarrow> int \<Rightarrow> 's \<Rightarrow> lockout option"
    and clear :: "string \<Rightarrow> 's \<Rightarrow> 's"
    and level :: "string \<Rightarrow> 's \<Rightarrow> int"
  assumes active_put: "active k now (put l s) =
      (if k = lo_subject l then if now < lo_until l then Some l else None else active k now s)"
    and active_clear: "active k now (clear j s) = (if k = j then None else active k now s)"
    and level_put: "level k (put l s) = (if k = lo_subject l then lo_level l else level k s)"
    and level_clear: "level k (clear j s) = (if k = j then 0 else level k s)"
    and active_until: "active k now s = Some l \<Longrightarrow> now < lo_until l \<and> lo_subject l = k"
begin

lemma put_locks: "now < lo_until l \<Longrightarrow> active (lo_subject l) now (put l s) = Some l"
  by (simp add: active_put)

lemma put_frame: "k \<noteq> lo_subject l \<Longrightarrow> active k now (put l s) = active k now s"
  by (simp add: active_put)

lemma clear_unlocks: "active k now (clear k s) = None"
  by (simp add: active_clear)

lemma clear_resets: "level k (clear k s) = 0"
  by (simp add: level_clear)

end

text \<open>What it relies on in rotating sessions: a spent token never comes back.\<close>

locale rotating_sessions =
  fixes ok :: "'s \<Rightarrow> bool"
    and live :: "string \<Rightarrow> int \<Rightarrow> 's \<Rightarrow> bool"
    and rotate :: "string \<Rightarrow> string \<Rightarrow> int \<Rightarrow> int \<Rightarrow> 's \<Rightarrow> (int option \<times> 's) result"
  assumes dead_refused: "\<not> live h now s \<Longrightarrow> rotate h h' now ttl s = Inr (None, s)"
    and rotate_ok: "ok s \<Longrightarrow> rotate h h' now ttl s = Inr (Some i, s') \<Longrightarrow> ok s'"
    and rotate_live: "ok s \<Longrightarrow> rotate h h' now ttl s = Inr (Some i, s') \<Longrightarrow>
      live k later s' = (if k = h' then later < now + ttl else k \<noteq> h \<and> live k later s)"

text \<open>A client that renews again and again: each rotation replaces the token of the last one.\<close>

fun rotations :: "(string \<Rightarrow> string \<Rightarrow> int \<Rightarrow> int \<Rightarrow> 's \<Rightarrow> (int option \<times> 's) result)
     \<Rightarrow> int \<Rightarrow> string \<Rightarrow> (string \<times> int) list \<Rightarrow> 's \<Rightarrow> 's option" where
  "rotations rot ttl h [] s = Some s"
| "rotations rot ttl h ((h', now) # rest) s =
     (case rot h h' now ttl s of
        Inr (Some i, s') \<Rightarrow> rotations rot ttl h' rest s'
      | _ \<Rightarrow> None)"

context rotating_sessions
begin

lemma rotations_Cons:
  "rotations rotate ttl h (e # rest) s = Some s' \<longleftrightarrow>
     (\<exists>i s1. rotate h (fst e) (snd e) ttl s = Inr (Some i, s1) \<and>
        rotations rotate ttl (fst e) rest s1 = Some s')"
  by (cases e) (auto split: sum.splits option.splits)

lemma rotations_ok: "ok s \<Longrightarrow> rotations rotate ttl h hs s = Some s' \<Longrightarrow> ok s'"
proof (induction hs arbitrary: h s)
  case (Cons e hs)
  then show ?case unfolding rotations_Cons using rotate_ok by blast
qed simp

lemma dead_stays_dead:
  "ok s \<Longrightarrow> rotations rotate ttl h hs s = Some s' \<Longrightarrow> k \<notin> set (map fst hs) \<Longrightarrow>
     (\<And>t. \<not> live k t s) \<Longrightarrow> \<not> live k later s'"
proof (induction hs arbitrary: h s)
  case (Cons e hs)
  then obtain i s1 where r: "rotate h (fst e) (snd e) ttl s = Inr (Some i, s1)"
      "rotations rotate ttl (fst e) hs s1 = Some s'"
    unfolding rotations_Cons by blast
  have "\<not> live k t s1" for t
    using rotate_live [OF Cons.prems(1) r(1)] Cons.prems(3,4) by simp
  then show ?case
    using Cons.IH [OF rotate_ok [OF Cons.prems(1) r(1)] r(2)] Cons.prems(3) by simp
qed simp

lemma only_last_lives:
  "ok s \<Longrightarrow> distinct (h # map fst hs) \<Longrightarrow> rotations rotate ttl h hs s = Some s' \<Longrightarrow>
     k \<in> set (butlast (h # map fst hs)) \<Longrightarrow> \<not> live k later s'"
proof (induction hs arbitrary: h s)
  case (Cons e hs)
  then obtain i s1 where r: "rotate h (fst e) (snd e) ttl s = Inr (Some i, s1)"
      "rotations rotate ttl (fst e) hs s1 = Some s'"
    unfolding rotations_Cons by blast
  have ok1: "ok s1" using rotate_ok [OF Cons.prems(1) r(1)] .
  show ?case
  proof (cases "k = h")
    case True
    then have "\<not> live k t s1" for t
      using rotate_live [OF Cons.prems(1) r(1)] Cons.prems(2) by auto
    then show ?thesis using dead_stays_dead [OF ok1 r(2)] True Cons.prems(2) by auto
  next
    case False
    then show ?thesis
      using Cons.IH [OF ok1 _ r(2)] Cons.prems(2,4) by (auto split: if_splits)
  qed
qed simp

lemma replay_refused:
  "ok s \<Longrightarrow> distinct (h # map fst hs) \<Longrightarrow> rotations rotate ttl h hs s = Some s' \<Longrightarrow>
     k \<in> set (butlast (h # map fst hs)) \<Longrightarrow> rotate k k' later ttl' s' = Inr (None, s')"
  by (intro dead_refused only_last_lives)

end

interpretation ledger: lock_ledger lock active_lock clear_lock last_level
  by unfold_locales
     (auto simp: lock_def active_lock_def clear_lock_def last_level_def split: option.splits if_splits)

section \<open>The invariant of the session table\<close>

text \<open>
  Ids and hashes are unique, a family is named after one of the ids, and of each family at
  most one row is not revoked.
\<close>

definition unrevoked :: "refresh_row \<Rightarrow> bool" where
  "unrevoked r \<longleftrightarrow> rr_revoked r = None"

definition rows_ok :: "refresh_row list \<Rightarrow> bool" where
  "rows_ok rows \<longleftrightarrow> distinct (map rr_id rows) \<and> distinct (map rr_hash rows) \<and>
     (\<forall>r \<in> set rows. 0 < rr_id r \<and> family r \<in> set (map rr_id rows)) \<and>
     distinct (map family (filter unrevoked rows))"

definition auth_ok :: "auth_db \<Rightarrow> bool" where
  "auth_ok s \<longleftrightarrow> rows_ok (au_refresh s) \<and> dict_ok (au_codes s) \<and> dict_ok (au_state s) \<and>
     dict_ok (au_locks s)"

lemma family_update [simp]:
  "family (r\<lparr>rr_seen := n\<rparr>) = family r" "family (r\<lparr>rr_revoked := v\<rparr>) = family r"
  by (simp_all add: family_def split: option.splits)

lemma set_seen_maps [simp]:
  "map rr_id (set_seen i now rows) = map rr_id rows"
  "map rr_hash (set_seen i now rows) = map rr_hash rows"
  "map family (filter unrevoked (set_seen i now rows)) = map family (filter unrevoked rows)"
  by (induction rows) (auto simp: set_seen_def unrevoked_def)

lemma revoke_rows_maps [simp]:
  "map rr_id (revoke_rows p now rows) = map rr_id rows"
  "map rr_hash (revoke_rows p now rows) = map rr_hash rows"
  "map family (filter unrevoked (revoke_rows p now rows)) =
     map family (filter (\<lambda>r. unrevoked r \<and> \<not> p r) rows)"
  by (induction rows) (auto simp: revoke_rows_def unrevoked_def)

lemma set_seen_mem:
  "r \<in> set (set_seen i now rows) \<Longrightarrow>
     \<exists>q \<in> set rows. rr_id r = rr_id q \<and> family r = family q \<and> rr_hash r = rr_hash q \<and>
       row_live t r = row_live t q"
  by (auto simp: set_seen_def row_live_def)

lemma revoke_rows_mem:
  "r \<in> set (revoke_rows p now rows) \<Longrightarrow>
     \<exists>q \<in> set rows. rr_id r = rr_id q \<and> family r = family q \<and> rr_hash r = rr_hash q"
  by (auto simp: revoke_rows_def)

lemma rows_ok_seen [simp]: "rows_ok rows \<Longrightarrow> rows_ok (set_seen i now rows)"
  unfolding rows_ok_def set_seen_maps using set_seen_mem by metis

lemma distinct_map_filter2:
  "distinct (map f (filter p xs)) \<Longrightarrow> distinct (map f (filter (\<lambda>x. p x \<and> q x) xs))"
  by (induction xs) (auto split: if_splits)

lemma rows_ok_revoke [simp]: "rows_ok rows \<Longrightarrow> rows_ok (revoke_rows p now rows)"
  unfolding rows_ok_def revoke_rows_maps using revoke_rows_mem distinct_map_filter2 by metis

lemma next_refresh_id_fresh: "r \<in> set rows \<Longrightarrow> rr_id r < next_refresh_id rows"
  using max_or0_ge [of "rr_id r" "map rr_id rows"] by (simp add: next_refresh_id_def)

lemma next_refresh_id_pos: "rows_ok rows \<Longrightarrow> 0 < next_refresh_id rows"
proof (cases rows)
  case Nil
  then show ?thesis by (simp add: next_refresh_id_def)
next
  case (Cons r rs)
  moreover assume "rows_ok rows"
  ultimately have "0 < rr_id r" by (simp add: rows_ok_def)
  then show ?thesis using next_refresh_id_fresh [of r rows] Cons by simp
qed

text \<open>Adding a row: fresh id and hash, and a family that is its own or has no other live row.\<close>

lemma rows_ok_insert:
  assumes "rows_ok rows" "insert_refresh r rows = Inr rows'" "rr_id r = next_refresh_id rows"
    and "rr_family r = None \<or>
      family r \<in> set (map rr_id rows) \<and> family r \<notin> set (map family (filter unrevoked rows))"
  shows "rows_ok rows'"
proof -
  have rows': "rows' = rows @ [r]" and hash: "rr_hash r \<notin> set (map rr_hash rows)"
    using assms(2) by (auto simp: insert_refresh_def split: if_splits)
  have "rr_id r \<notin> set (map rr_id rows)"
    using next_refresh_id_fresh assms(3) by fastforce
  moreover have "\<forall>q \<in> set rows. family q \<in> set (map rr_id rows)"
    using assms(1) by (simp add: rows_ok_def)
  ultimately have "family r \<notin> set (map family (filter unrevoked rows))"
    using assms(4) by (cases "rr_family r") (auto simp: family_def)
  moreover have "family r \<in> set (map rr_id rows')"
    using assms(4) by (cases "rr_family r") (auto simp: family_def rows')
  moreover have "0 < rr_id r" using next_refresh_id_pos [OF assms(1)] assms(3) by simp
  ultimately show ?thesis
    using assms(1) hash \<open>rr_id r \<notin> set (map rr_id rows)\<close>
    by (auto simp: rows_ok_def rows')
qed

text \<open>A token is live when a row with its hash is neither revoked nor expired.\<close>

definition token_live :: "string \<Rightarrow> int \<Rightarrow> auth_db \<Rightarrow> bool" where
  "token_live h now s \<longleftrightarrow> find_live h now (au_refresh s) \<noteq> None"

lemma token_live_iff:
  "token_live h now s \<longleftrightarrow> (\<exists>r \<in> set (au_refresh s). rr_hash r = h \<and> row_live now r)"
  by (auto simp: token_live_def find_live_def find_None_iff)

lemma row_eq_by_key: fixes a b :: refresh_row shows
  "rows_ok rows \<Longrightarrow> a \<in> set rows \<Longrightarrow> b \<in> set rows \<Longrightarrow> rr_id a = rr_id b \<or> rr_hash a = rr_hash b \<Longrightarrow>
     a = b"
  unfolding rows_ok_def distinct_map inj_on_def by blast

lemma row_eq_by_family:
  "rows_ok rows \<Longrightarrow> a \<in> set rows \<Longrightarrow> b \<in> set rows \<Longrightarrow> unrevoked a \<Longrightarrow> unrevoked b \<Longrightarrow>
     family a = family b \<Longrightarrow> a = b"
  unfolding rows_ok_def distinct_map inj_on_def by simp

lemma family_or_id_eq: fixes r :: refresh_row shows "rows_ok rows \<Longrightarrow> r \<in> set rows \<Longrightarrow> family_or_id r = family r"
proof -
  assume "rows_ok rows" "r \<in> set rows"
  then have "family r \<in> rr_id ` set rows" "\<forall>q \<in> set rows. 0 < rr_id q"
    by (simp_all add: rows_ok_def)
  then have "family r \<noteq> 0" by auto
  then show ?thesis by (simp add: family_or_id_def family_def split: option.splits)
qed

text \<open>What a successful rotation did to the table.\<close>

lemma rotate_refreshE:
  assumes "rotate_refresh h h' now ttl s = Inr (Some i, s')"
  obtains r new :: refresh_row where "r \<in> set (au_refresh s)" "rr_hash r = h" "row_live now r"
    "s' = s\<lparr>au_refresh := revoke_rows (\<lambda>q. rr_id q = rr_id r) now (au_refresh s) @ [new]\<rparr>"
    "insert_refresh new (revoke_rows (\<lambda>q. rr_id q = rr_id r) now (au_refresh s)) =
       Inr (revoke_rows (\<lambda>q. rr_id q = rr_id r) now (au_refresh s) @ [new])"
    "rr_id new = next_refresh_id (revoke_rows (\<lambda>q. rr_id q = rr_id r) now (au_refresh s))"
    "rr_id new = i" "rr_hash new = h'" "rr_expires new = now + ttl" "rr_revoked new = None"
    "rr_family new = Some (family_or_id r)" "rr_scope new = rr_scope r" "rr_label new = rr_label r"
proof -
  from assms obtain r where r: "find_live h now (au_refresh s) = Some r"
    by (auto simp: rotate_refresh_def split: option.splits)
  have mem: "r \<in> set (au_refresh s)" "rr_hash r = h" "row_live now r"
    using find_SomeD [OF r [unfolded find_live_def]] by simp_all
  let ?rows = "revoke_rows (\<lambda>q. rr_id q = rr_id r) now (au_refresh s)"
  let ?new = "\<lparr>rr_id = next_refresh_id ?rows, rr_hash = h', rr_label = rr_label r,
    rr_scope = rr_scope r, rr_issued = now, rr_expires = now + ttl, rr_seen = now,
    rr_revoked = None, rr_family = Some (family_or_id r)\<rparr>"
  have res: "rbind (insert_refresh ?new ?rows)
      (\<lambda>rows. Inr (Some (next_refresh_id ?rows), s\<lparr>au_refresh := rows\<rparr>)) = Inr (Some i, s')"
    using assms unfolding rotate_refresh_def r Let_def by simp
  then have ins: "insert_refresh ?new ?rows = Inr (?rows @ [?new])"
    by (auto simp: rbind_eq_Inr insert_refresh_def split: if_splits)
  show thesis
    by (rule that [OF mem _ ins]) (use res [unfolded ins rbind_simps] in auto)
qed

lemma rotate_rows_ok:
  assumes "rows_ok (au_refresh s)" "rotate_refresh h h' now ttl s = Inr (Some i, s')"
  shows "rows_ok (au_refresh s')"
  using assms(2)
proof (rule rotate_refreshE)
  fix r new :: refresh_row
  let ?rows = "revoke_rows (\<lambda>q. rr_id q = rr_id r) now (au_refresh s)"
  assume r: "r \<in> set (au_refresh s)" "rr_hash r = h" "row_live now r"
    and s': "s' = s\<lparr>au_refresh := ?rows @ [new]\<rparr>"
    and ins: "insert_refresh new ?rows = Inr (?rows @ [new])"
    and new: "rr_id new = next_refresh_id ?rows" "rr_family new = Some (family_or_id r)"
  have fam: "family new = family r"
    using new(2) family_or_id_eq [OF assms(1) r(1)] by (simp add: family_def)
  have "family r \<in> set (map rr_id ?rows)"
    using assms(1) r(1) unfolding revoke_rows_maps rows_ok_def by blast
  moreover have "family r \<notin> set (map family (filter unrevoked ?rows))"
    unfolding revoke_rows_maps using row_eq_by_family [OF assms(1) _ r(1)] r(3)
    by (auto simp: unrevoked_def row_live_def)
  ultimately have "rows_ok (?rows @ [new])"
    using rows_ok_insert [OF rows_ok_revoke [OF assms(1)] ins new(1)] fam by simp
  then show ?thesis using s' by simp
qed

lemma rotate_token_live:
  assumes "rows_ok (au_refresh s)" "rotate_refresh h h' now ttl s = Inr (Some i, s')"
  shows "token_live k later s' =
    (if k = h' then later < now + ttl else k \<noteq> h \<and> token_live k later s)"
  using assms(2)
proof (rule rotate_refreshE)
  fix r new :: refresh_row
  let ?rows = "revoke_rows (\<lambda>q. rr_id q = rr_id r) now (au_refresh s)"
  assume r: "r \<in> set (au_refresh s)" "rr_hash r = h" "row_live now r"
    and s': "s' = s\<lparr>au_refresh := ?rows @ [new]\<rparr>"
    and ins: "insert_refresh new ?rows = Inr (?rows @ [new])"
    and new: "rr_hash new = h'" "rr_expires new = now + ttl" "rr_revoked new = None"
  have fresh: "h' \<notin> rr_hash ` set (au_refresh s)"
    using ins new(1) set_map [of rr_hash ?rows] by (auto simp: insert_refresh_def split: if_splits)
  have old: "(\<exists>q \<in> set ?rows. rr_hash q = k \<and> row_live later q) \<longleftrightarrow>
      (\<exists>q \<in> set (au_refresh s). rr_id q \<noteq> rr_id r \<and> rr_hash q = k \<and> row_live later q)"
    by (auto simp: revoke_rows_def row_live_def)
  have keep: "rr_id q \<noteq> rr_id r \<longleftrightarrow> rr_hash q \<noteq> h" if "q \<in> set (au_refresh s)" for q
    using row_eq_by_key [OF assms(1) that r(1)] r(2) by auto
  have "token_live k later s' \<longleftrightarrow> (k = h' \<and> later < now + ttl) \<or>
      (\<exists>q \<in> set ?rows. rr_hash q = k \<and> row_live later q)"
    unfolding token_live_iff s' using new by (auto simp: row_live_def)
  also have "\<dots> \<longleftrightarrow> (k = h' \<and> later < now + ttl) \<or> (k \<noteq> h \<and> token_live k later s)"
    unfolding old token_live_iff using keep by blast
  also have "\<dots> \<longleftrightarrow> (if k = h' then later < now + ttl else k \<noteq> h \<and> token_live k later s)"
    using fresh by (auto simp: token_live_iff)
  finally show ?thesis .
qed

interpretation renewals: rotating_sessions "\<lambda>s. rows_ok (au_refresh s)" token_live rotate_refresh
  by unfold_locales
     (simp add: rotate_refresh_def token_live_def, rule rotate_rows_ok, assumption+,
      rule rotate_token_live, assumption+)

section \<open>Runs\<close>

text \<open>
  Every operation that writes, with its arguments; one that raises leaves the database as it
  was. A run is any sequence of them.
\<close>

datatype auth_op =
    DrawKey string | RotateKey string | EnableTotp string "string list" | DisableTotp
  | Consume string int | Issue string string string int int | Resolve string int
  | Rotate string string int int | Revoke int int | RevokeAll int
  | Attempt string string bool int | Lock lockout | ClearLock string
  | Audit int string string string string

definition keep_on_error :: "auth_db \<Rightarrow> auth_db result \<Rightarrow> auth_db" where
  "keep_on_error s r = (case r of Inl e \<Rightarrow> s | Inr s' \<Rightarrow> s')"

fun auth_apply :: "auth_op \<Rightarrow> auth_db \<Rightarrow> auth_db" where
  "auth_apply (DrawKey k) s = snd (access_key k s)"
| "auth_apply (RotateKey k) s = snd (rotate_access_key k s)"
| "auth_apply (EnableTotp t hs) s = keep_on_error s (enable_totp t hs s)"
| "auth_apply DisableTotp s = disable_totp s"
| "auth_apply (Consume h now) s = snd (consume_recovery_code h now s)"
| "auth_apply (Issue h l sc now ttl) s =
     keep_on_error s (rbind (issue_refresh h l sc now ttl s) (\<lambda>p. Inr (snd p)))"
| "auth_apply (Resolve h now) s = snd (resolve_refresh h now s)"
| "auth_apply (Rotate h h' now ttl) s =
     keep_on_error s (rbind (rotate_refresh h h' now ttl s) (\<lambda>p. Inr (snd p)))"
| "auth_apply (Revoke i now) s = snd (revoke_refresh i now s)"
| "auth_apply (RevokeAll now) s = snd (revoke_all now s)"
| "auth_apply (Attempt ip u ok now) s = record_attempt ip u ok now s"
| "auth_apply (Lock l) s = lock l s"
| "auth_apply (ClearLock k) s = clear_lock k s"
| "auth_apply (Audit now a b c d) s = record_audit now a b c d s"

definition auth_run :: "auth_op list \<Rightarrow> auth_db \<Rightarrow> auth_db" where
  "auth_run ops s = fold auth_apply ops s"

lemma rotate_refresh_None:
  "rotate_refresh h h' now ttl s = Inr (None, s') \<Longrightarrow> s' = s"
  by (auto simp: rotate_refresh_def Let_def rbind_eq_Inr split: option.splits)

lemma issue_refreshE:
  assumes "issue_refresh h l sc now ttl s = Inr (i, s')"
  obtains new :: refresh_row where "s' = s\<lparr>au_refresh := au_refresh s @ [new]\<rparr>"
    "insert_refresh new (au_refresh s) = Inr (au_refresh s @ [new])"
    "rr_id new = next_refresh_id (au_refresh s)" "rr_id new = i" "rr_hash new = h"
    "rr_family new = None" "rr_revoked new = None" "rr_expires new = now + ttl"
    "rr_scope new = sc" "rr_label new = l"
proof -
  let ?new = "\<lparr>rr_id = next_refresh_id (au_refresh s), rr_hash = h, rr_label = l, rr_scope = sc,
    rr_issued = now, rr_expires = now + ttl, rr_seen = now, rr_revoked = None, rr_family = None\<rparr>"
  have res: "rbind (insert_refresh ?new (au_refresh s))
      (\<lambda>rows. Inr (next_refresh_id (au_refresh s), s\<lparr>au_refresh := rows\<rparr>)) = Inr (i, s')"
    using assms unfolding issue_refresh_def Let_def .
  then have ins: "insert_refresh ?new (au_refresh s) = Inr (au_refresh s @ [?new])"
    by (auto simp: rbind_eq_Inr insert_refresh_def split: if_splits)
  show thesis
    by (rule that [OF _ ins]) (use res [unfolded ins rbind_simps] in auto)
qed

text \<open>What one operation does to the session table.\<close>

lemma apply_rows:
  obtains (same) "au_refresh (auth_apply op s) = au_refresh s"
  | (seen) i now where "au_refresh (auth_apply op s) = set_seen i now (au_refresh s)"
  | (revoke) p now where "au_refresh (auth_apply op s) = revoke_rows p now (au_refresh s)"
      "\<forall>r \<in> set (au_refresh s). p r \<longrightarrow> rr_revoked r = None"
  | (issue) h l sc now ttl i where "issue_refresh h l sc now ttl s = Inr (i, auth_apply op s)"
  | (rotate) h h' now ttl i where "rotate_refresh h h' now ttl s = Inr (Some i, auth_apply op s)"
proof (cases op)
  case (Issue h l sc now ttl)
  then show thesis
    by (cases "issue_refresh h l sc now ttl s") (auto simp: keep_on_error_def intro: same issue)
next
  case (Rotate h h' now ttl)
  show thesis
  proof (cases "rotate_refresh h h' now ttl s")
    case (Inl e)
    with Rotate show thesis by (intro same) (simp add: keep_on_error_def)
  next
    case (Inr p)
    obtain j s1 where p: "p = (j, s1)" by (cases p)
    with Rotate Inr have s1: "auth_apply op s = s1" by (simp add: keep_on_error_def)
    show thesis
    proof (cases j)
      case None
      then have "s1 = s" using Inr p rotate_refresh_None by simp
      then show thesis using same s1 by simp
    next
      case (Some i)
      then show thesis using rotate Inr p s1 by simp
    qed
  qed
next
  case (Resolve h now)
  then show thesis
    by (cases "find_live h now (au_refresh s)")
       (auto simp: resolve_refresh_def intro: same seen)
next
  case (Revoke i now)
  then show thesis by (intro revoke) (auto simp: revoke_refresh_def Let_def)
next
  case (RevokeAll now)
  then show thesis by (intro revoke) (auto simp: revoke_all_def row_live_def)
qed (auto intro!: same simp: access_key_def access_key_race_def rotate_access_key_def
      enable_totp_def disable_totp_def consume_recovery_code_def record_attempt_def lock_def
      clear_lock_def record_audit_def keep_on_error_def Let_def split: option.splits)

lemma apply_rows_ok: "rows_ok (au_refresh s) \<Longrightarrow> rows_ok (au_refresh (auth_apply op s))"
proof (cases rule: apply_rows [of op s])
  case (issue h l sc now ttl i)
  assume ok: "rows_ok (au_refresh s)"
  show ?thesis
    by (rule issue_refreshE [OF issue]) (use rows_ok_insert [OF ok] in fastforce)
qed (auto intro: rotate_rows_ok)

lemma apply_dicts_ok:
  "dict_ok (au_codes s) \<and> dict_ok (au_state s) \<and> dict_ok (au_locks s) \<Longrightarrow>
     dict_ok (au_codes (auth_apply op s)) \<and> dict_ok (au_state (auth_apply op s)) \<and>
     dict_ok (au_locks (auth_apply op s))"
proof (cases op)
  case (EnableTotp t hs)
  assume "dict_ok (au_codes s) \<and> dict_ok (au_state s) \<and> dict_ok (au_locks s)"
  then show ?thesis
    using EnableTotp by (simp add: enable_totp_def keep_on_error_def dict_ok_def comp_def dict_set_def
        distinct_update)
next
  case (Rotate h h' now ttl)
  assume ok: "dict_ok (au_codes s) \<and> dict_ok (au_state s) \<and> dict_ok (au_locks s)"
  show ?thesis
  proof (cases "rotate_refresh h h' now ttl s")
    case (Inr p)
    then show ?thesis using Rotate ok
      by (cases p; cases "fst p") (auto simp: keep_on_error_def dest: rotate_refresh_None
          elim!: rotate_refreshE)
  qed (use Rotate ok in \<open>simp add: keep_on_error_def\<close>)
next
  case (Issue h l sc now ttl)
  assume ok: "dict_ok (au_codes s) \<and> dict_ok (au_state s) \<and> dict_ok (au_locks s)"
  then show ?thesis using Issue
    by (cases "issue_refresh h l sc now ttl s")
       (auto simp: keep_on_error_def elim!: issue_refreshE)
qed (auto simp: access_key_def access_key_race_def rotate_access_key_def
      disable_totp_def consume_recovery_code_def record_attempt_def lock_def resolve_refresh_def
      revoke_refresh_def revoke_all_def
      clear_lock_def record_audit_def keep_on_error_def Let_def split: option.splits)

lemma auth_ok_apply: "auth_ok s \<Longrightarrow> auth_ok (auth_apply op s)"
  unfolding auth_ok_def using apply_rows_ok apply_dicts_ok by blast

lemma auth_ok_run: "auth_ok s \<Longrightarrow> auth_ok (auth_run ops s)"
  unfolding auth_run_def by (induction ops arbitrary: s) (auto intro: auth_ok_apply)

lemma auth_ok_empty: "auth_ok empty_auth"
  by (simp add: auth_ok_def rows_ok_def empty_auth_def)

text \<open>How a row may change: not in its identity, scope or expiry, and a revocation is final.\<close>

definition row_evolves :: "refresh_row \<Rightarrow> refresh_row \<Rightarrow> bool" where
  "row_evolves r q \<longleftrightarrow> rr_id q = rr_id r \<and> rr_hash q = rr_hash r \<and> rr_scope q = rr_scope r \<and>
     rr_label q = rr_label r \<and> rr_expires q = rr_expires r \<and> family q = family r \<and>
     (rr_revoked r = None \<or> rr_revoked q = rr_revoked r)"

lemma row_evolves_refl [simp]: "row_evolves r r"
  by (simp add: row_evolves_def)

lemma row_evolves_trans: "row_evolves a b \<Longrightarrow> row_evolves b c \<Longrightarrow> row_evolves a c"
  by (auto simp: row_evolves_def)

lemma revoke_evolves:
  "r \<in> set rows \<Longrightarrow> \<forall>r \<in> set rows. p r \<longrightarrow> rr_revoked r = None \<Longrightarrow>
     \<exists>q \<in> set (revoke_rows p now rows). row_evolves r q"
  by (rule bexI [where x = "if p r then r\<lparr>rr_revoked := Some now\<rparr> else r"])
     (auto simp: revoke_rows_def row_evolves_def)

lemma seen_evolves:
  "r \<in> set rows \<Longrightarrow> \<exists>q \<in> set (set_seen i now rows). row_evolves r q"
  by (rule bexI [where x = "if rr_id r = i then r\<lparr>rr_seen := now\<rparr> else r"])
     (auto simp: set_seen_def row_evolves_def)

lemma apply_evolves:
  assumes "rows_ok (au_refresh s)" "r \<in> set (au_refresh s)"
  shows "\<exists>q \<in> set (au_refresh (auth_apply op s)). row_evolves r q"
proof (cases rule: apply_rows [of op s])
  case same
  then show ?thesis using assms by (intro bexI [of _ r]) simp_all
next
  case (seen i now)
  then show ?thesis using seen_evolves assms by simp
next
  case (revoke p now)
  then show ?thesis using revoke_evolves assms by simp
next
  case (issue h l sc now ttl i)
  show ?thesis
    by (rule issue_refreshE [OF issue]) (use assms in \<open>auto intro: bexI [of _ r]\<close>)
next
  case (rotate h h' now ttl i)
  show ?thesis
  proof (rule rotate_refreshE [OF rotate])
    fix o1 new :: refresh_row
    assume o1: "o1 \<in> set (au_refresh s)" "row_live now o1"
      and s': "auth_apply op s =
        s\<lparr>au_refresh := revoke_rows (\<lambda>q. rr_id q = rr_id o1) now (au_refresh s) @ [new]\<rparr>"
    have "\<forall>q \<in> set (au_refresh s). rr_id q = rr_id o1 \<longrightarrow> rr_revoked q = None"
      using row_eq_by_key [OF assms(1) _ o1(1)] o1(2) by (auto simp: row_live_def)
    from revoke_evolves [OF assms(2) this] show ?thesis unfolding s' by auto
  qed
qed

lemma run_evolves:
  "rows_ok (au_refresh s) \<Longrightarrow> r \<in> set (au_refresh s) \<Longrightarrow>
     \<exists>q \<in> set (au_refresh (auth_run ops s)). row_evolves r q"
proof (induction ops arbitrary: s r)
  case (Cons op ops)
  obtain q where "q \<in> set (au_refresh (auth_apply op s))" "row_evolves r q"
    using apply_evolves Cons.prems by blast
  then obtain x where "x \<in> set (au_refresh (auth_run ops (auth_apply op s)))" "row_evolves q x"
    using Cons.IH [OF apply_rows_ok [OF Cons.prems(1)]] by blast
  then show ?case
    using row_evolves_trans [OF \<open>row_evolves r q\<close>] by (auto simp: auth_run_def)
qed (auto simp: auth_run_def intro: row_evolves_refl)

lemma auth_ok_from_empty: "rows_ok (au_refresh (auth_run ops empty_auth))"
  using auth_ok_run [OF auth_ok_empty] by (simp add: auth_ok_def)

lemma auth_run_append: "auth_run (a @ b) s = auth_run b (auth_run a s)"
  by (simp add: auth_run_def)

lemma revoked_not_live:
  assumes "rows_ok (au_refresh s)" "q \<in> set (au_refresh s)" "rr_revoked q \<noteq> None"
  shows "\<not> token_live (rr_hash q) now s"
  using row_eq_by_key [OF assms(1) _ assms(2)] assms(3) by (auto simp: token_live_iff row_live_def)

text \<open>A spent recovery code: present and marked, or gone with the enrolment it came from.\<close>

definition is_enrolment :: "auth_op \<Rightarrow> bool" where
  "is_enrolment op = (case op of EnableTotp t hs \<Rightarrow> True | _ \<Rightarrow> False)"

definition code_unused :: "string \<Rightarrow> auth_db \<Rightarrow> bool" where
  "code_unused h s \<longleftrightarrow> dict_get h (au_codes s) = Some None"

lemma consume_iff: "fst (consume_recovery_code h now s) \<longleftrightarrow> code_unused h s"
  by (auto simp: consume_recovery_code_def code_unused_def split: option.splits)

lemma consume_spends: "\<not> code_unused h (snd (consume_recovery_code h now s))"
  by (auto simp: consume_recovery_code_def code_unused_def split: option.splits)

lemma apply_codes:
  assumes "\<not> is_enrolment op" "\<not> code_unused h s"
  shows "\<not> code_unused h (auth_apply op s)"
proof (cases op)
  case (Rotate k k' now ttl)
  show ?thesis
  proof (cases "rotate_refresh k k' now ttl s")
    case (Inr p)
    then show ?thesis using Rotate assms
      by (cases p; cases "fst p") (auto simp: keep_on_error_def code_unused_def
          dest: rotate_refresh_None elim!: rotate_refreshE)
  qed (use Rotate assms in \<open>simp add: keep_on_error_def\<close>)
next
  case (Issue k l sc now ttl)
  then show ?thesis using assms
    by (cases "issue_refresh k l sc now ttl s")
       (auto simp: keep_on_error_def code_unused_def elim!: issue_refreshE)
qed (use assms in \<open>auto simp: is_enrolment_def code_unused_def access_key_def
      access_key_race_def rotate_access_key_def disable_totp_def consume_recovery_code_def
      record_attempt_def lock_def resolve_refresh_def revoke_refresh_def revoke_all_def clear_lock_def
      record_audit_def Let_def split: option.splits\<close>)

lemma run_codes:
  "list_all (\<lambda>op. \<not> is_enrolment op) ops \<Longrightarrow> \<not> code_unused h s \<Longrightarrow>
     \<not> code_unused h (auth_run ops s)"
  by (induction ops arbitrary: s) (auto simp: auth_run_def apply_codes)

section \<open>Properties\<close>

text \<open>
  Whatever sequence of operations runs on an empty database, ids and hashes of the
  session rows stay unique, every family is named after a row, and each family has at most
  one row that is not revoked.
\<close>

theorem auth_tables_ok: "auth_ok (auth_run ops empty_auth)"
  by (rule auth_ok_run [OF auth_ok_empty])

text \<open>
  Once a session row is revoked, no sequence of operations brings its token back: the
  row keeps its id, hash, scope and the time of its revocation, and the token resolves at no
  time.
\<close>

theorem revocation_is_final:
  assumes "r \<in> set (au_refresh (auth_run ops empty_auth))" and "rr_revoked r = Some t"
  shows "(\<exists>q \<in> set (au_refresh (auth_run (ops @ rest) empty_auth)).
       rr_id q = rr_id r \<and> rr_scope q = rr_scope r \<and> rr_hash q = rr_hash r \<and> rr_revoked q = Some t) \<and>
     fst (resolve_refresh (rr_hash r) now (auth_run (ops @ rest) empty_auth)) = None"
proof -
  let ?s = "auth_run (ops @ rest) empty_auth"
  obtain q where q: "q \<in> set (au_refresh ?s)" "row_evolves r q"
    using run_evolves [OF auth_ok_from_empty assms(1)] unfolding auth_run_append by blast
  then have "rr_revoked q = Some t" "rr_hash q = rr_hash r" using assms(2) by (auto simp: row_evolves_def)
  moreover from this have "\<not> token_live (rr_hash r) now ?s"
    using revoked_not_live [OF auth_ok_from_empty q(1)] by simp
  ultimately show ?thesis
    using q by (auto simp: row_evolves_def token_live_def resolve_refresh_def)
qed

definition sample_ops :: "auth_op list" where
  "sample_ops = [Issue ''h1'' ''phone'' ''control'' 100 1000, Rotate ''h1'' ''h2'' 200 1000]"

lemma sample_rows:
  "au_refresh (auth_run sample_ops empty_auth) =
     [\<lparr>rr_id = 1, rr_hash = ''h1'', rr_label = ''phone'', rr_scope = ''control'', rr_issued = 100,
       rr_expires = 1100, rr_seen = 100, rr_revoked = Some 200, rr_family = None\<rparr>,
      \<lparr>rr_id = 2, rr_hash = ''h2'', rr_label = ''phone'', rr_scope = ''control'', rr_issued = 200,
       rr_expires = 1200, rr_seen = 200, rr_revoked = None, rr_family = Some 1\<rparr>]"
  by (simp add: sample_ops_def auth_run_def empty_auth_def issue_refresh_def rotate_refresh_def
      insert_refresh_def next_refresh_id_def max_or0_def fits64_def keep_on_error_def Let_def
      find_live_def row_live_def revoke_rows_def family_or_id_def)

theorem revocation_is_final_witness:
  "fst (resolve_refresh ''h1'' 300 (auth_run (sample_ops @ [RevokeAll 250]) empty_auth)) = None"
  using revocation_is_final [of "hd (au_refresh (auth_run sample_ops empty_auth))" sample_ops 200
      "[RevokeAll 250]" 300] by (simp add: sample_rows)

text \<open>
  C6. A client renews its session again and again, from any reachable database. Every token
  of the chain but the last is refused from then on, and refusing it changes nothing.
\<close>

theorem replayed_token_refused:
  assumes "distinct (h # map fst hs)"
    and "rotations rotate_refresh ttl h hs (auth_run ops empty_auth) = Some s"
    and "k \<in> set (butlast (h # map fst hs))"
  shows "rotate_refresh k k' later ttl' s = Inr (None, s)"
  by (rule renewals.replay_refused [OF auth_ok_from_empty assms])

theorem replayed_token_refused_witness:
  "rotations rotate_refresh 1000 ''h2'' [(''h3'', 300), (''h4'', 400)]
       (auth_run sample_ops empty_auth) \<noteq> None \<and>
     rotate_refresh ''h3'' ''h5'' 500 1000 (the (rotations rotate_refresh 1000 ''h2''
       [(''h3'', 300), (''h4'', 400)] (auth_run sample_ops empty_auth)))
     = Inr (None, the (rotations rotate_refresh 1000 ''h2'' [(''h3'', 300), (''h4'', 400)]
         (auth_run sample_ops empty_auth)))"
proof -
  have "\<exists>s. rotations rotate_refresh 1000 ''h2'' [(''h3'', 300), (''h4'', 400)]
      (auth_run sample_ops empty_auth) = Some s"
    by (simp add: sample_rows rotate_refresh_def insert_refresh_def next_refresh_id_def
        max_or0_def fits64_def Let_def find_live_def row_live_def revoke_rows_def family_or_id_def)
  then obtain s where s: "rotations rotate_refresh 1000 ''h2'' [(''h3'', 300), (''h4'', 400)]
      (auth_run sample_ops empty_auth) = Some s" by blast
  show ?thesis unfolding s option.sel using replayed_token_refused [OF _ s] by simp
qed

text \<open>
  A recovery code is accepted at most once: after it has been consumed no sequence of
  operations without a new enrolment makes it usable again.
\<close>

theorem recovery_code_single_use:
  assumes "list_all (\<lambda>op. \<not> is_enrolment op) ops"
  shows "\<not> fst (consume_recovery_code h later
            (auth_run ops (snd (consume_recovery_code h now s))))"
  unfolding consume_iff using run_codes [OF assms consume_spends] .

theorem recovery_code_single_use_witness:
  "\<not> fst (consume_recovery_code ''c'' 9 (auth_run [DisableTotp, Consume ''c'' 7]
       (snd (consume_recovery_code ''c'' 5 (auth_run [EnableTotp ''T'' [''c'', ''d'']] empty_auth)))))"
  by (rule recovery_code_single_use) (simp add: is_enrolment_def)

end
