(* ===== verification/Login.thy ===== *)
theory Login
  imports AuthStore Config
begin

text \<open>
  The login policy, \<open>gateway/login.py\<close>: who is let in, who is locked out and for how long. The
  code reads and writes the tables of \<open>AuthStore\<close> and may send alerts; both are the world of
  an effectful function. The service record holds the configuration, the cached signing key
  and the hash functions; random draws are arguments.
\<close>

section \<open>Data\<close>

definition IP_LADDER :: "int list" where "IP_LADDER = [60, 120, 240, 480, 900]"
definition IP_FAILURE_THRESHOLD :: int where "IP_FAILURE_THRESHOLD = 3"
definition IP_FAILURE_WINDOW_SECONDS :: int where "IP_FAILURE_WINDOW_SECONDS = 900"
definition ACCOUNT_FAILURE_THRESHOLD :: int where "ACCOUNT_FAILURE_THRESHOLD = 5"
definition ACCOUNT_FAILURE_WINDOW_SECONDS :: int where "ACCOUNT_FAILURE_WINDOW_SECONDS = 3600"

lemmas login_constants = IP_FAILURE_THRESHOLD_def IP_FAILURE_WINDOW_SECONDS_def
  ACCOUNT_FAILURE_THRESHOLD_def ACCOUNT_FAILURE_WINDOW_SECONDS_def

datatype refusal_reason = BadCredentials | TotpRequired | BadTotp | Locked | NotConfigured

fun reason_value :: "refusal_reason \<Rightarrow> string" where
  "reason_value BadCredentials = ''bad_credentials''"
| "reason_value TotpRequired = ''totp_required''"
| "reason_value BadTotp = ''bad_totp''"
| "reason_value Locked = ''locked''"
| "reason_value NotConfigured = ''not_configured''"

record tokens =
  tk_refresh :: string
  tk_access :: string
  tk_scope :: string
  tk_refresh_expires :: int
  tk_access_expires :: int

record login_outcome =
  out_tokens :: "tokens option"
  out_reason :: "refusal_reason option"
  out_locked_until :: "int option"

record login_world =
  lw_db :: auth_db
  lw_alerts :: "(string \<times> string) list"

record login_service =
  ls_config :: gateway_config
  ls_key :: string
  ls_alerting :: bool
  ls_scrypt :: scrypt
  ls_mac1 :: "string \<Rightarrow> string \<Rightarrow> string"
  ls_mac256 :: "string \<Rightarrow> string \<Rightarrow> string"
  ls_sha :: "string \<Rightarrow> string"

section \<open>Access to the tables\<close>

definition db_read :: "(auth_db \<Rightarrow> 'a) \<Rightarrow> (login_world, 'a) io" where
  "db_read f = (\<lambda>w. (Inr (f (lw_db w)), w))"

definition db_write :: "(auth_db \<Rightarrow> auth_db) \<Rightarrow> (login_world, unit) io" where
  "db_write f = (\<lambda>w. (Inr (), w\<lparr>lw_db := f (lw_db w)\<rparr>))"

definition db_update :: "(auth_db \<Rightarrow> 'a \<times> auth_db) \<Rightarrow> (login_world, 'a) io" where
  "db_update f = (\<lambda>w. case f (lw_db w) of (x, s) \<Rightarrow> (Inr x, w\<lparr>lw_db := s\<rparr>))"

definition db_try :: "(auth_db \<Rightarrow> ('a \<times> auth_db) result) \<Rightarrow> (login_world, 'a) io" where
  "db_try f = (\<lambda>w. case f (lw_db w) of Inl e \<Rightarrow> (Inl e, w) | Inr (x, s) \<Rightarrow> (Inr x, w\<lparr>lw_db := s\<rparr>))"

lemma db_simps [io_simps, simp]:
  "db_read f w = (Inr (f (lw_db w)), w)"
  "db_write g w = (Inr (), w\<lparr>lw_db := g (lw_db w)\<rparr>)"
  by (simp_all add: db_read_def db_write_def)

section \<open>Operations\<close>

text \<open>\<open>hmac.compare_digest\<close> of two texts: both must be ASCII.\<close>

definition is_ascii :: "string \<Rightarrow> bool" where
  "is_ascii s = list_all (\<lambda>c. code c < 128) s"

definition compare_digest :: "string \<Rightarrow> string \<Rightarrow> bool result" where
  "compare_digest a b =
     (if is_ascii a \<and> is_ascii b then Inr (a = b)
      else Inl (TypeError ''comparing strings with non-ASCII characters is not supported''))"

definition new_service :: "gateway_config \<Rightarrow> bool \<Rightarrow> scrypt \<Rightarrow> (string \<Rightarrow> string \<Rightarrow> string)
     \<Rightarrow> (string \<Rightarrow> string \<Rightarrow> string) \<Rightarrow> (string \<Rightarrow> string) \<Rightarrow> string \<Rightarrow> auth_db
     \<Rightarrow> login_service result \<times> auth_db" where
  "new_service config alerting scrypt mac1 mac256 sha drawn s =
     (case access_key drawn s of
        (r, s') \<Rightarrow> (rbind r (\<lambda>key. Inr \<lparr>ls_config = config, ls_key = key, ls_alerting = alerting,
            ls_scrypt = scrypt, ls_mac1 = mac1, ls_mac256 = mac256, ls_sha = sha\<rparr>), s'))"

definition ip_subject :: "string \<Rightarrow> string" where "ip_subject ip = ''ip:'' @ ip"
definition account_subject :: "string \<Rightarrow> string" where "account_subject u = ''account:'' @ u"

definition make_tokens :: "login_service \<Rightarrow> string \<Rightarrow> int \<Rightarrow> string \<Rightarrow> int \<Rightarrow> tokens" where
  "make_tokens ls refresh refresh_id scope now =
     (let access_expires_at = now + gc_access_ttl (ls_config ls)
      in \<lparr>tk_refresh = refresh,
          tk_access = issue_access_token (ls_mac256 ls) (ls_key ls) refresh_id scope access_expires_at,
          tk_scope = scope, tk_refresh_expires = now + gc_refresh_ttl (ls_config ls),
          tk_access_expires = access_expires_at\<rparr>)"

definition refuse :: "refusal_reason \<Rightarrow> int option \<Rightarrow> login_outcome" where
  "refuse reason until = \<lparr>out_tokens = None, out_reason = Some reason, out_locked_until = until\<rparr>"

definition granted :: "tokens \<Rightarrow> login_outcome" where
  "granted t = \<lparr>out_tokens = Some t, out_reason = None, out_locked_until = None\<rparr>"

definition send_alert :: "login_service \<Rightarrow> string \<Rightarrow> string \<Rightarrow> (login_world, unit) io" where
  "send_alert ls reason message =
     (\<lambda>w. (Inr (), if ls_alerting ls then w\<lparr>lw_alerts := lw_alerts w @ [(reason, message)]\<rparr> else w))"

definition admin_of :: "login_service \<Rightarrow> admin_config" where
  "admin_of ls = gc_admin (ls_config ls)"

text \<open>The two halves of \<open>_record_failure\<close> after the attempt is recorded: the locks they take.\<close>

definition lock_ip :: "string \<Rightarrow> int \<Rightarrow> (login_world, string list) io" where
  "lock_ip ip now =
     io_bind (io_bind (db_read (failures_since (now - IP_FAILURE_WINDOW_SECONDS) (Some ip) None))
       io_lift) (\<lambda>failures.
     if failures < IP_FAILURE_THRESHOLD then io_ret []
     else io_bind (db_read (last_level (ip_subject ip))) (\<lambda>level.
          io_bind (db_write (lock (next_lockout (ip_subject ip) level now IP_LADDER))) (\<lambda>u.
          io_ret [ip_subject ip])))"

definition lock_account :: "login_service \<Rightarrow> int \<Rightarrow> (login_world, string list) io" where
  "lock_account ls now =
     (let admin = ad_username (admin_of ls); subject = account_subject admin
      in io_bind (io_bind (db_read (failures_since (now - ACCOUNT_FAILURE_WINDOW_SECONDS) None
           (Some admin))) io_lift) (\<lambda>failures.
         if failures < ACCOUNT_FAILURE_THRESHOLD then io_ret []
         else
           io_bind (if failures = ACCOUNT_FAILURE_THRESHOLD
             then send_alert ls ''failed_logins''
               ''Five failed login attempts were made for the administrator.''
             else io_ret ()) (\<lambda>u1.
           io_bind (db_read (last_level subject)) (\<lambda>level.
           io_bind (db_write (lock (next_lockout subject level now LOCKOUT_LADDER))) (\<lambda>u2.
           io_bind (send_alert ls ''account_lockout''
             ''The Rackphone administrator account has been locked.'') (\<lambda>u3.
           io_ret [subject]))))))"

definition record_failure :: "login_service \<Rightarrow> string \<Rightarrow> string \<Rightarrow> int \<Rightarrow> refusal_reason
     \<Rightarrow> (login_world, login_outcome) io" where
  "record_failure ls username ip now reason =
     io_bind (db_write (record_attempt ip username False now)) (\<lambda>u0.
     io_bind (lock_ip ip now) (\<lambda>ip_locks.
     io_bind (io_lift (compare_digest username (ad_username (admin_of ls)))) (\<lambda>names_admin.
     io_bind (if names_admin then lock_account ls now else io_ret []) (\<lambda>account_locks.
     let locks = ip_locks @ account_locks;
         detail = ''reason='' @ reason_value reason @
           (if locks = [] then [] else ''; locked='' @ join '','' locks)
     in io_bind (db_write (record_audit now ''login_failed'' username ip detail)) (\<lambda>u1.
        io_ret (refuse reason None))))))"

text \<open>The later of the locks that hold: \<open>max(lock.until for lock in ... if lock is not None)\<close>.\<close>

definition lock_until :: "lockout option \<Rightarrow> lockout option \<Rightarrow> int option" where
  "lock_until a b =
     (case (a, b) of
        (None, None) \<Rightarrow> None
      | (Some x, None) \<Rightarrow> Some (lo_until x)
      | (None, Some y) \<Rightarrow> Some (lo_until y)
      | (Some x, Some y) \<Rightarrow> Some (max (lo_until x) (lo_until y)))"

definition second_factor :: "login_service \<Rightarrow> string \<Rightarrow> string \<Rightarrow> int \<Rightarrow> string option \<Rightarrow> string option
     \<Rightarrow> string \<Rightarrow> (login_world, login_outcome option) io" where
  "second_factor ls username ip now totp recovery secret =
     (if totp = None \<and> recovery = None
      then io_bind (record_failure ls username ip now TotpRequired) (\<lambda>out. io_ret (Some out))
      else
        let totp_ok = (case totp of None \<Rightarrow> False | Some c \<Rightarrow> verify_totp (ls_mac1 ls) secret c now 1)
        in io_bind (if totp_ok then io_ret False
                    else (case recovery of
                        None \<Rightarrow> io_ret False
                      | Some c \<Rightarrow> db_update (consume_recovery_code (hash_token (ls_sha ls) c) now)))
             (\<lambda>recovery_ok.
           if \<not> totp_ok \<and> \<not> recovery_ok
           then io_bind (record_failure ls username ip now BadTotp) (\<lambda>out. io_ret (Some out))
           else io_ret None))"

definition check_credentials :: "login_service \<Rightarrow> string \<Rightarrow> string \<Rightarrow> string \<Rightarrow> int \<Rightarrow> string option
     \<Rightarrow> string option \<Rightarrow> (login_world, login_outcome option) io" where
  "check_credentials ls username password ip now totp recovery =
     (let admin = admin_of ls
      in if \<not> is_configured admin then io_ret (Some (refuse NotConfigured None))
         else
           io_bind (db_read (active_lock (ip_subject ip) now)) (\<lambda>ip_lock.
           io_bind (db_read (active_lock (account_subject (ad_username admin)) now)) (\<lambda>account_lock.
           case lock_until ip_lock account_lock of
             Some until \<Rightarrow> io_ret (Some (refuse Locked (Some until)))
           | None \<Rightarrow>
               io_bind (io_lift (compare_digest username (ad_username admin))) (\<lambda>username_ok.
               if \<not> username_ok \<or> \<not> verify_password (ls_scrypt ls) password (ad_password_hash admin)
               then io_bind (record_failure ls username ip now BadCredentials) (\<lambda>out. io_ret (Some out))
               else io_bind (db_read totp_secret) (\<lambda>secret.
                 case secret of
                   None \<Rightarrow> io_ret None
                 | Some k \<Rightarrow> second_factor ls username ip now totp recovery k)))))"

definition issue_session :: "login_service \<Rightarrow> string \<Rightarrow> string \<Rightarrow> string \<Rightarrow> int \<Rightarrow> string \<Rightarrow> string
     \<Rightarrow> (login_world, login_outcome) io" where
  "issue_session ls username ip label now scope drawn =
     (let admin = admin_of ls; refresh = generate_token drawn
      in io_bind (db_write (record_attempt ip username True now)) (\<lambda>u1.
         io_bind (db_write (clear_lock (ip_subject ip))) (\<lambda>u2.
         io_bind (db_write (clear_lock (account_subject (ad_username admin)))) (\<lambda>u3.
         io_bind (db_read (\<lambda>s. list_ex (\<lambda>x. se_label x = label) (list_refresh s))) (\<lambda>known.
         io_bind (db_try (issue_refresh (hash_token (ls_sha ls) refresh) label scope now
           (gc_refresh_ttl (ls_config ls)))) (\<lambda>refresh_id.
         io_bind (db_write (record_audit now ''login'' (ad_username admin) label (''scope='' @ scope)))
           (\<lambda>u4.
         io_bind (if known then io_ret ()
                  else send_alert ls ''new_device'' ''A login succeeded from a device not seen before.'')
           (\<lambda>u5. io_ret (granted (make_tokens ls refresh refresh_id scope now))))))))))"

definition log_in :: "login_service \<Rightarrow> string \<Rightarrow> string \<Rightarrow> string \<Rightarrow> string \<Rightarrow> int \<Rightarrow> string option
     \<Rightarrow> string option \<Rightarrow> string \<Rightarrow> string \<Rightarrow> (login_world, login_outcome) io" where
  "log_in ls username password ip label now totp recovery scope drawn =
     io_bind (check_credentials ls username password ip now totp recovery) (\<lambda>refusal.
     case refusal of
       Some out \<Rightarrow> io_ret out
     | None \<Rightarrow> issue_session ls username ip label now scope drawn)"

definition reauthenticate :: "login_service \<Rightarrow> string \<Rightarrow> string \<Rightarrow> int \<Rightarrow> string option \<Rightarrow> string option
     \<Rightarrow> (login_world, login_outcome option) io" where
  "reauthenticate ls password ip now totp recovery =
     check_credentials ls (ad_username (admin_of ls)) password ip now totp recovery"

definition renew_login :: "login_service \<Rightarrow> string \<Rightarrow> int \<Rightarrow> string \<Rightarrow> (login_world, login_outcome) io" where
  "renew_login ls refresh_token now drawn =
     (let old_hash = hash_token (ls_sha ls) refresh_token; replacement = generate_token drawn
      in io_bind (db_update (resolve_refresh old_hash now)) (\<lambda>found.
         case found of
           None \<Rightarrow> io_ret (refuse BadCredentials None)
         | Some session \<Rightarrow>
             io_bind (db_try (rotate_refresh old_hash (hash_token (ls_sha ls) replacement) now
               (gc_refresh_ttl (ls_config ls)))) (\<lambda>refresh_id.
             case refresh_id of
               None \<Rightarrow> io_ret (refuse BadCredentials None)
             | Some i \<Rightarrow>
                 io_bind (db_write (record_audit now ''refresh'' (ad_username (admin_of ls))
                   (se_label session) (''scope='' @ se_scope session))) (\<lambda>u.
                 io_ret (granted (make_tokens ls replacement i (se_scope session) now))))))"

definition authorise :: "login_service \<Rightarrow> string \<Rightarrow> int \<Rightarrow> string \<Rightarrow> access_claims option" where
  "authorise ls access_token now required =
     (case verify_access_token (ls_mac256 ls) (ls_key ls) access_token now of
        None \<Rightarrow> None
      | Some claims \<Rightarrow> if scope_allows (ac_scope claims) required then Some claims else None)"

definition show_bool :: "bool \<Rightarrow> string" where
  "show_bool b = (if b then ''true'' else ''false'')"

definition log_out :: "login_service \<Rightarrow> string \<Rightarrow> int \<Rightarrow> (login_world, bool) io" where
  "log_out ls refresh_token now =
     io_bind (db_update (resolve_refresh (hash_token (ls_sha ls) refresh_token) now)) (\<lambda>session.
     io_bind (case session of None \<Rightarrow> io_ret False | Some x \<Rightarrow> db_update (revoke_refresh (se_id x) now))
       (\<lambda>revoked.
     io_bind (db_write (record_audit now ''logout'' (ad_username (admin_of ls))
         (case session of None \<Rightarrow> [] | Some x \<Rightarrow> se_label x) (''revoked='' @ show_bool revoked))) (\<lambda>u.
     io_ret revoked)))"

definition log_out_everywhere :: "int \<Rightarrow> (login_world, int) io" where
  "log_out_everywhere now =
     io_bind (db_update (revoke_all now)) (\<lambda>count.
     io_bind (db_write (record_audit now ''logout_everywhere'' [] [] (''count='' @ show_int count)))
       (\<lambda>u. io_ret count))"

definition enable_second_factor :: "login_service \<Rightarrow> string \<Rightarrow> nat list list \<Rightarrow> int
     \<Rightarrow> (login_world, string \<times> string list) io" where
  "enable_second_factor ls drawn draws now =
     (let secret = generate_totp_secret drawn; codes = generate_recovery_codes draws
      in io_bind (db_try (\<lambda>s. rbind (enable_totp secret (map (hash_token (ls_sha ls)) codes) s)
           (\<lambda>s'. Inr ((), s')))) (\<lambda>u1.
         io_bind (db_write (record_audit now ''totp_enabled'' [] [] [])) (\<lambda>u2.
         io_ret (secret, codes))))"

definition disable_second_factor :: "int \<Rightarrow> (login_world, unit) io" where
  "disable_second_factor now =
     io_bind (db_write disable_totp) (\<lambda>u. db_write (record_audit now ''totp_disabled'' [] [] []))"

section \<open>Lemmas\<close>

lemma refuse_fields [simp]:
  "out_tokens (refuse r u) = None" "out_reason (refuse r u) = Some r"
  "out_locked_until (refuse r u) = u" "out_tokens (granted t) = Some t"
  by (simp_all add: refuse_def granted_def)

lemma subjects_differ [simp]: "ip_subject a \<noteq> account_subject b" "account_subject b \<noteq> ip_subject a"
  by (simp_all add: ip_subject_def account_subject_def)

lemma granted_inj [simp]: "granted a = granted b \<longleftrightarrow> a = b"
  by (simp add: granted_def)

text \<open>Failures counted for an address, and for a name.\<close>

definition ip_failures :: "int \<Rightarrow> string \<Rightarrow> auth_db \<Rightarrow> int" where
  "ip_failures since ip s =
     int (length (filter (\<lambda>a. \<not> at_ok a \<and> since \<le> at_time a \<and> at_ip a = ip) (au_attempts s)))"

definition name_failures :: "int \<Rightarrow> string \<Rightarrow> auth_db \<Rightarrow> int" where
  "name_failures since u s =
     int (length (filter (\<lambda>a. \<not> at_ok a \<and> since \<le> at_time a \<and> at_username a = u) (au_attempts s)))"

lemma failures_since_ip [simp]: "failures_since since (Some ip) None s = Inr (ip_failures since ip s)"
  by (simp add: failures_since_def ip_failures_def Let_def conj_commute conj_left_commute)

lemma failures_since_name [simp]:
  "failures_since since None (Some u) s = Inr (name_failures since u s)"
  by (simp add: failures_since_def name_failures_def Let_def conj_commute conj_left_commute)

definition with_ip_lock :: "string \<Rightarrow> int \<Rightarrow> auth_db \<Rightarrow> auth_db" where
  "with_ip_lock ip now s =
     (if ip_failures (now - 900) ip s < 3 then s
      else lock (next_lockout (ip_subject ip) (last_level (ip_subject ip) s) now IP_LADDER) s)"

lemma lock_ip_eval:
  "lock_ip ip now w =
     (Inr (if ip_failures (now - 900) ip (lw_db w) < 3 then [] else [ip_subject ip]),
      w\<lparr>lw_db := with_ip_lock ip now (lw_db w)\<rparr>)"
  by (simp add: lock_ip_def io_bind_app login_constants with_ip_lock_def)

lemma lock_account_Inr: "\<exists>locks w'. lock_account ls now w = (Inr locks, w')"
  by (simp add: lock_account_def io_bind_app Let_def send_alert_def)

text \<open>A failure that names someone else: the account's half is skipped.\<close>

lemma record_failure_other:
  assumes "is_ascii u" "is_ascii (ad_username (admin_of ls))" "u \<noteq> ad_username (admin_of ls)"
  shows "\<exists>detail. record_failure ls u ip now r w =
    (Inr (refuse r None), w\<lparr>lw_db := record_audit now ''login_failed'' u ip detail
       (with_ip_lock ip now (record_attempt ip u False now (lw_db w)))\<rparr>)"
  using assms by (auto simp: record_failure_def io_bind_app lock_ip_eval compare_digest_def Let_def)

lemma record_failure_Inr:
  "record_failure ls u ip now r w = (Inr out, w') \<Longrightarrow> out = refuse r None"
  by (auto simp: record_failure_def io_bind_Inr Let_def)

lemma lock_until_None: "lock_until a b = None \<longleftrightarrow> a = None \<and> b = None"
  by (simp add: lock_until_def split: option.splits)

lemma second_factor_Some:
  "second_factor ls u ip now totp rc k w = (Inr (Some out), w') \<Longrightarrow> out_tokens out = None"
  by (auto simp: second_factor_def io_bind_Inr Let_def dest!: record_failure_Inr split: if_splits)

lemma db_update_Inr:
  "db_update f w = (Inr x, w') \<longleftrightarrow> (\<exists>s. f (lw_db w) = (x, s) \<and> w' = w\<lparr>lw_db := s\<rparr>)"
  by (auto simp: db_update_def split: prod.splits)

lemma second_factor_None:
  assumes "second_factor ls u ip now totp rc k w = (Inr None, w')"
  shows "(\<exists>c. totp = Some c \<and> verify_totp (ls_mac1 ls) k c now 1) \<or>
    (\<exists>c. rc = Some c \<and> code_unused (hash_token (ls_sha ls) c) (lw_db w))"
proof (cases "\<exists>c. totp = Some c \<and> verify_totp (ls_mac1 ls) k c now 1")
  case False
  then have "\<not> (case totp of None \<Rightarrow> False | Some c \<Rightarrow> verify_totp (ls_mac1 ls) k c now 1)"
    by (cases totp) auto
  with assms obtain c where "rc = Some c"
      "fst (consume_recovery_code (hash_token (ls_sha ls) c) now (lw_db w))"
    by (auto simp: second_factor_def io_bind_Inr Let_def db_update_Inr split: if_splits option.splits)
  then show ?thesis by (simp add: consume_iff)
qed simp

text \<open>What a pass of the credential check has seen.\<close>

definition credentials_hold :: "login_service \<Rightarrow> string \<Rightarrow> string \<Rightarrow> string \<Rightarrow> int \<Rightarrow> string option
     \<Rightarrow> string option \<Rightarrow> auth_db \<Rightarrow> bool" where
  "credentials_hold ls u pw ip now totp rc s \<longleftrightarrow>
     is_configured (admin_of ls) \<and> active_lock (ip_subject ip) now s = None \<and>
     active_lock (account_subject (ad_username (admin_of ls))) now s = None \<and>
     u = ad_username (admin_of ls) \<and> verify_password (ls_scrypt ls) pw (ad_password_hash (admin_of ls)) \<and>
     (case totp_secret s of None \<Rightarrow> True | Some k \<Rightarrow>
        (\<exists>c. totp = Some c \<and> verify_totp (ls_mac1 ls) k c now 1) \<or>
        (\<exists>c. rc = Some c \<and> code_unused (hash_token (ls_sha ls) c) s))"

lemma compare_digest_Inr: "compare_digest a b = Inr x \<Longrightarrow> x = (a = b)"
  by (auto simp: compare_digest_def split: if_splits)

lemma check_credentials_None:
  "check_credentials ls u pw ip now totp rc w = (Inr None, w') \<Longrightarrow>
     credentials_hold ls u pw ip now totp rc (lw_db w)"
  unfolding check_credentials_def Let_def credentials_hold_def
  by (auto simp: io_bind_Inr lock_until_None dest!: compare_digest_Inr second_factor_None
      split: if_splits option.splits)

lemma check_credentials_Some:
  "check_credentials ls u pw ip now totp rc w = (Inr (Some out), w') \<Longrightarrow> out_tokens out = None"
  unfolding check_credentials_def Let_def
  by (auto simp: io_bind_Inr dest!: record_failure_Inr second_factor_Some
      split: if_splits option.splits)

lemma check_locked:
  assumes "is_configured (admin_of ls)"
    and "lock_until (active_lock (ip_subject ip) now (lw_db w))
      (active_lock (account_subject (ad_username (admin_of ls))) now (lw_db w)) = Some t"
  shows "check_credentials ls u pw ip now totp rc w = (Inr (Some (refuse Locked (Some t))), w)"
  using assms by (simp add: check_credentials_def Let_def io_bind_app)

lemma next_lockout_bounds:
  assumes "ladder \<noteq> []"
  shows "1 \<le> lo_level (next_lockout k level now ladder)"
    and "lo_level (next_lockout k level now ladder) \<le> int (length ladder)"
    and "\<exists>d \<in> set ladder. lo_until (next_lockout k level now ladder) = now + d"
    and "lo_subject (next_lockout k level now ladder) = k"
proof -
  have "0 < length ladder" using assms by simp
  then show "1 \<le> lo_level (next_lockout k level now ladder)"
    "lo_level (next_lockout k level now ladder) \<le> int (length ladder)"
    by (auto simp: next_lockout_def Let_def)
  have "nat (min (max level 0) (int (length ladder) - 1)) < length ladder"
    using \<open>0 < length ladder\<close> by linarith
  then show "\<exists>d \<in> set ladder. lo_until (next_lockout k level now ladder) = now + d"
    by (auto simp: next_lockout_def Let_def intro: nth_mem)
  show "lo_subject (next_lockout k level now ladder) = k"
    by (simp add: next_lockout_def Let_def)
qed

lemma active_lock_until: "active_lock k now s = Some l \<Longrightarrow> now < lo_until l"
  using ledger.active_until by blast

lemma lock_until_later:
  "lock_until (active_lock a now s) (active_lock b now s) = Some t \<Longrightarrow> now < t"
  using active_lock_until by (fastforce simp: lock_until_def split: option.splits)

lemma active_lock_frame [simp]:
  "active_lock k t (record_attempt ip u ok now s) = active_lock k t s"
  "active_lock k t (record_audit now a b c d s) = active_lock k t s"
  "last_level k (record_attempt ip u ok now s) = last_level k s"
  "last_level k (record_audit now a b c d s) = last_level k s"
  by (simp_all add: active_lock_def last_level_def record_attempt_def record_audit_def)

lemma with_ip_lock_other [simp]:
  "k \<noteq> ip_subject ip \<Longrightarrow> active_lock k t (with_ip_lock ip now s) = active_lock k t s"
  "k \<noteq> ip_subject ip \<Longrightarrow> last_level k (with_ip_lock ip now s) = last_level k s"
  by (simp_all add: with_ip_lock_def ledger.active_put ledger.level_put next_lockout_def Let_def)

text \<open>An attempt under another name leaves the account's lock and level alone.\<close>

lemma log_in_other:
  assumes "u \<noteq> ad_username (admin_of ls)"
    and "log_in ls u pw ip label now totp rc scope drawn w = (r, w')"
  shows "active_lock (account_subject a) t (lw_db w') = active_lock (account_subject a) t (lw_db w) \<and>
    last_level (account_subject a) (lw_db w') = last_level (account_subject a) (lw_db w)"
proof (cases "is_ascii u \<and> is_ascii (ad_username (admin_of ls))")
  case True
  obtain d where "record_failure ls u ip now BadCredentials w =
    (Inr (refuse BadCredentials None), w\<lparr>lw_db := record_audit now ''login_failed'' u ip d
       (with_ip_lock ip now (record_attempt ip u False now (lw_db w)))\<rparr>)"
    using record_failure_other [of u ls] True assms(1) by blast
  with True assms show ?thesis
    by (auto simp: log_in_def check_credentials_def io_bind_app compare_digest_def Let_def
        split: if_splits option.splits)
next
  case False
  with assms(2) show ?thesis
    by (auto simp: log_in_def check_credentials_def io_bind_app compare_digest_def Let_def
        split: if_splits option.splits)
qed

text \<open>A recorded failure with two earlier ones in the window locks the address.\<close>

lemma ip_failures_attempt:
  "since \<le> now \<Longrightarrow> ip_failures since ip (record_attempt ip u False now s) = ip_failures since ip s + 1"
  by (simp add: ip_failures_def record_attempt_def)

lemma with_ip_lock_locks:
  assumes "3 \<le> ip_failures (now - 900) ip s"
  shows "\<exists>l. active_lock (ip_subject ip) now (with_ip_lock ip now s) = Some l \<and>
    now + 60 \<le> lo_until l \<and> lo_until l \<le> now + 900"
proof -
  let ?l = "next_lockout (ip_subject ip) (last_level (ip_subject ip) s) now IP_LADDER"
  have ladder: "IP_LADDER \<noteq> []" by (simp add: IP_LADDER_def)
  obtain d where d: "d \<in> set IP_LADDER" "lo_until ?l = now + d"
    using next_lockout_bounds(3) [OF ladder] by blast
  then have "60 \<le> d" "d \<le> 900" by (auto simp: IP_LADDER_def)
  with d have "now + 60 \<le> lo_until ?l" "lo_until ?l \<le> now + 900" by simp_all
  moreover have "active_lock (ip_subject ip) now (with_ip_lock ip now s) = Some ?l"
    using assms next_lockout_bounds(4) [OF ladder] calculation
    by (simp add: with_ip_lock_def ledger.active_put)
  ultimately show ?thesis by blast
qed

lemma lock_account_frame:
  "lock_account ls now w = (Inr locks, w') \<Longrightarrow>
     active_lock (ip_subject ip) t (lw_db w') = active_lock (ip_subject ip) t (lw_db w)"
  by (auto simp: lock_account_def io_bind_app Let_def send_alert_def ledger.active_put
      next_lockout_def split: if_splits)

lemma record_failure_locks:
  assumes "record_failure ls u ip now r w = (Inr out, w')" "2 \<le> ip_failures (now - 900) ip (lw_db w)"
  shows "\<exists>l. active_lock (ip_subject ip) now (lw_db w') = Some l \<and>
    now + 60 \<le> lo_until l \<and> lo_until l \<le> now + 900"
proof -
  let ?s = "with_ip_lock ip now (record_attempt ip u False now (lw_db w))"
  have "3 \<le> ip_failures (now - 900) ip (record_attempt ip u False now (lw_db w))"
    using assms(2) ip_failures_attempt by simp
  note locked = with_ip_lock_locks [OF this]
  from assms(1) have "active_lock (ip_subject ip) now (lw_db w') =
      active_lock (ip_subject ip) now ?s"
    by (auto simp: record_failure_def io_bind_Inr lock_ip_eval Let_def dest!: lock_account_frame [where ip = ip and t = now]
        split: if_splits)
  with locked show ?thesis by simp
qed

lemma consume_frame [simp]:
  "ip_failures since ip (snd (consume_recovery_code h now s)) = ip_failures since ip s"
  by (simp add: ip_failures_def consume_recovery_code_def split: option.splits)

lemma consume_failures:
  "consume_recovery_code h now s = (b, s') \<Longrightarrow> ip_failures since ip s' = ip_failures since ip s"
  by (metis consume_frame snd_conv)

lemma failure_in_second_factor:
  assumes "second_factor ls u ip now totp rc k w = (Inr (Some out), w')"
  shows "\<exists>r w1. record_failure ls u ip now r w1 = (Inr out, w') \<and>
    ip_failures since ip (lw_db w1) = ip_failures since ip (lw_db w)"
proof (cases "totp = None \<and> rc = None")
  case True
  with assms have "record_failure ls u ip now TotpRequired w = (Inr out, w')"
    by (simp add: second_factor_def io_bind_Inr)
  then show ?thesis by blast
next
  case False
  with assms obtain b w1 where w1: "record_failure ls u ip now BadTotp w1 = (Inr out, w')"
      and b: "(if (case totp of None \<Rightarrow> False | Some c \<Rightarrow> verify_totp (ls_mac1 ls) k c now 1)
        then io_ret False else (case rc of None \<Rightarrow> io_ret False
          | Some c \<Rightarrow> db_update (consume_recovery_code (hash_token (ls_sha ls) c) now))) w = (Inr b, w1)"
    by (auto simp: second_factor_def io_bind_Inr Let_def split: if_splits)
  have "ip_failures since ip (lw_db w1) = ip_failures since ip (lw_db w)"
    using b by (auto simp: db_update_Inr dest: consume_failures split: if_splits option.splits)
  with w1 show ?thesis by blast
qed

lemma failure_in_check:
  assumes "check_credentials ls u pw ip now totp rc w = (Inr (Some out), w')"
    and "out_reason out \<in> {Some BadCredentials, Some TotpRequired, Some BadTotp}"
  shows "\<exists>r w1. record_failure ls u ip now r w1 = (Inr out, w') \<and>
    ip_failures since ip (lw_db w1) = ip_failures since ip (lw_db w)"
  using assms unfolding check_credentials_def Let_def
  by (auto simp: io_bind_Inr dest: failure_in_second_factor split: if_splits option.splits)

lemma issue_session_granted:
  "issue_session ls u ip label now scope drawn w = (Inr out, w') \<Longrightarrow> out_reason out = None"
  by (auto simp: issue_session_def io_bind_Inr Let_def granted_def)

lemma log_in_refused_locks:
  assumes "log_in ls u pw ip label now totp rc scope drawn w = (Inr out, w')"
    and "out_reason out \<in> {Some BadCredentials, Some TotpRequired, Some BadTotp}"
    and "2 \<le> ip_failures (now - 900) ip (lw_db w)"
  shows "\<exists>l. active_lock (ip_subject ip) now (lw_db w') = Some l \<and>
    now + 60 \<le> lo_until l \<and> lo_until l \<le> now + 900"
proof -
  from assms(1) obtain refusal w1 where
    c: "check_credentials ls u pw ip now totp rc w = (Inr refusal, w1)" and
    rest: "(case refusal of Some out \<Rightarrow> io_ret out
       | None \<Rightarrow> issue_session ls u ip label now scope drawn) w1 = (Inr out, w')"
    unfolding log_in_def io_bind_Inr by blast
  have "check_credentials ls u pw ip now totp rc w = (Inr (Some out), w')"
    using c rest assms(2) issue_session_granted by (cases refusal) fastforce+
  from failure_in_check [OF this assms(2)]
  obtain r w2 where "record_failure ls u ip now r w2 = (Inr out, w')"
    "ip_failures (now - 900) ip (lw_db w2) = ip_failures (now - 900) ip (lw_db w)" by blast
  then show ?thesis using record_failure_locks assms(3) by metis
qed

text \<open>The whole check, when the names are ASCII and no second factor is set up.\<close>

lemma check_credentials_single_factor:
  assumes "is_configured (admin_of ls)" "is_ascii u" "is_ascii (ad_username (admin_of ls))"
    and "active_lock (ip_subject ip) now (lw_db w) = None"
    and "active_lock (account_subject (ad_username (admin_of ls))) now (lw_db w) = None"
    and "totp_secret (lw_db w) = None"
  shows "check_credentials ls u pw ip now totp rc w =
    (if u = ad_username (admin_of ls) \<and> verify_password (ls_scrypt ls) pw (ad_password_hash (admin_of ls))
     then (Inr None, w)
     else io_bind (record_failure ls u ip now BadCredentials) (\<lambda>out. io_ret (Some out)) w)"
  using assms by (auto simp: check_credentials_def Let_def io_bind_app lock_until_def compare_digest_def)

lemma record_failure_total:
  assumes "is_ascii u" "is_ascii (ad_username (admin_of ls))"
  shows "\<exists>w'. record_failure ls u ip now r w = (Inr (refuse r None), w')"
proof -
  obtain locks w1 where "lock_account ls now (w\<lparr>lw_db := with_ip_lock ip now
      (record_attempt ip u False now (lw_db w))\<rparr>) = (Inr locks, w1)"
    using lock_account_Inr by blast
  with assms show ?thesis
    by (auto simp: record_failure_def io_bind_app lock_ip_eval compare_digest_def Let_def)
qed

lemma issue_session_Inr:
  assumes "issue_session ls u ip label now scope drawn w = (Inr out, w')"
  obtains i s s' where "out = granted (make_tokens ls (generate_token drawn) i scope now)"
    "issue_refresh (hash_token (ls_sha ls) (generate_token drawn)) label scope now
       (gc_refresh_ttl (ls_config ls)) s = Inr (i, s')"
    "au_refresh s = au_refresh (lw_db w)" "au_refresh (lw_db w') = au_refresh s'"
  using assms by (auto simp: issue_session_def io_bind_Inr Let_def db_try_def send_alert_def
      record_attempt_def clear_lock_def record_audit_def
      split: if_splits sum.splits)

lemma issued_row_live:
  assumes "issue_refresh h label scope now ttl s = Inr (i, s')"
  shows "token_live h later s' \<longleftrightarrow> later < now + ttl"
  using assms
proof (rule issue_refreshE)
  fix new :: refresh_row
  assume s': "s' = s\<lparr>au_refresh := au_refresh s @ [new]\<rparr>"
    and ins: "insert_refresh new (au_refresh s) = Inr (au_refresh s @ [new])"
    and new: "rr_hash new = h" "rr_revoked new = None" "rr_expires new = now + ttl"
  have "\<forall>r \<in> set (au_refresh s). rr_hash r \<noteq> h"
    using ins new(1) by (auto simp: insert_refresh_def image_iff split: if_splits)
  then show ?thesis unfolding token_live_iff s' using new by (auto simp: row_live_def)
qed

lemma token_live_cong: "au_refresh s = au_refresh s' \<Longrightarrow> token_live h t s = token_live h t s'"
  by (simp add: token_live_def)

lemma revoke_all_dead:
  assumes "now \<le> later"
  shows "\<not> token_live h later (snd (revoke_all now s))"
  using assms by (auto simp: token_live_iff revoke_all_def revoke_rows_def row_live_def)

section \<open>Properties\<close>

definition sample_scrypt :: scrypt where
  "sample_scrypt = (\<lambda>p s n r q k. Some (take k (p @ s @ replicate k (CHR ''x''))))"

definition sample_hash :: string where
  "sample_hash = join ''$'' [''scrypt'', show_int SCRYPT_N, show_int SCRYPT_R, show_int SCRYPT_P,
     b64encode ''0123456789abcdef'', b64encode ''pw0123456789abcdefxxxxxxxxxxxxxx'']"

definition sample_service :: login_service where
  "sample_service = \<lparr>ls_config = sample_config\<lparr>gc_admin := \<lparr>ad_username = ''admin'',
       ad_password_hash = sample_hash\<rparr>\<rparr>,
     ls_key = ''key'', ls_alerting = True, ls_scrypt = sample_scrypt,
     ls_mac1 = (\<lambda>k m. replicate 20 (CHR ''m'')), ls_mac256 = (\<lambda>k m. k @ rev m), ls_sha = rev\<rparr>"

definition fresh_world :: login_world where
  "fresh_world = \<lparr>lw_db = empty_auth, lw_alerts = []\<rparr>"

lemma sample_verify:
  "verify_password sample_scrypt p sample_hash \<longleftrightarrow>
     sample_scrypt p ''0123456789abcdef'' SCRYPT_N SCRYPT_R SCRYPT_P SCRYPT_DKLEN =
       Some ''pw0123456789abcdefxxxxxxxxxxxxxx''"
  unfolding sample_hash_def by (rule verify_record) (simp_all add: scrypt_defs)

lemma sample_right: "verify_password sample_scrypt ''pw'' sample_hash"
  unfolding sample_verify by (simp add: sample_scrypt_def scrypt_defs numeral_eq_Suc)

lemma sample_wrong: "\<not> verify_password sample_scrypt ''guess'' sample_hash"
  unfolding sample_verify by (simp add: sample_scrypt_def scrypt_defs numeral_eq_Suc)

lemma sample_admin: "ad_username (admin_of sample_service) = ''admin''" "is_configured (admin_of sample_service)"
  "is_ascii ''admin''" "is_ascii ''root''" "ls_scrypt sample_service = sample_scrypt"
  "ad_password_hash (admin_of sample_service) = sample_hash"
  by (simp_all add: sample_service_def admin_of_def is_configured_def is_ascii_def code_def
      sample_hash_def)

lemma fresh_unlocked [simp]:
  "active_lock k t (lw_db fresh_world) = None" "totp_secret (lw_db fresh_world) = None"
  by (simp_all add: fresh_world_def empty_auth_def active_lock_def totp_secret_def)

lemma sample_login:
  "\<exists>t w'. log_in sample_service ''admin'' ''pw'' ''10.1.1.1'' ''phone'' 1000 None None ''control'' []
      fresh_world = (Inr (granted t), w')"
proof -
  have "check_credentials sample_service ''admin'' ''pw'' ''10.1.1.1'' 1000 None None fresh_world =
      (Inr None, fresh_world)"
    by (subst check_credentials_single_factor) (simp_all add: sample_admin sample_right)
  moreover have "\<exists>t w'. issue_session sample_service ''admin'' ''10.1.1.1'' ''phone'' 1000 ''control'' []
      fresh_world = (Inr (granted t), w')"
    by (simp add: issue_session_def io_bind_app Let_def fresh_world_def empty_auth_def db_try_def
        record_attempt_def clear_lock_def issue_refresh_def insert_refresh_def fits64_def
        next_refresh_id_def sample_service_def sample_config_def list_refresh_def order_desc_def
        send_alert_def)
  ultimately show ?thesis by (auto simp: log_in_def io_bind_app)
qed



text \<open>
  While the address or the account is locked, an attempt is refused with the time the later
  lock ends, whatever credentials it carries, and leaves the database and the alerts untouched:
  nobody can extend a lockout by trying again.
\<close>

theorem locked_login_changes_nothing:
  assumes "is_configured (admin_of ls)"
    and "lock_until (active_lock (ip_subject ip) now (lw_db w))
      (active_lock (account_subject (ad_username (admin_of ls))) now (lw_db w)) = Some t"
  shows "log_in ls u pw ip label now totp rc scope drawn w = (Inr (refuse Locked (Some t)), w) \<and> now < t"
  using check_locked [OF assms] lock_until_later [OF assms(2)] by (simp add: log_in_def io_bind_app)

definition locked_world :: login_world where
  "locked_world = fresh_world\<lparr>lw_db := lock \<lparr>lo_subject = ip_subject ''10.1.1.1'', lo_level = 1,
     lo_until = 1060\<rparr> empty_auth\<rparr>"

theorem locked_login_changes_nothing_witness:
  "log_in sample_service ''admin'' ''pw'' ''10.1.1.1'' ''phone'' 1000 None None ''control'' [] locked_world
   = (Inr (refuse Locked (Some 1060)), locked_world)"
proof -
  have "lock_until (active_lock (ip_subject ''10.1.1.1'') 1000 (lw_db locked_world))
      (active_lock (account_subject (ad_username (admin_of sample_service))) 1000 (lw_db locked_world))
      = Some 1060"
    by (simp add: locked_world_def lock_until_def active_lock_def lock_def empty_auth_def)
  from locked_login_changes_nothing [OF sample_admin(2) this] show ?thesis by blast
qed

text \<open>
  C20. The third refused attempt from one address within fifteen minutes locks that address for
  at least one and at most fifteen minutes, whichever factor failed and whatever name was used.
\<close>

theorem third_failure_locks_address:
  assumes "log_in ls u pw ip label now totp rc scope drawn w = (Inr out, w')"
    and "out_reason out \<in> {Some BadCredentials, Some TotpRequired, Some BadTotp}"
    and "2 \<le> ip_failures (now - IP_FAILURE_WINDOW_SECONDS) ip (lw_db w)"
  shows "\<exists>l. active_lock (ip_subject ip) now (lw_db w') = Some l \<and>
    now + 60 \<le> lo_until l \<and> lo_until l \<le> now + 900"
  using log_in_refused_locks [OF assms(1,2)] assms(3) by (simp add: IP_FAILURE_WINDOW_SECONDS_def)

definition guessed_world :: login_world where
  "guessed_world = fresh_world\<lparr>lw_db := record_attempt ''10.1.1.1'' ''root'' False 950
     (record_attempt ''10.1.1.1'' ''root'' False 900 empty_auth)\<rparr>"

lemma guessed_refused:
  "\<exists>w'. log_in sample_service ''root'' ''guess'' ''10.1.1.1'' ''phone'' 1000 None None ''control'' []
      guessed_world = (Inr (refuse BadCredentials None), w')"
proof -
  have "active_lock k t (lw_db guessed_world) = None" "totp_secret (lw_db guessed_world) = None" for k t
    by (simp_all add: guessed_world_def active_lock_def totp_secret_def record_attempt_def empty_auth_def)
  moreover obtain w' where "record_failure sample_service ''root'' ''10.1.1.1'' 1000 BadCredentials
      guessed_world = (Inr (refuse BadCredentials None), w')"
    using record_failure_total [of "''root''" sample_service "''10.1.1.1''" 1000 BadCredentials
        guessed_world] by (auto simp: sample_admin)
  ultimately have "check_credentials sample_service ''root'' ''guess'' ''10.1.1.1'' 1000 None None
      guessed_world = (Inr (Some (refuse BadCredentials None)), w')"
    by (subst check_credentials_single_factor) (simp_all add: sample_admin sample_wrong io_bind_app)
  then show ?thesis by (simp add: log_in_def io_bind_app)
qed

theorem third_failure_locks_address_witness:
  "\<exists>w' l. log_in sample_service ''root'' ''guess'' ''10.1.1.1'' ''phone'' 1000 None None ''control'' []
      guessed_world = (Inr (refuse BadCredentials None), w') \<and>
     active_lock (ip_subject ''10.1.1.1'') 1000 (lw_db w') = Some l \<and> 1060 \<le> lo_until l"
proof -
  obtain w' where r: "log_in sample_service ''root'' ''guess'' ''10.1.1.1'' ''phone'' 1000 None None
      ''control'' [] guessed_world = (Inr (refuse BadCredentials None), w')"
    using guessed_refused by blast
  have "2 \<le> ip_failures (1000 - IP_FAILURE_WINDOW_SECONDS) ''10.1.1.1'' (lw_db guessed_world)"
    by (simp add: ip_failures_def guessed_world_def record_attempt_def empty_auth_def
        IP_FAILURE_WINDOW_SECONDS_def)
  from third_failure_locks_address [OF r _ this] r show ?thesis by auto
qed

text \<open>An attempt with all its arguments, and what trying it does to the world.\<close>

record guess =
  gu_username :: string
  gu_password :: string
  gu_ip :: string
  gu_label :: string
  gu_now :: int
  gu_totp :: "string option"
  gu_recovery :: "string option"
  gu_scope :: string
  gu_drawn :: string

definition try_guess :: "login_service \<Rightarrow> guess \<Rightarrow> login_world \<Rightarrow> login_world" where
  "try_guess ls g w = snd (log_in ls (gu_username g) (gu_password g) (gu_ip g) (gu_label g) (gu_now g)
     (gu_totp g) (gu_recovery g) (gu_scope g) (gu_drawn g) w)"

lemma try_guess_other:
  assumes "gu_username g \<noteq> ad_username (admin_of ls)"
  shows "active_lock (account_subject a) t (lw_db (try_guess ls g w)) = active_lock (account_subject a) t (lw_db w)"
    and "last_level (account_subject a) (lw_db (try_guess ls g w)) = last_level (account_subject a) (lw_db w)"
  using log_in_other [OF assms prod.collapse [symmetric]] unfolding try_guess_def by blast+

text \<open>
  C21. No sequence of attempts under other names, from any addresses and with any passwords,
  changes whether the administrator's account is locked, until when, or how far up the ladder
  it is: strangers who do not know the name cannot lock the owner out.
\<close>

theorem strangers_cannot_lock_account:
  assumes "list_all (\<lambda>g. gu_username g \<noteq> ad_username (admin_of ls)) guesses"
  shows "active_lock (account_subject a) t (lw_db (fold (try_guess ls) guesses w)) =
       active_lock (account_subject a) t (lw_db w) \<and>
     last_level (account_subject a) (lw_db (fold (try_guess ls) guesses w)) =
       last_level (account_subject a) (lw_db w)"
  using assms by (induction guesses arbitrary: w) (simp_all add: try_guess_other)

theorem strangers_cannot_lock_account_witness:
  "active_lock (account_subject ''admin'') 1000 (lw_db (fold (try_guess sample_service)
      (replicate 9 \<lparr>gu_username = ''root'', gu_password = ''x'', gu_ip = ''10.2.2.2'', gu_label = [],
         gu_now = 999, gu_totp = None, gu_recovery = None, gu_scope = ''control'', gu_drawn = []\<rparr>)
      fresh_world)) = None"
  by (subst strangers_cannot_lock_account [THEN conjunct1])
     (simp_all add: sample_admin(1) list_all_iff)

text \<open>
  The tokens a login issues work: the access token is authorised for exactly the scopes the
  session's scope includes until it expires, and the refresh token is live until its own expiry.
\<close>

theorem issued_tokens_work:
  assumes "log_in ls u pw ip label now totp rc scope drawn w = (Inr out, w')"
    and "out_tokens out = Some t"
    and "CHR '':'' \<notin> set scope" and "is_ascii scope"
  shows "(\<exists>i. authorise ls (tk_access t) later required =
       (if later < now + gc_access_ttl (ls_config ls) \<and> scope_allows scope required
        then Some \<lparr>ac_refresh_id = i, ac_scope = scope,
               ac_expires_at = now + gc_access_ttl (ls_config ls)\<rparr>
        else None)) \<and>
     token_live (hash_token (ls_sha ls) (tk_refresh t)) later (lw_db w') =
       (later < now + gc_refresh_ttl (ls_config ls))"
proof -
  from assms(1) obtain refusal w1 where
    c: "check_credentials ls u pw ip now totp rc w = (Inr refusal, w1)" and
    rest: "(case refusal of Some out \<Rightarrow> io_ret out
       | None \<Rightarrow> issue_session ls u ip label now scope drawn) w1 = (Inr out, w')"
    unfolding log_in_def io_bind_Inr by blast
  have "refusal = None"
    using check_credentials_Some c rest assms(2) by (cases refusal) auto
  with rest have "issue_session ls u ip label now scope drawn w1 = (Inr out, w')" by simp
  then show ?thesis
  proof (rule issue_session_Inr)
    fix i s s'
    assume out: "out = granted (make_tokens ls (generate_token drawn) i scope now)"
      and ins: "issue_refresh (hash_token (ls_sha ls) (generate_token drawn)) label scope now
        (gc_refresh_ttl (ls_config ls)) s = Inr (i, s')"
      and rows: "au_refresh (lw_db w') = au_refresh s'"
    have t: "t = make_tokens ls (generate_token drawn) i scope now" using out assms(2) by simp
    then have "tk_refresh t = generate_token drawn" "tk_access t = issue_access_token (ls_mac256 ls)
        (ls_key ls) i scope (now + gc_access_ttl (ls_config ls))"
      by (simp_all add: make_tokens_def Let_def)
    then show ?thesis
      using issued_row_live [OF ins] token_live_cong [OF rows]
        verify_issued [OF assms(3), of "ls_mac256 ls" "ls_key ls" i] assms(4)
      by (auto simp: authorise_def is_ascii_def)
  qed
qed

theorem issued_tokens_work_witness:
  "\<exists>t w' i. log_in sample_service ''admin'' ''pw'' ''10.1.1.1'' ''phone'' 1000 None None ''control'' []
      fresh_world = (Inr (granted t), w') \<and>
     authorise sample_service (tk_access t) 1100 SCOPE_READ =
       Some \<lparr>ac_refresh_id = i, ac_scope = ''control'', ac_expires_at = 1900\<rparr>"
proof -
  obtain t w' where r: "log_in sample_service ''admin'' ''pw'' ''10.1.1.1'' ''phone'' 1000 None None
      ''control'' [] fresh_world = (Inr (granted t), w')"
    using sample_login by blast
  have "gc_access_ttl (ls_config sample_service) = 900"
    by (simp add: sample_service_def sample_config_def)
  moreover have "scope_allows ''control'' SCOPE_READ"
    using scope_allows_trivial(3) by (simp only: SCOPE_CONTROL_def)
  ultimately show ?thesis
    using issued_tokens_work [OF r, of t 1100 SCOPE_READ] r by (auto simp: is_ascii_def code_def)
qed

text \<open>
  Logging out everywhere ends every session: from that moment on no refresh token is live,
  and the operation reports how many it ended.
\<close>

theorem logout_everywhere_ends_sessions:
  assumes "now \<le> later"
  shows "fst (log_out_everywhere now w) =
       Inr (int (length (filter (row_live now) (au_refresh (lw_db w))))) \<and>
     \<not> token_live h later (lw_db (snd (log_out_everywhere now w)))"
proof -
  have "snd (log_out_everywhere now w) = w\<lparr>lw_db := record_audit now ''logout_everywhere'' [] []
      (''count='' @ show_int (fst (revoke_all now (lw_db w)))) (snd (revoke_all now (lw_db w)))\<rparr>"
    by (simp add: log_out_everywhere_def io_bind_app db_update_def case_prod_unfold)
  then have "token_live h later (lw_db (snd (log_out_everywhere now w))) =
      token_live h later (snd (revoke_all now (lw_db w)))"
    by (simp add: token_live_def record_audit_def)
  moreover have "fst (log_out_everywhere now w) =
      Inr (int (length (filter (row_live now) (au_refresh (lw_db w)))))"
    by (simp add: log_out_everywhere_def io_bind_app db_update_def revoke_all_def)
  ultimately show ?thesis using revoke_all_dead [OF assms] by blast
qed

theorem logout_everywhere_ends_sessions_witness:
  "\<not> token_live ''h2'' 500 (lw_db (snd (log_out_everywhere 500
      \<lparr>lw_db = auth_run sample_ops empty_auth, lw_alerts = []\<rparr>)))"
  using logout_everywhere_ends_sessions [of 500 500 _ "''h2''"] by simp

text \<open>
  A name with a character outside ASCII is neither accepted nor refused: the comparison
  raises, no attempt is recorded, no lock is taken and nothing is audited.
\<close>

theorem non_ascii_name_raises:
  assumes "is_configured (admin_of ls)" and "\<not> is_ascii u"
    and "active_lock (ip_subject ip) now (lw_db w) = None"
    and "active_lock (account_subject (ad_username (admin_of ls))) now (lw_db w) = None"
  shows "\<exists>m. log_in ls u pw ip label now totp rc scope drawn w = (Inl (TypeError m), w)"
  using assms by (simp add: log_in_def check_credentials_def io_bind_app lock_until_def compare_digest_def
      Let_def)

theorem non_ascii_name_raises_witness:
  "\<exists>m. log_in sample_service [CHR 0xC3, CHR 0xA9] ''x'' ''10.1.1.1'' [] 1000 None None ''control'' []
      fresh_world = (Inl (TypeError m), fresh_world)"
  by (rule non_ascii_name_raises) (simp_all add: sample_admin is_ascii_def code_def)

end
