(* ===== verification/Exposition.thy ===== *)
theory Exposition
  imports Units
begin

text \<open>
  Collecting and labelling metrics, \<open>metrics/exposition.py\<close>, and the request handler of
  \<open>metrics/server.py\<close>. A sample's value is the exact decimal \<open>(m, e)\<close> for \<open>m * 10 ^ e\<close> its literal
  denotes, before rounding to a double; \<open>isfinite\<close> is decided on it. The elapsed time of a scrape
  is a text the clock parameter makes of the worlds before and after.
\<close>

definition METRICS_TIMEOUT_SECONDS :: int where "METRICS_TIMEOUT_SECONDS = 45"
definition MAX_SAMPLE_FIELDS :: nat where "MAX_SAMPLE_FIELDS = 2"

definition quoted :: "string \<Rightarrow> string" where
  "quoted s = [chr_dquote] @ s @ [chr_dquote]"

definition EXPOSITION_HEADER :: string where
  "EXPOSITION_HEADER =
     ''# HELP rackphone_up Whether the unit answered this scrape.'' @ [chr_nl] @
     ''# TYPE rackphone_up gauge'' @ [chr_nl] @
     ''# HELP rackphone_collect_duration_seconds Time spent collecting from the unit.'' @ [chr_nl] @
     ''# TYPE rackphone_collect_duration_seconds gauge'' @ [chr_nl]"

section \<open>Sample lines\<close>

definition name_start :: "char \<Rightarrow> bool" where
  "name_start c \<longleftrightarrow> is_alpha c \<or> c = CHR ''_'' \<or> c = CHR '':''"

definition name_char :: "char \<Rightarrow> bool" where
  "name_char c \<longleftrightarrow> name_start c \<or> is_digit c"

text \<open>
  The longest prefix that ends with a closing brace and is followed by a blank: where the greedy
  \<open>{.*}\<close> of the pattern stops, given as the number of its characters.
\<close>

fun last_brace :: "string \<Rightarrow> nat option" where
  "last_brace [] = None"
| "last_brace (c # cs) =
     (case last_brace cs of
        Some n \<Rightarrow> Some (Suc n)
      | None \<Rightarrow> if c = CHR ''}'' \<and> cs \<noteq> [] \<and> is_space (hd cs) then Some 1 else None)"

text \<open>\<open>SAMPLE_PATTERN\<close>: the name, the labels with their braces, and the rest of the line.\<close>

definition match_sample :: "string \<Rightarrow> (string \<times> string option \<times> string) option" where
  "match_sample l =
     (let name = takeWhile name_char l; r = dropWhile name_char l
      in if name = [] \<or> \<not> name_start (hd name) \<or> r = [] then None
         else if is_space (hd r) then Some (name, None, r)
         else if hd r = CHR ''{'' then
           (case last_brace (tl r) of
              Some n \<Rightarrow> Some (name, Some (take (Suc n) r), drop (Suc n) r)
            | None \<Rightarrow> None)
         else None)"

definition sample_of :: "string \<Rightarrow> (string \<times> string option \<times> string) option" where
  "sample_of l = (if l = [] \<or> starts_with ''#'' l then None else match_sample l)"

section \<open>Numbers\<close>

text \<open>Digits with single underscores between them: the number read and how many digits it has.\<close>

definition read_digits :: "string \<Rightarrow> (int \<times> nat) option" where
  "read_digits s = map_option (\<lambda>n. (n, length (filter is_digit s))) (int_digits 0 False s)"

definition float_exponent :: "string \<Rightarrow> int option" where
  "float_exponent s =
     (case s of
        c # cs \<Rightarrow>
          if c = CHR ''-'' then map_option (\<lambda>p. - fst p) (read_digits cs)
          else if c = CHR ''+'' then map_option fst (read_digits cs)
          else map_option fst (read_digits s)
      | [] \<Rightarrow> None)"

definition mantissa :: "string \<Rightarrow> (int \<times> int) option" where
  "mantissa s =
     (case split_on (CHR ''.'') s of
        [a] \<Rightarrow> map_option (\<lambda>p. (fst p, 0)) (read_digits a)
      | [a, b] \<Rightarrow>
          if a = [] then map_option (\<lambda>p. (fst p, - int (snd p))) (read_digits b)
          else if b = [] then map_option (\<lambda>p. (fst p, 0)) (read_digits a)
          else (case (read_digits a, read_digits b) of
              (Some (m, k), Some (f, n)) \<Rightarrow> Some (m * 10 ^ n + f, - int n)
            | _ \<Rightarrow> None)
      | _ \<Rightarrow> None)"

definition unsigned_float :: "string \<Rightarrow> (int \<times> int) option" where
  "unsigned_float s =
     (case split_on (CHR ''e'') (lower s) of
        [a] \<Rightarrow> mantissa a
      | [a, b] \<Rightarrow> (case (mantissa a, float_exponent b) of
            (Some (m, x), Some e) \<Rightarrow> Some (m, x + e)
          | _ \<Rightarrow> None)
      | _ \<Rightarrow> None)"

text \<open>Where a double overflows: from \<open>2 ^ 1024 - 2 ^ 970\<close> on the nearest one is infinite.\<close>

definition fits_double :: "int \<times> int \<Rightarrow> bool" where
  "fits_double v = (case v of (m, e) \<Rightarrow>
     if e \<ge> 0 then m * 10 ^ nat e < 2 ^ 1024 - 2 ^ 970
     else m < (2 ^ 1024 - 2 ^ 970) * 10 ^ nat (- e))"

text \<open>\<open>float(s)\<close> of one field, when it is finite; \<open>nan\<close> and \<open>inf\<close> are numbers, but not finite.\<close>

definition finite_float :: "string \<Rightarrow> (int \<times> int) option" where
  "finite_float s =
     (let neg = starts_with ''-'' s; body = (if neg \<or> starts_with ''+'' s then tl s else s)
      in case unsigned_float body of
           Some (m, e) \<Rightarrow> if fits_double (m, e) then Some (if neg then - m else m, e) else None
         | None \<Rightarrow> None)"

definition sample_value :: "string \<Rightarrow> (string \<times> (int \<times> int)) option" where
  "sample_value l =
     (case sample_of l of
        Some (name, None, rest) \<Rightarrow>
          (case split_ws rest of
             [v] \<Rightarrow> map_option (\<lambda>x. (name, x)) (finite_float v)
           | [v, t] \<Rightarrow> if parse_int t = None then None else map_option (\<lambda>x. (name, x)) (finite_float v)
           | _ \<Rightarrow> None)
      | _ \<Rightarrow> None)"

definition parse_samples :: "string \<Rightarrow> (string, int \<times> int) dict" where
  "parse_samples exposition =
     fold (\<lambda>l d. case sample_value l of Some (name, v) \<Rightarrow> dict_set name v d | None \<Rightarrow> d)
       (splitlines exposition) []"

section \<open>Labelling\<close>

definition merged_labels :: "string \<Rightarrow> string option \<Rightarrow> string" where
  "merged_labels u labels =
     (let existing = (case labels of Some s \<Rightarrow> strip (butlast (tl s)) | None \<Rightarrow> [])
      in if existing \<noteq> [] then ''{unit='' @ quoted u @ '','' @ existing @ ''}''
         else ''{unit='' @ quoted u @ ''}'')"

definition label_line :: "string \<Rightarrow> string \<Rightarrow> string" where
  "label_line u l =
     (case sample_of l of
        None \<Rightarrow> l
      | Some (name, labels, rest) \<Rightarrow> name @ merged_labels u labels @ rest)"

definition add_unit_label :: "string \<Rightarrow> string \<Rightarrow> string" where
  "add_unit_label exposition u = join [chr_nl] (map (label_line u) (splitlines exposition)) @ [chr_nl]"

section \<open>Collecting\<close>

definition collect_unit_metrics :: "'w host \<Rightarrow> unit_file \<Rightarrow> ('w, bool \<times> string) io" where
  "collect_unit_metrics h u =
     io_catch (io_bind (resolve_serial h (un_serial u)) (\<lambda>serial.
         io_bind (run_device_cli h serial [''metrics''] METRICS_TIMEOUT_SECONDS) (\<lambda>out. io_ret (True, out))))
       (\<lambda>e. io_ret (False, []))"

definition up_line :: "string \<Rightarrow> bool \<Rightarrow> string" where
  "up_line u is_up = ''rackphone_up{unit='' @ quoted u @ ''} '' @ (if is_up then ''1'' else ''0'') @ [chr_nl]"

definition unit_chunk :: "('w \<Rightarrow> 'w \<Rightarrow> string) \<Rightarrow> 'w host \<Rightarrow> unit_file \<Rightarrow> ('w, string) io" where
  "unit_chunk elapsed h u = (\<lambda>w.
     io_bind (collect_unit_metrics h u) (\<lambda>(is_up, body) w'.
       (Inr ((if is_up then add_unit_label body (un_name u) else []) @ up_line (un_name u) is_up @
          ''rackphone_collect_duration_seconds{unit='' @ quoted (un_name u) @ ''} '' @ elapsed w w' @ [chr_nl]),
        w')) w)"

fun collect_chunks :: "('w \<Rightarrow> 'w \<Rightarrow> string) \<Rightarrow> 'w host \<Rightarrow> unit_file list \<Rightarrow> ('w, string list) io" where
  "collect_chunks elapsed h [] = io_ret []"
| "collect_chunks elapsed h (u # us) =
     io_bind (unit_chunk elapsed h u) (\<lambda>c. io_bind (collect_chunks elapsed h us) (\<lambda>cs. io_ret (c # cs)))"

definition collect_metrics :: "('w \<Rightarrow> 'w \<Rightarrow> string) \<Rightarrow> 'w host \<Rightarrow> unit_file list \<Rightarrow> ('w, string) io" where
  "collect_metrics elapsed h us =
     io_bind (collect_chunks elapsed h us) (\<lambda>cs. io_ret (EXPOSITION_HEADER @ concat cs))"

section \<open>The endpoint\<close>

datatype http_answer = Answer int string

definition METRICS_PATHS :: "string list" where "METRICS_PATHS = [''/metrics'', ''/'']"

text \<open>The units of a scrape: the named ones, or all configured ones, read again each time.\<close>

fun load_named :: "'w host \<Rightarrow> string list \<Rightarrow> ('w, unit_file list) io" where
  "load_named h [] = io_ret []"
| "load_named h (n # ns) =
     io_bind (load_unit h n) (\<lambda>u. io_bind (load_named h ns) (\<lambda>us. io_ret (u # us)))"

definition resolve_units :: "'w host \<Rightarrow> string list \<Rightarrow> ('w, unit_file list) io" where
  "resolve_units h names = (if names \<noteq> [] then load_named h names else load_all_units h)"

definition do_GET :: "('w \<Rightarrow> 'w \<Rightarrow> string) \<Rightarrow> 'w host \<Rightarrow> string list \<Rightarrow> string \<Rightarrow> ('w, http_answer) io" where
  "do_GET elapsed h names path =
     (if takeWhile (\<lambda>c. c \<noteq> CHR ''?'') path \<notin> set METRICS_PATHS then io_ret (Answer 404 [])
      else io_catch (io_bind (resolve_units h names) (\<lambda>us.
          io_bind (collect_metrics elapsed h us) (\<lambda>body. io_ret (Answer 200 body))))
        (\<lambda>e. io_ret (Answer 500 [])))"

section \<open>Lemmas\<close>

lemma last_brace_Some:
  "last_brace s = Some n \<Longrightarrow> drop n s \<noteq> [] \<and> is_space (hd (drop n s)) \<and> last_brace (drop n s) = None \<and>
     0 < n \<and> n \<le> length s \<and> s ! (n - 1) = CHR ''}''"
proof (induction s arbitrary: n)
  case (Cons c cs)
  show ?case
  proof (cases "last_brace cs")
    case None
    with Cons.prems show ?thesis by (auto split: if_splits)
  next
    case (Some k)
    with Cons.prems have "n = Suc k" by simp
    with Cons.IH [OF Some] show ?thesis by (cases k) auto
  qed
qed simp

lemma last_brace_end:
  "rest \<noteq> [] \<Longrightarrow> is_space (hd rest) \<Longrightarrow> last_brace rest = None \<Longrightarrow>
     last_brace (x @ CHR ''}'' # rest) = Some (Suc (length x))"
  by (induction x) auto

lemma last_brace_free: "CHR ''}'' \<notin> set s \<Longrightarrow> last_brace s = None"
  by (induction s) auto

lemma takeWhile_name:
  "\<not> name_char c \<Longrightarrow> list_all name_char name \<Longrightarrow> takeWhile name_char (name @ c # s) = name"
  "\<not> name_char c \<Longrightarrow> list_all name_char name \<Longrightarrow> dropWhile name_char (name @ c # s) = c # s"
  by (induction name) auto

lemma match_sample_parts:
  assumes "match_sample l = Some (name, labels, rest)"
  shows "name \<noteq> [] \<and> name_start (hd name) \<and> list_all name_char name \<and> rest \<noteq> [] \<and> is_space (hd rest) \<and>
    (labels = None \<or> last_brace rest = None) \<and>
    l = name @ (case labels of None \<Rightarrow> [] | Some s \<Rightarrow> s) @ rest"
proof -
  let ?r = "dropWhile name_char l"
  have l: "l = takeWhile name_char l @ ?r" by simp
  have name: "name = takeWhile name_char l" "name \<noteq> []" "name_start (hd name)" "?r \<noteq> []"
    using assms by (auto simp: match_sample_def Let_def split: if_splits option.splits)
  have all: "list_all name_char name" unfolding name(1) by (auto simp: list_all_iff dest: set_takeWhileD)
  have found: "(if is_space (hd ?r) then Some (name, None, ?r)
      else if hd ?r = CHR ''{'' then
        (case last_brace (tl ?r) of Some n \<Rightarrow> Some (name, Some (take (Suc n) ?r), drop (Suc n) ?r) | None \<Rightarrow> None)
      else None) = Some (name, labels, rest)"
  proof -
    have "\<not> (takeWhile name_char l = [] \<or> \<not> name_start (hd (takeWhile name_char l)) \<or> ?r = [])"
      using name by (simp only: name(1) [symmetric]) simp
    then show ?thesis
      using assms unfolding match_sample_def Let_def by (simp only: if_not_P if_False name(1) [symmetric])
  qed
  consider "labels = None" "rest = ?r" "is_space (hd ?r)"
    | n where "last_brace (tl ?r) = Some n" "labels = Some (take (Suc n) ?r)" "rest = drop (Suc n) ?r"
  proof (cases "is_space (hd ?r)")
    case True
    then show ?thesis using found that(1) by simp
  next
    case False
    then show ?thesis using found that(2) by (cases "last_brace (tl ?r)") (simp_all split: if_split_asm)
  qed
  then show ?thesis
  proof cases
    case 1
    then show ?thesis using l name all by (metis append_Nil option.simps(4))
  next
    case 2
    obtain c cs where r: "?r = c # cs" using name(4) by (cases ?r) auto
    then have rest: "rest = drop n cs" "last_brace cs = Some n" using 2 by simp_all
    have "(case labels of None \<Rightarrow> [] | Some s \<Rightarrow> s) @ rest = ?r" using 2 by simp
    then show ?thesis using last_brace_Some [OF rest(2)] l name all unfolding rest(1) by metis
  qed
qed

lemma match_labelled:
  assumes "name \<noteq> []" "name_start (hd name)" "list_all name_char name" "rest \<noteq> []" "is_space (hd rest)"
    "last_brace rest = None"
  shows "match_sample (name @ (CHR ''{'' # x @ ''}'') @ rest) = Some (name, Some (CHR ''{'' # x @ ''}''), rest)"
proof -
  have c: "\<not> name_char (CHR ''{'')" "\<not> is_space (CHR ''{'')"
    by (simp_all add: name_char_def name_start_def is_alpha_def is_digit_def is_space_def code_def)
  have eq: "name @ (CHR ''{'' # x @ ''}'') @ rest = name @ CHR ''{'' # (x @ CHR ''}'' # rest)" by simp
  show ?thesis
    unfolding eq match_sample_def takeWhile_name [OF c(1) assms(3)] Let_def
    using assms c(2) last_brace_end [OF assms(4-6), of x] by simp
qed

lemma merged_labels_braces: "\<exists>x. merged_labels u labels = CHR ''{'' # x @ ''}''"
proof -
  define old where "old = (case labels of Some s \<Rightarrow> strip (butlast (tl s)) | None \<Rightarrow> [])"
  have "merged_labels u labels = (if old \<noteq> [] then CHR ''{'' # (''unit='' @ quoted u @ '','' @ old) @ ''}''
      else CHR ''{'' # (''unit='' @ quoted u) @ ''}'')"
    by (simp add: merged_labels_def Let_def old_def [symmetric])
  then show ?thesis by (cases "old = []") auto
qed

lemma collect_unit_total: "\<exists>b body. fst (collect_unit_metrics h u w) = Inr (b, body)"
  by (auto simp: collect_unit_metrics_def io_catch_app split: prod.splits sum.splits)

lemma unit_chunk_total:
  "\<exists>c w'. unit_chunk elapsed h u w = (Inr c, w') \<and>
     (contains_sub (up_line (un_name u) True) c \<or> contains_sub (up_line (un_name u) False) c)"
proof -
  obtain b body w' where "collect_unit_metrics h u w = (Inr (b, body), w')"
    using collect_unit_total by (metis prod.collapse)
  then have "unit_chunk elapsed h u w = (Inr ((if b then add_unit_label body (un_name u) else []) @
      up_line (un_name u) b @ (''rackphone_collect_duration_seconds{unit='' @ quoted (un_name u) @ ''} '' @
      elapsed w w' @ [chr_nl])), w')"
    by (simp add: unit_chunk_def io_bind_app)
  moreover have "contains_sub (up_line (un_name u) b) (x @ up_line (un_name u) b @ y)" for x y
    unfolding contains_sub_iff by (intro exI) (rule refl)
  ultimately have "\<exists>c w'. unit_chunk elapsed h u w = (Inr c, w') \<and> contains_sub (up_line (un_name u) b) c"
    by blast
  then show ?thesis by (cases b) auto
qed

lemma collect_chunks_total:
  "\<exists>cs w'. collect_chunks elapsed h us w = (Inr cs, w') \<and> length cs = length us \<and>
     (\<forall>u \<in> set us. \<exists>b. \<exists>c \<in> set cs. contains_sub (up_line (un_name u) b) c)"
proof (induction us arbitrary: w)
  case (Cons u us)
  obtain c w1 where c: "unit_chunk elapsed h u w = (Inr c, w1)"
    "\<exists>b. contains_sub (up_line (un_name u) b) c" using unit_chunk_total by metis
  obtain cs w2 where cs: "collect_chunks elapsed h us w1 = (Inr cs, w2)" "length cs = length us"
    "\<forall>u \<in> set us. \<exists>b. \<exists>c \<in> set cs. contains_sub (up_line (un_name u) b) c" using Cons by blast
  have "collect_chunks elapsed h (u # us) w = (Inr (c # cs), w2)" using c cs by (simp add: io_bind_app)
  moreover have "\<exists>b. \<exists>c' \<in> set (c # cs). contains_sub (up_line (un_name v) b) c'"
    if mem: "v \<in> set (u # us)" for v
  proof (cases "v = u")
    case True
    then show ?thesis using c(2) by auto
  next
    case False
    then obtain b k where "k \<in> set cs" "contains_sub (up_line (un_name v) b) k" using mem cs(3) by auto
    then show ?thesis by (intro exI [of _ b] bexI [of _ k]) simp_all
  qed
  ultimately show ?case using cs(2) by auto
qed simp

section \<open>Properties\<close>

text \<open>
  Labelling changes nothing but the labels: the labelled line is a sample of the same metric with
  the same value and time stamp, whose labels are the unit's followed by its own. (A line without
  labels must hold no closing brace after the name, which no number does.)
\<close>

theorem labelling_keeps_samples:
  assumes "sample_of l = Some (name, labels, rest)" and "labels \<noteq> None \<or> CHR ''}'' \<notin> set rest"
  shows "sample_of (label_line u l) = Some (name, Some (merged_labels u labels), rest)"
proof -
  have m: "match_sample l = Some (name, labels, rest)"
    using assms(1) by (auto simp: sample_of_def split: if_splits)
  note parts = match_sample_parts [OF m]
  obtain x where x: "merged_labels u labels = CHR ''{'' # x @ ''}''"
    using merged_labels_braces by blast
  have "last_brace rest = None" using parts assms(2) last_brace_free by auto
  then have "match_sample (name @ merged_labels u labels @ rest) = Some (name, Some (merged_labels u labels), rest)"
    unfolding x by (intro match_labelled) (use parts in auto)
  moreover have "label_line u l = name @ merged_labels u labels @ rest"
    by (simp add: label_line_def assms(1))
  moreover have "\<not> starts_with ''#'' (name @ merged_labels u labels @ rest)"
    using parts by (cases name) (auto simp: name_start_def is_alpha_def code_def)
  ultimately show ?thesis using parts by (simp add: sample_of_def)
qed

theorem labelling_keeps_samples_witness:
  "label_line ''lisa01'' ''cpu{core=0 } 7'' = ''cpu'' @ merged_labels ''lisa01'' (Some ''{core=0 }'') @ '' 7'' \<and>
   sample_of (label_line ''lisa01'' ''cpu{core=0 } 7'') = Some (''cpu'', Some (merged_labels ''lisa01'' (Some ''{core=0 }'')), '' 7'')"
proof -
  have l: "sample_of ''cpu{core=0 } 7'' = Some (''cpu'', Some ''{core=0 }'', '' 7'')" by code_simp
  show ?thesis using labelling_keeps_samples [OF l, of "''lisa01''"] by (simp add: label_line_def l)
qed


end
