(* ===== verification/Files.thy ===== *)
theory Files
  imports Units Auth
begin

text \<open>
  Confined, checksummed file transfer, \<open>gateway/files.py\<close>. \<open>sha\<close> is SHA-256 of a byte string,
  a parameter; hashing a file in chunks is hashing its content. A timeout carries no message
  here, so it is never read as a missing file.
\<close>

definition FILES_DIRECTORY :: string where "FILES_DIRECTORY = ''/sdcard/rackphone''"
definition MAX_FILE_SIZE :: int where "MAX_FILE_SIZE = 512 * 1024 * 1024"
definition SHA256_HEX_LENGTH :: nat where "SHA256_HEX_LENGTH = 64"
definition ASCII_CONTROL_END :: nat where "ASCII_CONTROL_END = 32"
definition ASCII_DELETE :: nat where "ASCII_DELETE = 127"

definition files_error :: "string \<Rightarrow> exn" where
  "files_error m = BoundaryError FilesBoundary False m"

definition device_files_error :: "string \<Rightarrow> string \<Rightarrow> exn" where
  "device_files_error u action = BoundaryError FilesBoundary True
     (''unit '' @ py_repr u @ '' could not be reached or '' @ action)"

definition resolve_name :: "string \<Rightarrow> string result" where
  "resolve_name name =
     (if name = [] \<or> starts_with ''.'' name \<or> contains_sub ''..'' name \<or> CHR ''/'' \<in> set name \<or>
         chr_backslash \<in> set name \<or> chr_nul \<in> set name \<or>
         list_ex (\<lambda>c. code c < ASCII_CONTROL_END \<or> code c = ASCII_DELETE) name
      then Inl (files_error ''file name must be one plain, visible name'')
      else Inr (FILES_DIRECTORY @ ''/'' @ name))"

definition files_serial :: "'w host \<Rightarrow> string \<Rightarrow> ('w, string) io" where
  "files_serial h u = io_bind (load_unit h u) (\<lambda>x. resolve_serial h (un_serial x))"

definition file_checksum :: "'w host \<Rightarrow> (string \<Rightarrow> string) \<Rightarrow> string \<Rightarrow> ('w, string) io" where
  "file_checksum h sha path =
     io_bind (ho_read_file h path) (\<lambda>content. io_ret (concat (map hex_byte (sha content))))"

definition remote_checksum :: "'w host \<Rightarrow> string \<Rightarrow> string \<Rightarrow> ('w, string) io" where
  "remote_checksum h serial path =
     io_bind (run_exec_out h serial [''sha256sum'', path] DEFAULT_TIMEOUT_SECONDS) (\<lambda>out.
       case split_ws out of
         [] \<Rightarrow> io_raise (AdbError ''device returned an invalid checksum'')
       | f # fs \<Rightarrow> if length f \<noteq> SHA256_HEX_LENGTH
           then io_raise (AdbError ''device returned an invalid checksum'') else io_ret (lower f))"

definition remote_metadata :: "'w host \<Rightarrow> string \<Rightarrow> string \<Rightarrow> ('w, int \<times> int) io" where
  "remote_metadata h serial path =
     io_bind (run_exec_out h serial [''stat'', ''-c'', ''%s'' @ [chr_tab] @ ''%Y'', path]
       DEFAULT_TIMEOUT_SECONDS) (\<lambda>out.
       case split_on chr_tab (strip out) of
         [a, b] \<Rightarrow> (case (parse_int a, parse_int b) of
             (Some n, Some modified) \<Rightarrow> io_ret (n, modified)
           | _ \<Rightarrow> io_raise (AdbError ''device returned invalid file metadata''))
       | _ \<Rightarrow> io_raise (AdbError ''device returned invalid file metadata''))"

definition is_missing :: "exn \<Rightarrow> bool" where
  "is_missing e = (case e of
       AdbError m \<Rightarrow> contains_sub ''no such file'' (lower m) \<or> contains_sub ''cannot stat'' (lower m)
     | _ \<Rightarrow> False)"

definition require_checksum :: "string \<Rightarrow> string \<Rightarrow> string \<Rightarrow> ('w, unit) io" where
  "require_checksum actual expected m = (if actual \<noteq> expected then io_raise (AdbError m) else io_ret ())"

definition require_size :: "int \<Rightarrow> ('w, unit) io" where
  "require_size n =
     (if n > MAX_FILE_SIZE
      then io_raise (files_error (''file exceeds the '' @ show_int MAX_FILE_SIZE @ ''-byte size limit''))
      else io_ret ())"

record file_row =
  fl_name :: string
  fl_size :: int
  fl_modified_at :: int

definition remove_prefix :: "string \<Rightarrow> string \<Rightarrow> string" where
  "remove_prefix p s = (if starts_with p s then drop (length p) s else s)"

fun list_rows :: "'w host \<Rightarrow> string \<Rightarrow> string list \<Rightarrow> ('w, file_row list) io" where
  "list_rows h serial [] = io_ret []"
| "list_rows h serial (p # ps) =
     (let name = remove_prefix (FILES_DIRECTORY @ ''/'') p
      in case resolve_name name of
           Inl e \<Rightarrow> list_rows h serial ps
         | Inr q \<Rightarrow> io_bind (remote_metadata h serial p) (\<lambda>(n, modified).
             io_bind (list_rows h serial ps) (\<lambda>rows.
             io_ret (\<lparr>fl_name = name, fl_size = n, fl_modified_at = modified\<rparr> # rows))))"

definition list_files :: "'w host \<Rightarrow> string \<Rightarrow> ('w, file_row list) io" where
  "list_files h u =
     io_catch (io_bind (files_serial h u) (\<lambda>serial.
       io_bind (run_exec_out h serial [''find'', FILES_DIRECTORY, ''-mindepth'', ''1'', ''-maxdepth'', ''1'',
         ''-type'', ''f'', ''-print0''] DEFAULT_TIMEOUT_SECONDS) (\<lambda>out.
       io_bind (list_rows h serial (filter (\<lambda>p. p \<noteq> []) (split_on chr_nul out))) (\<lambda>rows.
       io_ret (sort_key fl_name rows)))))
     (\<lambda>e. if \<not> device_fault e then io_raise e
          else if is_missing e then io_ret []
          else io_raise (device_files_error u ''could not list files''))"

definition missing_or :: "string \<Rightarrow> string \<Rightarrow> string \<Rightarrow> exn \<Rightarrow> exn" where
  "missing_or u name action e =
     (if is_missing e then FileNotFoundError name else device_files_error u action)"

definition store_file :: "'w host \<Rightarrow> (string \<Rightarrow> string) \<Rightarrow> string \<Rightarrow> string \<Rightarrow> string \<Rightarrow> ('w, unit) io" where
  "store_file h sha u name source =
     io_bind (io_lift (resolve_name name)) (\<lambda>remote_path.
     io_bind (ho_file_size h source) (\<lambda>n.
     io_bind (require_size n) (\<lambda>x.
     io_bind (file_checksum h sha source) (\<lambda>local_sum.
     on_fault (io_bind (files_serial h u) (\<lambda>serial.
       io_bind (run_exec_out h serial [''mkdir'', ''-p'', FILES_DIRECTORY] DEFAULT_TIMEOUT_SECONDS) (\<lambda>y.
       io_bind (push_file h serial source remote_path) (\<lambda>z.
       io_bind (remote_checksum h serial remote_path) (\<lambda>remote_sum.
       io_bind (if remote_sum \<noteq> local_sum
         then io_catch (io_bind (run_exec_out h serial [''rm'', ''--'', remote_path] DEFAULT_TIMEOUT_SECONDS)
                (\<lambda>v. io_ret ())) (\<lambda>e. if device_fault e then io_ret () else io_raise e)
         else io_ret ()) (\<lambda>v.
       require_checksum remote_sum local_sum ''device checksum did not match uploaded file''))))))
       (\<lambda>e. device_files_error u ''could not store the file'')))))"

definition check_download :: "'w host \<Rightarrow> string \<Rightarrow> ('w, unit) io" where
  "check_download h dest =
     io_catch (io_bind (ho_file_size h dest) require_size) (\<lambda>e. case e of
         BoundaryError FilesBoundary d m \<Rightarrow> io_bind (ho_unlink h dest) (\<lambda>x. io_raise e)
       | _ \<Rightarrow> io_raise e)"

definition fetch_file :: "'w host \<Rightarrow> (string \<Rightarrow> string) \<Rightarrow> string \<Rightarrow> string \<Rightarrow> string \<Rightarrow> ('w, unit) io" where
  "fetch_file h sha u name dest =
     io_bind (io_lift (resolve_name name)) (\<lambda>remote_path.
     on_fault (io_bind (files_serial h u) (\<lambda>serial.
       io_bind (remote_metadata h serial remote_path) (\<lambda>(n, modified).
       io_bind (require_size n) (\<lambda>x.
       io_bind (remote_checksum h serial remote_path) (\<lambda>remote_sum.
       io_bind (pull_file h serial remote_path dest) (\<lambda>y.
       io_bind (check_download h dest) (\<lambda>z.
       io_bind (file_checksum h sha dest) (\<lambda>local_sum.
       io_bind (if local_sum \<noteq> remote_sum then ho_unlink h dest else io_ret ()) (\<lambda>v.
       require_checksum local_sum remote_sum ''downloaded file checksum did not match device''))))))))) 
       (missing_or u name ''could not fetch the file''))"

definition remove_file :: "'w host \<Rightarrow> string \<Rightarrow> string \<Rightarrow> ('w, unit) io" where
  "remove_file h u name =
     io_bind (io_lift (resolve_name name)) (\<lambda>remote_path.
     on_fault (io_bind (files_serial h u) (\<lambda>serial.
       io_bind (remote_metadata h serial remote_path) (\<lambda>meta.
       io_bind (run_exec_out h serial [''rm'', ''--'', remote_path] DEFAULT_TIMEOUT_SECONDS) (\<lambda>out.
       io_ret ())))) (missing_or u name ''could not remove the file''))"

section \<open>Properties\<close>

text \<open>
  C13. A client's file name reaches the device only as one visible component directly below the
  transfer directory: the path has exactly the directory's components and the name, and the
  name is not a dot entry and holds no separator, control character or NUL.
\<close>

theorem names_are_confined:
  assumes "resolve_name name = Inr path"
  shows "split_on (CHR ''/'') path = [[], ''sdcard'', ''rackphone'', name] \<and>
    name \<notin> {[], ''.'', ''..''} \<and> list_all (\<lambda>c. 32 \<le> code c \<and> code c \<noteq> 127 \<and> c \<noteq> chr_backslash) name"
proof -
  have path: "path = FILES_DIRECTORY @ ''/'' @ name" and name: "name \<noteq> []" "\<not> starts_with ''.'' name"
    "CHR ''/'' \<notin> set name" "chr_backslash \<notin> set name"
    "\<not> list_ex (\<lambda>c. code c < ASCII_CONTROL_END \<or> code c = ASCII_DELETE) name"
    using assms by (auto simp: resolve_name_def split: if_splits)
  have "split_on (CHR ''/'') path = [[], ''sdcard'', ''rackphone'', name]"
    using split_on_free [OF name(3)] by (simp add: path FILES_DIRECTORY_def)
  moreover have "name \<notin> {[], ''.'', ''..''}" using name(1,2) by auto
  moreover have "list_all (\<lambda>c. 32 \<le> code c \<and> code c \<noteq> 127 \<and> c \<noteq> chr_backslash) name"
    using name(4,5) by (auto simp: list_all_iff list_ex_iff ASCII_CONTROL_END_def ASCII_DELETE_def not_less)
  ultimately show ?thesis by blast
qed

theorem names_are_confined_witness:
  "split_on (CHR ''/'') ''/sdcard/rackphone/a b.txt'' = [[], ''sdcard'', ''rackphone'', ''a b.txt'']"
proof -
  have "resolve_name ''a b.txt'' = Inr ''/sdcard/rackphone/a b.txt''"
    by (simp add: resolve_name_def FILES_DIRECTORY_def chr_defs code_def ASCII_CONTROL_END_def
        ASCII_DELETE_def)
  from names_are_confined [OF this] show ?thesis by blast
qed


definition file_host :: "unit host" where
  "file_host = sample_host\<lparr>ho_run := (\<lambda>args t. io_ret (0,
       if args = [''adb'', ''devices''] then ''List'' @ [chr_nl] @ ''A1'' @ [chr_tab] @ ''device'' @ [chr_nl]
       else if ''stat'' \<in> set args then ''5'' @ [chr_tab] @ ''1700''
       else if ''sha256sum'' \<in> set args then replicate 64 (CHR ''a'') else [], [])),
     ho_read_unit := (\<lambda>n w. Some []), ho_file_size := (\<lambda>p. io_ret 5),
     ho_read_file := (\<lambda>p. io_ret ''hello'')\<rparr>"

lemma file_host_fetches:
  "fetch_file file_host (\<lambda>b. replicate 32 (CHR 0xAA)) ''lisa01'' ''a.txt'' ''/tmp/a'' () = (Inr (), ())"
proof -
  have name: "resolve_name ''a.txt'' = Inr ''/sdcard/rackphone/a.txt''"
    by (simp add: resolve_name_def FILES_DIRECTORY_def chr_defs code_def ASCII_CONTROL_END_def
        ASCII_DELETE_def)
  have cmd: "build_adb_command file_host () = (Inr [''adb''], ())"
    by (simp add: build_adb_command_def find_adb_binary_def file_host_def sample_host_def io_bind_app)
  have serial: "files_serial file_host ''lisa01'' () = (Inr ''A1'', ())"
  proof -
    have "load_unit file_host ''lisa01'' () = (Inr (parse_unit ''lisa01'' []), ())"
      by (rule load_unit_found) (simp_all add: file_host_def)
    moreover have "resolve_serial file_host None () = (Inr ''A1'', ())"
      by (simp add: resolve_serial_def list_devices_def cmd io_bind_app)
        (simp add: file_host_def parse_devices_def chr_defs break_rest_def is_break_def is_space_def code_def
          strip_def lstrip_def rstrip_def is_usable_def DEVICE_STATE_READY_def choose_only_def)
    ultimately show ?thesis by (simp add: files_serial_def io_bind_app parse_unit_def)
  qed
  have run: "ho_run file_host args t () = (Inr (0,
       if args = [''adb'', ''devices''] then ''List'' @ [chr_nl] @ ''A1'' @ [chr_tab] @ ''device'' @ [chr_nl]
       else if ''stat'' \<in> set args then ''5'' @ [chr_tab] @ ''1700''
       else if ''sha256sum'' \<in> set args then replicate 64 (CHR ''a'') else [], []), ())" for args t
    by (simp add: file_host_def)
  have meta: "remote_metadata file_host ''A1'' p () = (Inr (5, 1700), ())" for p
    by (simp add: remote_metadata_def run_exec_out_def cmd run io_bind_app)
      (simp add: strip_def lstrip_def rstrip_def chr_defs is_space_def code_def parse_int_def is_digit_def
        digit_val_def)
  have "split_ws (replicate 64 (CHR ''a'')) = [replicate 64 (CHR ''a'')]"
    by (simp add: numeral_eq_Suc is_space_def code_def)
  then have sum: "remote_checksum file_host ''A1'' p () = (Inr (replicate 64 (CHR ''a'')), ())"
    if "p \<noteq> ''stat''" for p
    using that by (simp add: remote_checksum_def run_exec_out_def cmd run io_bind_app SHA256_HEX_LENGTH_def
        lower_def lower_char_def code_def)
  have hex: "concat (map hex_byte (replicate 32 (CHR 0xAA))) = replicate 64 (CHR ''a'')"
  proof -
    have "hex_byte (CHR 0xAA) = ''aa''" by (simp add: hex_byte_def code_def)
    then show ?thesis unfolding map_replicate by (simp add: numeral_eq_Suc)
  qed
  have pull: "pull_file file_host ''A1'' p d () = (Inr (), ())" for p d
    by (simp add: pull_file_def transfer_def cmd run io_bind_app)
  have rest: "check_download file_host d () = (Inr (), ())"
    "file_checksum file_host (\<lambda>b. replicate 32 (CHR 0xAA)) d () = (Inr (replicate 64 (CHR ''a'')), ())" for d
    unfolding check_download_def file_checksum_def hex [symmetric]
    by (simp_all add: file_host_def require_size_def MAX_FILE_SIZE_def io_bind_app io_catch_app)
  show ?thesis
    unfolding fetch_file_def on_fault_def name
    by (simp add: io_bind_app io_catch_app serial meta sum pull rest require_size_def MAX_FILE_SIZE_def
        require_checksum_def)
qed


end
