(* ===== verification/Api.thy ===== *)
theory Api
  imports Contacts Session Login Filters Exposition Files Drain
begin

text \<open>
  The policies of the HTTP interface, \<open>gateway/api.py\<close>: who is asking, which unit and which rows
  a caller may reach, the error translation, the event stream and the life of a relay. A request
  reads the clock once here. A structured error detail is its JSON text. The handlers of the
  routes are in \<open>Routes\<close>.
\<close>

definition STREAM_BATCH_SIZE :: int where "STREAM_BATCH_SIZE = 100"
definition RELEASE_GRACE_SECONDS :: int where "RELEASE_GRACE_SECONDS = 8"
definition SESSION_BUSY_REASON :: string where "SESSION_BUSY_REASON = ''session_busy''"
definition KNOWN_SCOPES :: "string list" where "KNOWN_SCOPES = [SCOPE_READ, SCOPE_CONTROL, SCOPE_ADMIN]"

text \<open>
  What the application is built from, and the state its handlers share. \<open>ap_mktemp\<close> makes an empty
  temporary file with a name of the given prefix, \<open>ap_append\<close> writes at its end.
\<close>

record 'w api =
  ap_config :: gateway_config
  ap_login :: login_service
  ap_host :: "'w host"
  ap_search :: "string \<Rightarrow> string \<Rightarrow> bool"
  ap_sha :: "string \<Rightarrow> string"
  ap_screen :: manager
  ap_voice :: manager
  ap_mktemp :: "string \<Rightarrow> ('w, string) io"
  ap_append :: "string \<Rightarrow> string \<Rightarrow> ('w, unit) io"

type_synonym session_tables = "(string, screen_session) dict \<times> (string, tunnel) dict"

record 'w api_world =
  aw_host :: 'w
  aw_login :: login_world
  aw_events :: event_db
  aw_screen :: session_tables
  aw_voice :: session_tables
  aw_book :: book
  aw_stats :: "gateway_stats option"

definition via_host :: "('w, 'a) io \<Rightarrow> ('w api_world, 'a) io" where
  "via_host m = (\<lambda>w. case m (aw_host w) of (r, v) \<Rightarrow> (r, w\<lparr>aw_host := v\<rparr>))"

definition via_login :: "(login_world, 'a) io \<Rightarrow> ('w api_world, 'a) io" where
  "via_login m = (\<lambda>w. case m (aw_login w) of (r, v) \<Rightarrow> (r, w\<lparr>aw_login := v\<rparr>))"

definition screen_world :: "'w api_world \<Rightarrow> 'w session_world" where
  "screen_world w = \<lparr>sw_host = aw_host w, sw_sessions = fst (aw_screen w), sw_tunnels = snd (aw_screen w)\<rparr>"

definition voice_world :: "'w api_world \<Rightarrow> 'w session_world" where
  "voice_world w = \<lparr>sw_host = aw_host w, sw_sessions = fst (aw_voice w), sw_tunnels = snd (aw_voice w)\<rparr>"

definition manager_world :: "bool \<Rightarrow> 'w api_world \<Rightarrow> 'w session_world" where
  "manager_world voice w = (if voice then voice_world w else screen_world w)"

definition manager_of :: "'w api \<Rightarrow> bool \<Rightarrow> manager" where
  "manager_of ap voice = (if voice then ap_voice ap else ap_screen ap)"

definition on_manager :: "bool \<Rightarrow> ('w session_world, 'a) io \<Rightarrow> ('w api_world, 'a) io" where
  "on_manager voice m = (\<lambda>w. case m (manager_world voice w) of
     (r, v) \<Rightarrow> (r, if voice then w\<lparr>aw_host := sw_host v, aw_voice := (sw_sessions v, sw_tunnels v)\<rparr>
                 else w\<lparr>aw_host := sw_host v, aw_screen := (sw_sessions v, sw_tunnels v)\<rparr>))"

section \<open>Who is asking\<close>

definition client_ip :: "string \<Rightarrow> string \<Rightarrow> string list \<Rightarrow> string" where
  "client_ip peer forwarded_for trusted =
     (if peer \<in> set trusted \<and> forwarded_for \<noteq> []
      then (let hop = strip (last (split_on (CHR '','') forwarded_for)) in if hop = [] then peer else hop)
      else peer)"

definition bearer_token :: "string \<Rightarrow> string" where
  "bearer_token authorization =
     (if starts_with ''Bearer '' authorization then drop 7 authorization else [])"

definition legacy_enabled :: "'w api \<Rightarrow> bool" where
  "legacy_enabled ap \<longleftrightarrow> gc_api_token (ap_config ap) \<noteq> [] \<and> is_loopback (gc_api_host (ap_config ap))"

definition unauthorised :: exn where
  "unauthorised = HTTPException 401 ''invalid or missing bearer token''"

text \<open>\<open>legacy_enabled and compare_digest(token, api_token)\<close>\<close>

definition legacy_token :: "'w api \<Rightarrow> string \<Rightarrow> bool result" where
  "legacy_token ap token =
     (if legacy_enabled ap then compare_digest token (gc_api_token (ap_config ap)) else Inr False)"

definition require_scope :: "'w api \<Rightarrow> string \<Rightarrow> string \<Rightarrow> int \<Rightarrow> unit result" where
  "require_scope ap scope authorization now =
     (let token = bearer_token authorization
      in if authorise (ap_login ap) token now scope \<noteq> None then Inr ()
         else rbind (legacy_token ap token) (\<lambda>ok. if ok then Inr () else Inl unauthorised))"

definition live_session :: "'w api \<Rightarrow> string \<Rightarrow> string \<Rightarrow> int \<Rightarrow> ('w api_world, string \<times> int option) io" where
  "live_session ap authorization scope now =
     (let token = bearer_token authorization;
          fallback = io_lift (rbind (legacy_token ap token) (\<lambda>ok.
            if ok then Inr (''legacy'', None) else Inl unauthorised))
      in case authorise (ap_login ap) token now scope of
           Some claims \<Rightarrow>
             io_bind (via_login (db_read (live_refresh (ac_refresh_id claims) now))) (\<lambda>session.
               case session of
                 Some s \<Rightarrow> io_ret (se_label s, Some (se_id s))
               | None \<Rightarrow> fallback)
         | None \<Rightarrow> fallback)"

definition control_session :: "'w api \<Rightarrow> string \<Rightarrow> int \<Rightarrow> ('w api_world, string \<times> int option) io" where
  "control_session ap authorization now = live_session ap authorization SCOPE_CONTROL now"

definition control_holder :: "'w api \<Rightarrow> string \<Rightarrow> int \<Rightarrow> ('w api_world, string) io" where
  "control_holder ap authorization now =
     io_bind (control_session ap authorization now) (\<lambda>(holder, refresh_id). io_ret holder)"

section \<open>What they may reach\<close>

definition require_unit :: "'w api \<Rightarrow> string \<Rightarrow> string \<Rightarrow> ('w api_world, unit) io" where
  "require_unit ap u capability =
     io_bind (via_host (load_all_units (ap_host ap))) (\<lambda>us.
       if \<not> list_ex (\<lambda>x. un_name x = u) us then io_raise (HTTPException 404 ''unknown unit'')
       else if capability \<notin> capabilities_for (ap_config ap) u
       then io_raise (HTTPException 403 ''unit capability denied'')
       else io_ret ())"

definition capability_for :: "string \<Rightarrow> string" where
  "capability_for kind = (if kind = KIND_NOTIFICATION then ''notifications'' else ''sms'')"

definition row_permitted :: "gateway_config \<Rightarrow> event_row \<Rightarrow> bool" where
  "row_permitted c r \<longleftrightarrow> capability_for (er_kind r) \<in> capabilities_for c (er_unit r)"

definition readable_rows :: "event_row list \<Rightarrow> gateway_config option \<Rightarrow> event_row list" where
  "readable_rows rows c = (case c of None \<Rightarrow> rows | Some cfg \<Rightarrow> filter (row_permitted cfg) rows)"

definition permitted_rows :: "'w api \<Rightarrow> string option \<Rightarrow> string option \<Rightarrow> int option \<Rightarrow> int
     \<Rightarrow> ('w api_world, event_row list) io" where
  "permitted_rows ap kind u since limit =
     (let required = (case kind of Some k \<Rightarrow> {capability_for k} | None \<Rightarrow> {''sms'', ''notifications''})
      in if (case u of Some n \<Rightarrow> required \<inter> capabilities_for (ap_config ap) n = {} | None \<Rightarrow> False)
         then io_raise (HTTPException 403 ''unit capability denied'')
         else io_read (\<lambda>w. readable_rows (query_events kind u since limit (aw_events w)) (Some (ap_config ap))))"

definition translate_device_error :: "exn \<Rightarrow> exn" where
  "translate_device_error e =
     (case e of BoundaryError k device_failure m \<Rightarrow> HTTPException (if device_failure then 502 else 400) m | _ \<Rightarrow> e)"

text \<open>\<open>except XError as exc: raise translate_device_error(exc)\<close> for one of the boundaries.\<close>

definition translating :: "boundary \<Rightarrow> ('w, 'a) io \<Rightarrow> ('w, 'a) io" where
  "translating k m = io_catch m (\<lambda>e. io_raise (case e of
     BoundaryError j d t \<Rightarrow> if j = k then translate_device_error e else e | _ \<Rightarrow> e))"

section \<open>The event stream\<close>

record stream_frame =
  sf_row :: event_row
  sf_notify :: bool
  sf_filter :: "string option"

definition row_event :: "event_row \<Rightarrow> (string option, int option) event" where
  "row_event r = \<lparr>ev_unit = er_unit r, ev_kind = er_kind r, ev_source_id = er_source_id r,
     ev_address = er_address r, ev_body = er_body r, ev_timestamp = None, ev_direction = er_direction r,
     ev_duration = None, ev_raw = None\<rparr>"

definition with_notify_decision :: "(string \<Rightarrow> string \<Rightarrow> bool) \<Rightarrow> event_row \<Rightarrow> gateway_config option \<Rightarrow> stream_frame" where
  "with_notify_decision search r c =
     (case c of
        None \<Rightarrow> \<lparr>sf_row = r, sf_notify = True, sf_filter = None\<rparr>
      | Some cfg \<Rightarrow> (case should_push search (row_event r) (gc_filters cfg) of
          (notify, rule) \<Rightarrow> \<lparr>sf_row = r, sf_notify = notify, sf_filter = map_option fr_name rule\<rparr>))"

text \<open>One round of \<open>iter_new_events\<close>: the frames it yields and the highest id seen after it.\<close>

definition stream_poll :: "(string \<Rightarrow> string \<Rightarrow> bool) \<Rightarrow> gateway_config option \<Rightarrow> event_db \<Rightarrow> int
     \<Rightarrow> stream_frame list \<times> int" where
  "stream_poll search c db last_seen =
     (let rows = rev (readable_rows (filter (\<lambda>r. last_seen < er_id r)
            (query_events None None None STREAM_BATCH_SIZE db)) c)
      in (map (\<lambda>r. with_notify_decision search r c) rows, fold (\<lambda>r m. max m (er_id r)) rows last_seen))"

text \<open>
  The rounds of a stream: before each one, whether the reader is still authorised, and the rows
  in the store by then.
\<close>

fun iter_new_events :: "(string \<Rightarrow> string \<Rightarrow> bool) \<Rightarrow> gateway_config option \<Rightarrow> (bool \<times> event_db) list \<Rightarrow> int
     \<Rightarrow> stream_frame list" where
  "iter_new_events search c [] last_seen = []"
| "iter_new_events search c ((authorised, db) # rounds) last_seen =
     (if \<not> authorised then []
      else (case stream_poll search c db last_seen of
          (frames, last_seen') \<Rightarrow> frames @ iter_new_events search c rounds last_seen'))"

definition still_authorised :: "int option \<Rightarrow> int \<Rightarrow> auth_db \<Rightarrow> bool" where
  "still_authorised refresh_id now s = (case refresh_id of None \<Rightarrow> True | Some i \<Rightarrow> family_live i now s)"

definition stream_events :: "'w api \<Rightarrow> string \<Rightarrow> int \<Rightarrow> ('w api_world, int option \<times> int) io" where
  "stream_events ap authorization now =
     (let token = bearer_token authorization; claims = authorise (ap_login ap) token now SCOPE_READ
      in io_bind (io_lift (if claims = None then legacy_token ap token else Inr True)) (\<lambda>ok.
         if \<not> ok then io_raise unauthorised
         else let refresh_id = map_option ac_refresh_id claims
              in io_bind (via_login (db_read (still_authorised refresh_id now))) (\<lambda>live.
                 if \<not> live then io_raise unauthorised
                 else io_read (\<lambda>w. (refresh_id, latest_event_id (aw_events w))))))"

section \<open>Relays\<close>

definition renew_lease :: "'w api \<Rightarrow> bool \<Rightarrow> string \<Rightarrow> string \<Rightarrow> int option \<Rightarrow> int \<Rightarrow> ('w api_world, bool) io" where
  "renew_lease ap voice u holder refresh_id now =
     io_bind (via_login (db_read (\<lambda>s. case refresh_id of
         Some i \<Rightarrow> live_refresh i now s \<noteq> None | None \<Rightarrow> True))) (\<lambda>live.
       if \<not> live then io_ret False
       else io_bind (on_manager voice (heartbeat (ap_host ap) (manager_of ap voice) u now (Some holder)))
         (\<lambda>s. io_ret (s \<noteq> None)))"

text \<open>
  \<open>relay_heartbeat\<close> over its beats: whether the lease was renewed, and what \<open>in_use\<close> said (the
  outer \<open>None\<close> when the route has none). The result is how many beats the relay lives.
\<close>

fun relay_heartbeat :: "bool \<Rightarrow> (bool \<times> bool option option) list \<Rightarrow> nat" where
  "relay_heartbeat seen [] = 0"
| "relay_heartbeat seen ((renewed, in_use) # beats) =
     (if \<not> renewed then 0
      else case in_use of
          None \<Rightarrow> Suc (relay_heartbeat seen beats)
        | Some (Some True) \<Rightarrow> Suc (relay_heartbeat True beats)
        | Some (Some False) \<Rightarrow> if seen then 0 else Suc (relay_heartbeat seen beats)
        | Some None \<Rightarrow> Suc (relay_heartbeat seen beats))"

text \<open>
  \<open>acquire_own\<close> over the clock readings of its attempts, the wall clock and the monotonic one; a
  list that ends stands for a task cancelled while it waits.
\<close>

fun acquire_own :: "'w host \<Rightarrow> manager \<Rightarrow> string \<Rightarrow> string \<Rightarrow> int \<Rightarrow> (int \<times> int) list
     \<Rightarrow> ('w session_world, screen_session) io" where
  "acquire_own h m u holder deadline [] = io_raise (RuntimeError ''cancelled'')"
| "acquire_own h m u holder deadline ((now, tick) # ticks) =
     io_catch (acquire h m u holder now) (\<lambda>e. case e of
         SessionBusy other since kind \<Rightarrow>
           if other \<noteq> holder \<or> deadline \<le> tick then io_raise e
           else acquire_own h m u holder deadline ticks
       | _ \<Rightarrow> io_raise e)"

text \<open>The two relays: the capability each needs, and the reason it closes with.\<close>

definition relay_capability :: "bool \<Rightarrow> string" where
  "relay_capability voice = (if voice then ''calls'' else ''screen'')"

definition ended_reason :: "bool \<Rightarrow> string" where
  "ended_reason voice = (if voice then ''call audio relay ended'' else ''screen relay ended'')"

text \<open>
  \<open>hold_relay\<close> after the admission: what runs while the session is held, \<open>run\<close>, opens and pumps
  the relay, may fail, and may see the world change in any way meanwhile. The result is the close
  code and reason. The release comes last, on every path, unless another holds the unit by then.
\<close>

definition relay_held :: "'w api \<Rightarrow> bool \<Rightarrow> (screen_session \<Rightarrow> ('w api_world, unit) io) \<Rightarrow> string \<Rightarrow> string
     \<Rightarrow> int \<Rightarrow> (int \<times> int) list \<Rightarrow> int \<Rightarrow> ('w api_world, int \<times> string) io" where
  "relay_held ap voice run u holder begun ticks later =
     (\<lambda>w. case on_manager voice (acquire_own (ap_host ap) (manager_of ap voice) u holder
            (begun + RELEASE_GRACE_SECONDS) ticks) w of
        (Inl e, w1) \<Rightarrow> (Inr (case e of
            SessionBusy other since kind \<Rightarrow> (1008, SESSION_BUSY_REASON @ '' '' @ take 64 other)
          | _ \<Rightarrow> (1011, ended_reason voice)), w1)
      | (Inr s, w1) \<Rightarrow> (case run s w1 of
          (r, w2) \<Rightarrow>
            let closed = (case r of Inr x \<Rightarrow> (1000, []) | Inl e \<Rightarrow> (1011, ended_reason voice))
            in if same_session (get_session u (manager_world voice w2)) (Some s)
               then io_bind (on_manager voice (release (ap_host ap) (manager_of ap voice) u later))
                      (\<lambda>x. io_ret closed) w2
               else (Inr closed, w2)))"

definition hold_relay :: "'w api \<Rightarrow> bool \<Rightarrow> (screen_session \<Rightarrow> ('w api_world, unit) io) \<Rightarrow> string \<Rightarrow> string
     \<Rightarrow> int \<Rightarrow> int \<Rightarrow> (int \<times> int) list \<Rightarrow> int \<Rightarrow> ('w api_world, int \<times> string) io" where
  "hold_relay ap voice run u authorization now begun ticks later =
     io_bind (io_catch (io_bind (control_session ap authorization now) (\<lambda>(holder, refresh_id).
          io_bind (require_unit ap u (relay_capability voice)) (\<lambda>x. io_ret (Inr holder))))
        (\<lambda>e. case e of HTTPException status m \<Rightarrow> io_ret (Inl m) | _ \<Rightarrow> io_raise e)) (\<lambda>admitted.
     case admitted of
       Inl m \<Rightarrow> io_ret (1008, m)
     | Inr holder \<Rightarrow> relay_held ap voice run u holder begun ticks later)"

section \<open>Lemmas\<close>

lemma sf_row_decision [simp]: "sf_row (with_notify_decision search r c) = r"
  by (simp add: with_notify_decision_def split: option.splits prod.splits)

lemma fold_max_ge: "(m::int) \<le> fold (\<lambda>r m. max m (f r)) rs m"
  by (induction rs arbitrary: m) (auto intro: order_trans [OF max.cobounded1])

lemma fold_max_mem: "r \<in> set rs \<Longrightarrow> f r \<le> fold (\<lambda>r m. max m (f r)) rs (m::int)"
proof (induction rs arbitrary: m)
  case (Cons a rs)
  then show ?case using fold_max_ge [of "max m (f a)" f rs] by auto
qed simp

lemma query_events_mem: "r \<in> set (query_events kind u since limit db) \<Longrightarrow> r \<in> set db"
  by (auto simp: query_events_def dest: in_set_takeD)

lemma query_events_distinct:
  "distinct (map er_id db) \<Longrightarrow> distinct (map er_id (query_events kind u since limit db))"
proof -
  assume "distinct (map er_id db)"
  then have d: "distinct db" "inj_on er_id (set db)" by (simp_all add: distinct_map)
  have "distinct (query_events kind u since limit db)"
    unfolding query_events_def using d(1) by simp
  moreover have "inj_on er_id (set (query_events kind u since limit db))"
    using d(2) query_events_mem by (meson inj_on_subset subsetI)
  ultimately show ?thesis by (simp add: distinct_map)
qed

lemma stream_poll_rows:
  assumes "stream_poll search c db m = (frames, m')"
  shows "f \<in> set frames \<Longrightarrow> sf_row f \<in> set db \<and> m < er_id (sf_row f) \<and> er_id (sf_row f) \<le> m' \<and>
      (\<forall>cfg. c = Some cfg \<longrightarrow> row_permitted cfg (sf_row f))"
    and "m \<le> m'"
    and "distinct (map er_id db) \<Longrightarrow> distinct (map (\<lambda>f. er_id (sf_row f)) frames)"
proof -
  define rows where "rows = rev (readable_rows (filter (\<lambda>r. m < er_id r)
      (query_events None None None STREAM_BATCH_SIZE db)) c)"
  have fr: "frames = map (\<lambda>r. with_notify_decision search r c) rows"
    and m': "m' = fold (\<lambda>r m. max m (er_id r)) rows m"
    using assms by (simp_all add: stream_poll_def Let_def rows_def)
  have rows: "r \<in> set db \<and> m < er_id r \<and> (\<forall>cfg. c = Some cfg \<longrightarrow> row_permitted cfg r)"
    if "r \<in> set rows" for r
    using that by (auto simp: rows_def readable_rows_def split: option.splits dest: query_events_mem)
  show "sf_row f \<in> set db \<and> m < er_id (sf_row f) \<and> er_id (sf_row f) \<le> m' \<and>
      (\<forall>cfg. c = Some cfg \<longrightarrow> row_permitted cfg (sf_row f))" if "f \<in> set frames"
  proof -
    from that obtain r where "f = with_notify_decision search r c" "r \<in> set rows" by (auto simp: fr)
    then show ?thesis using rows fold_max_mem [of r rows er_id m] by (simp add: m')
  qed
  show "m \<le> m'" unfolding m' by (rule fold_max_ge)
  show "distinct (map (\<lambda>f. er_id (sf_row f)) frames)" if "distinct (map er_id db)"
  proof -
    have "distinct (map er_id (query_events None None None STREAM_BATCH_SIZE db))"
      using query_events_distinct [OF that] .
    then have "distinct (map er_id rows)"
      by (auto simp: rows_def readable_rows_def rev_map [symmetric] distinct_map_filter split: option.splits)
    then show ?thesis by (simp add: fr comp_def)
  qed
qed

text \<open>The rounds a stream lives through.\<close>

definition live_rounds :: "(bool \<times> event_db) list \<Rightarrow> (bool \<times> event_db) list" where
  "live_rounds rounds = takeWhile fst rounds"

lemma iter_rows:
  "f \<in> set (iter_new_events search c rounds m) \<Longrightarrow>
     m < er_id (sf_row f) \<and> (\<forall>cfg. c = Some cfg \<longrightarrow> row_permitted cfg (sf_row f)) \<and>
     (\<exists>db \<in> snd ` set (live_rounds rounds). sf_row f \<in> set db)"
proof (induction search c rounds m rule: iter_new_events.induct)
  case (2 search c ok db rounds m)
  then have ok: ok by (auto split: if_splits)
  obtain frames m' where p: "stream_poll search c db m = (frames, m')" by (cases "stream_poll search c db m")
  from 2(2) ok p have "f \<in> set frames \<or> f \<in> set (iter_new_events search c rounds m')" by simp
  then show ?case
  proof
    assume "f \<in> set frames"
    then show ?thesis using stream_poll_rows(1) [OF p] ok by (auto simp: live_rounds_def)
  next
    assume later: "f \<in> set (iter_new_events search c rounds m')"
    have "m' < er_id (sf_row f) \<and> (\<forall>cfg. c = Some cfg \<longrightarrow> row_permitted cfg (sf_row f)) \<and>
       (\<exists>db \<in> snd ` set (live_rounds rounds). sf_row f \<in> set db)"
      using 2(1) ok p later by auto
    then show ?thesis using stream_poll_rows(2) [OF p] ok by (auto simp: live_rounds_def)
  qed
qed simp

lemma iter_distinct:
  "list_all (\<lambda>(ok, db). distinct (map er_id db)) rounds \<Longrightarrow>
     distinct (map (\<lambda>f. er_id (sf_row f)) (iter_new_events search c rounds m))"
proof (induction search c rounds m rule: iter_new_events.induct)
  case (2 search c ok db rounds m)
  obtain frames m' where p: "stream_poll search c db m = (frames, m')" by (cases "stream_poll search c db m")
  show ?case
  proof (cases ok)
    case True
    have "er_id (sf_row f) \<le> m'" if "f \<in> set frames" for f using stream_poll_rows(1) [OF p that] by blast
    moreover have "m' < er_id (sf_row f)" if "f \<in> set (iter_new_events search c rounds m')" for f
      using iter_rows [OF that] by blast
    ultimately have "er_id (sf_row f) \<noteq> er_id (sf_row g)"
      if "f \<in> set frames" "g \<in> set (iter_new_events search c rounds m')" for f g
      using that by fastforce
    moreover have "distinct (map (\<lambda>f. er_id (sf_row f)) frames)"
      using stream_poll_rows(3) [OF p] 2(2) by simp
    moreover have "distinct (map (\<lambda>f. er_id (sf_row f)) (iter_new_events search c rounds m'))"
      using 2 True p by simp
    ultimately show ?thesis using True p by auto
  qed simp
qed simp

lemma manager_world_on [simp]: "manager_world voice (snd (on_manager voice m w)) = snd (m (manager_world voice w))"
  by (simp add: manager_world_def on_manager_def screen_world_def voice_world_def case_prod_unfold)

lemma released_gone: "get_session u (snd (release h m u now w)) = None"
  by (simp add: get_session_def release_def)

section \<open>Properties\<close>

text \<open>
  C29. A live stream shows a reader only rows its configuration permits, each at most once, none that
  was there when it connected, and none stored after the reader's session ended, whatever happens
  to the store between the rounds.
\<close>

theorem stream_shows_permitted_once:
  assumes "list_all (\<lambda>(ok, db). distinct (map er_id db)) rounds"
  shows "list_all (\<lambda>f. row_permitted cfg (sf_row f) \<and> last_seen < er_id (sf_row f) \<and>
      list_ex (\<lambda>(ok, db). sf_row f \<in> set db) (live_rounds rounds))
      (iter_new_events search (Some cfg) rounds last_seen) \<and>
    distinct (map (\<lambda>f. er_id (sf_row f)) (iter_new_events search (Some cfg) rounds last_seen))"
  using iter_rows [of _ search "Some cfg" rounds last_seen] iter_distinct [OF assms]
  by (fastforce simp: list_all_iff list_ex_iff)

definition stored_row :: "int \<Rightarrow> string \<Rightarrow> event_row" where
  "stored_row i kind = \<lparr>er_id = i, er_unit = ''lisa01'', er_kind = kind, er_source_id = i, er_address = None,
     er_body = None, er_ts = Some i, er_direction = None, er_duration = None, er_raw_json = ''{}'',
     er_received_at = 0\<rparr>"

theorem stream_shows_permitted_once_witness:
  "distinct (map (\<lambda>f. er_id (sf_row f)) (iter_new_events (\<lambda>p s. False) (Some sample_config)
     [(True, [stored_row 1 ''sms'', stored_row 2 ''notification'']), (True, [stored_row 3 ''sms'']), (False, [])] 0))"
  using stream_shows_permitted_once [of "[(True, [stored_row 1 ''sms'', stored_row 2 ''notification'']),
      (True, [stored_row 3 ''sms'']), (False, [])]" sample_config 0 "\<lambda>p s. False"]
  by (simp add: stored_row_def)

text \<open>
  C30. A relay never outlives its lease on a unit: however it ended, by the client, the phone, an error
  or a revoked session, the session it acquired is no longer the unit's when it is over.
\<close>

theorem relay_always_released:
  assumes "on_manager voice (acquire_own (ap_host ap) (manager_of ap voice) u holder
      (begun + RELEASE_GRACE_SECONDS) ticks) w = (Inr s, w1)"
  shows "\<not> same_session (get_session u (manager_world voice
      (snd (relay_held ap voice run u holder begun ticks later w)))) (Some s)"
proof -
  obtain r w2 where run: "run s w1 = (r, w2)" by (cases "run s w1")
  show ?thesis
  proof (cases "same_session (get_session u (manager_world voice w2)) (Some s)")
    case True
    then have "snd (relay_held ap voice run u holder begun ticks later w) =
        snd (on_manager voice (release (ap_host ap) (manager_of ap voice) u later) w2)"
      using assms run by (simp add: relay_held_def snd_io_bind split: sum.splits)
    then show ?thesis by (simp add: released_gone same_session_def)
  next
    case False
    then show ?thesis using assms run by (simp add: relay_held_def)
  qed
qed

definition voice_manager :: manager where
  "voice_manager = \<lparr>sm_plugin = ''voice'', sm_socket = ''localabstract:rackphone-voice'', sm_kind = ''call'',
     sm_reverse = False\<rparr>"

definition sample_api :: "unit api" where
  "sample_api = \<lparr>ap_config = sample_config, ap_login = sample_service, ap_host = telephony_host ''9000'',
     ap_search = (\<lambda>p s. False), ap_sha = (\<lambda>s. s), ap_screen = screen_manager, ap_voice = voice_manager,
     ap_mktemp = (\<lambda>p. io_ret p), ap_append = (\<lambda>p c. io_ret ())\<rparr>"

definition idle_world :: "unit api_world" where
  "idle_world = \<lparr>aw_host = (), aw_login = fresh_world, aw_events = [], aw_screen = ([], []),
     aw_voice = ([], []), aw_book = [], aw_stats = None\<rparr>"

lemma voice_acquired:
  "\<exists>s w1. on_manager True (acquire_own (ap_host sample_api) (manager_of sample_api True) ''lisa01'' ''me''
      (0 + RELEASE_GRACE_SECONDS) [(1000, 0)]) idle_world = (Inr s, w1)"
proof -
  have none: "un_serial (parse_unit ''lisa01'' []) = None" by code_simp
  have serial: "resolve_serial (telephony_host ''9000'') None () = (Inr ''A1'', ())" by code_simp
  have start: "run_device_cli (telephony_host ''9000'') ''A1'' words t () = (Inr ''9000'', ())"
    if "words \<noteq> []" for words t
    unfolding run_device_cli_Inr by code_simp
  have forward: "adb_forward (telephony_host ''9000'') ''A1'' ''tcp:0'' r () = (Inr ''9000'', ())" for r
    by code_simp
  have draw: "ho_randbelow (telephony_host ''9000'') n () = (Inr 0, ())" for n by code_simp
  have started: "start_session (telephony_host ''9000'') voice_manager ''lisa01'' () =
      (Inr \<lparr>tn_port = ''9000'', tn_reverse_name = None, tn_listener = None\<rparr>, ())"
    by (simp add: start_session_def session_serial_def telephony_host_unit none serial start forward draw
        voice_manager_def io_bind_app io_catch_app Let_def)
  show ?thesis
    by (simp add: on_manager_def sample_api_def manager_of_def manager_world_def voice_world_def idle_world_def
        acquire_def open_session_def on_host_def started io_bind_app io_catch_app Let_def)
qed

theorem relay_always_released_witness:
  "\<exists>s. \<not> same_session (get_session ''lisa01'' (manager_world True
      (snd (relay_held sample_api True (\<lambda>s. io_raise (RuntimeError ''broken pipe'')) ''lisa01'' ''me'' 0 [(1000, 0)] 1001
        idle_world)))) (Some s)"
proof -
  from voice_acquired obtain s w1 where
    "on_manager True (acquire_own (ap_host sample_api) (manager_of sample_api True) ''lisa01'' ''me''
      (0 + RELEASE_GRACE_SECONDS) [(1000, 0)]) idle_world = (Inr s, w1)" by blast
  from relay_always_released [OF this] show ?thesis by blast
qed

text \<open>
  Behind a trusted proxy a client cannot choose the address its failures are counted under: only
  the hop the proxy itself appended counts, whatever the client put before it, and a direct peer's
  header counts for nothing.
\<close>

theorem forged_hops_ignored:
  assumes "CHR '','' \<notin> set hop"
  shows "client_ip peer (forged @ CHR '','' # hop) trusted =
    (if peer \<in> set trusted \<and> strip hop \<noteq> [] then strip hop else peer)"
  using split_on_last [of "CHR '',''" forged hop] split_on_free [OF assms]
  by (simp add: client_ip_def Let_def)

theorem forged_hops_ignored_witness:
  "client_ip ''10.0.0.2'' ''127.0.0.1, 203.0.113.9'' [''10.0.0.2''] = ''203.0.113.9''"
  using forged_hops_ignored [of "'' 203.0.113.9''" "''10.0.0.2''" "''127.0.0.1''" "[''10.0.0.2'']"]
  by (simp add: strip_def lstrip_def rstrip_def is_space_def code_def)

definition stamped_later :: "event_row \<Rightarrow> event_row \<Rightarrow> bool" where
  "stamped_later r q \<longleftrightarrow> (er_ts r, er_id r) < (er_ts q, er_id q)"

lemma take_order_desc:
  assumes "r \<in> set (take n (order_desc k xs))"
  shows "length (filter (\<lambda>q. k r < k q) xs) < n"
proof -
  let ?s = "order_desc k xs"
  obtain i where i: "i < n" "i < length ?s" "?s ! i = r"
    using assms(1) by (auto simp: in_set_conv_nth)
  have "\<forall>j. i \<le> j \<and> j < length ?s \<longrightarrow> \<not> k r < k (?s ! j)"
    using order_desc_sorted [of k xs] i by (auto simp: sorted_wrt_iff_nth_less not_less le_less)
  then have "filter (\<lambda>q. k r < k q) (drop i ?s) = []"
    by (auto simp: filter_empty_conv in_set_conv_nth)
  then have "length (filter (\<lambda>q. k r < k q) ?s) \<le> i"
    by (metis (no_types, lifting) append_Nil2 append_take_drop_id filter_append length_filter_le length_take min.bounded_iff)
  moreover have "length (filter (\<lambda>q. k r < k q) ?s) = length (filter (\<lambda>q. k r < k q) xs)"
    by (simp add: order_desc_def rev_filter [symmetric] filter_sort)
  ultimately show ?thesis using i(1) by simp
qed

text \<open>
  C35. A stream does not show every new row: a row with a full batch of later-stamped rows in the store
  at every round is never shown, however long the stream is followed.
\<close>

theorem backlog_is_skipped:
  assumes "list_all (\<lambda>(ok, db). STREAM_BATCH_SIZE \<le> int (length (filter (stamped_later r) db))) rounds"
  shows "r \<notin> sf_row ` set (iter_new_events search c rounds last_seen)"
  using assms
proof (induction search c rounds last_seen rule: iter_new_events.induct)
  case (2 search c ok db rounds m)
  obtain frames m' where p: "stream_poll search c db m = (frames, m')" by (cases "stream_poll search c db m")
  have "r \<notin> set (query_events None None None STREAM_BATCH_SIZE db)"
  proof
    assume "r \<in> set (query_events None None None STREAM_BATCH_SIZE db)"
    then have "r \<in> set (take 100 (order_desc (\<lambda>r. (er_ts r, er_id r)) db))"
      by (simp add: query_events_def clamp_limit_def STREAM_BATCH_SIZE_def MAX_QUERY_LIMIT_def row_matches_def)
    from take_order_desc [OF this] have "length (filter (stamped_later r) db) < 100"
      unfolding stamped_later_def [abs_def] .
    with 2(2) show False by (simp add: STREAM_BATCH_SIZE_def)
  qed
  then have "r \<notin> sf_row ` set frames"
    using p by (auto simp: stream_poll_def Let_def readable_rows_def split: option.splits)
  with 2 p show ?case by (auto split: if_splits)
qed simp

lemma full_batch: "length (filter (stamped_later (stored_row 1 ''sms'')) (map (\<lambda>i. stored_row (int i) ''sms'') [1..<102])) = 100"
proof -
  have "stamped_later (stored_row 1 ''sms'') (stored_row (int i) ''sms'') \<longleftrightarrow> 1 < i" for i
    by (auto simp: stamped_later_def stored_row_def)
  then have "filter (stamped_later (stored_row 1 ''sms'')) (map (\<lambda>i. stored_row (int i) ''sms'') [1..<102]) =
      map (\<lambda>i. stored_row (int i) ''sms'') (filter (\<lambda>i. 1 < i) [1..<102])"
    by (simp only: filter_map comp_def)
  moreover have "length (filter (\<lambda>i::nat. 1 < i) [1..<102]) = 100" by code_simp
  ultimately show ?thesis by simp
qed

theorem backlog_is_skipped_witness:
  "stored_row 1 ''sms'' \<notin> sf_row ` set (iter_new_events (\<lambda>p s. False) (Some sample_config)
     [(True, map (\<lambda>i. stored_row (int i) ''sms'') [1..<102])] 0)"
  by (rule backlog_is_skipped) (simp only: list.pred_inject case_prod_conv full_batch, simp add: STREAM_BATCH_SIZE_def)

end
