(* ===== verification/Routes.thy ===== *)
theory Routes
  imports Api
begin

text \<open>
  The request handlers of \<open>create_app\<close>, \<open>gateway/api.py\<close>, one definition each with the dependencies
  of its route in front, and \<open>serve\<close>, the application as a function of a request. A request arrives
  parsed and validated against its declaration. An \<open>exchange\<close> is what a handler learns from outside
  while it runs: the header and the peer, one reading of each clock, and the random draws.
\<close>

definition PACKAGE_VERSION :: string where "PACKAGE_VERSION = ''0.4.0''"

record exchange =
  ex_authorization :: string
  ex_peer :: string
  ex_forwarded :: string
  ex_now :: int
  ex_millis :: int
  ex_tick :: int
  ex_drawn :: string
  ex_codes :: "nat list list"

record login_body =
  lb_username :: string
  lb_password :: string
  lb_device_label :: string
  lb_totp_code :: "string option"
  lb_recovery_code :: "string option"
  lb_scope :: string

record password_body =
  pb_password :: string
  pb_totp_code :: "string option"
  pb_recovery_code :: "string option"

record dial_body =
  dl_to :: string
  dl_sim :: "int option"

record send_body =
  sb_unit :: string
  sb_to :: string
  sb_body :: string
  sb_sim :: "int option"

section \<open>What the handlers share\<close>

text \<open>\<open>dependencies=[Depends(require_scope(scope))]\<close> and \<open>holder = Depends(control_holder)\<close>.\<close>

definition guarded :: "'w api \<Rightarrow> string \<Rightarrow> exchange \<Rightarrow> ('w api_world, 'a) io \<Rightarrow> ('w api_world, 'a) io" where
  "guarded ap scope ex m = io_bind (io_lift (require_scope ap scope (ex_authorization ex) (ex_now ex))) (\<lambda>x. m)"

definition as_holder :: "'w api \<Rightarrow> exchange \<Rightarrow> (string \<Rightarrow> ('w api_world, 'a) io) \<Rightarrow> ('w api_world, 'a) io" where
  "as_holder ap ex f = io_bind (control_holder ap (ex_authorization ex) (ex_now ex)) f"

definition audit :: "exchange \<Rightarrow> string \<Rightarrow> string \<Rightarrow> string \<Rightarrow> string \<Rightarrow> ('w api_world, unit) io" where
  "audit ex action actor subject detail =
     via_login (db_write (record_audit (ex_now ex) action actor subject detail))"

definition caller_ip :: "'w api \<Rightarrow> exchange \<Rightarrow> string" where
  "caller_ip ap ex = client_ip (ex_peer ex) (ex_forwarded ex) (gc_trusted_proxies (ap_config ap))"

definition on_book :: "(book \<times> 'w, 'a) io \<Rightarrow> ('w api_world, 'a) io" where
  "on_book m = (\<lambda>w. case m (aw_book w, aw_host w) of
     (r, (b, v)) \<Rightarrow> (r, w\<lparr>aw_book := b, aw_host := v\<rparr>))"

definition on_events :: "(event_db \<Rightarrow> 'a result \<times> event_db) \<Rightarrow> ('w api_world, 'a) io" where
  "on_events f = (\<lambda>w. case f (aw_events w) of (r, db) \<Rightarrow> (r, w\<lparr>aw_events := db\<rparr>))"

section \<open>Health, units and counters\<close>

definition read_health :: "('w api_world, (string \<times> string) list) io" where
  "read_health = io_bind (via_login (db_read totp_secret)) (\<lambda>secret. io_ret
     [(''status'', ''ok''), (''version'', PACKAGE_VERSION),
      (''totp'', if secret = None \<or> secret = Some [] then ''disabled'' else ''enabled'')])"

record unit_summary =
  us_name :: string
  us_label :: string
  us_capabilities :: "string list"

definition unit_summary_of :: "gateway_config \<Rightarrow> unit_file \<Rightarrow> unit_summary" where
  "unit_summary_of c u =
     \<lparr>us_name = un_name u, us_label = (if un_label u = [] then un_name u else un_label u),
      us_capabilities = sorted_list_of_set (capabilities_for c (un_name u))\<rparr>"

definition read_units :: "'w api \<Rightarrow> exchange \<Rightarrow> ('w api_world, unit_summary list) io" where
  "read_units ap ex = guarded ap SCOPE_READ ex
     (io_bind (via_host (load_all_units (ap_host ap))) (\<lambda>us.
      io_ret (map (unit_summary_of (ap_config ap)) us)))"

record stats_report =
  sr_events :: "(string \<times> nat) list"
  sr_gateway :: "gateway_stats option"
  sr_security :: security_summary

definition read_stats :: "'w api \<Rightarrow> exchange \<Rightarrow> ('w api_world, stats_report) io" where
  "read_stats ap ex = guarded ap SCOPE_READ ex (io_read (\<lambda>w.
     \<lparr>sr_events = count_by_kind (aw_events w), sr_gateway = aw_stats w,
      sr_security = security_summary (ex_now ex) (lw_db (aw_login w))\<rparr>))"

section \<open>Screen sessions\<close>

definition session_conflict :: "string \<Rightarrow> int \<Rightarrow> exn" where
  "session_conflict holder since =
     HTTPException 409 (json_dumps (JObj [(''holder'', JStr holder), (''since'', JInt since)]))"

definition acquire_failure :: "exn \<Rightarrow> exn" where
  "acquire_failure e = (case e of SessionBusy other since kind \<Rightarrow> session_conflict other since | _ \<Rightarrow> e)"

definition acquire_screen_session :: "'w api \<Rightarrow> exchange \<Rightarrow> string \<Rightarrow> ('w api_world, screen_session) io" where
  "acquire_screen_session ap ex u = as_holder ap ex (\<lambda>holder.
     io_bind (require_unit ap u ''screen'') (\<lambda>x.
     io_bind (io_catch (on_manager False (acquire (ap_host ap) (ap_screen ap) u holder (ex_now ex)))
       (\<lambda>e. io_raise (acquire_failure e))) (\<lambda>s.
     io_bind (audit ex ''session_acquire'' holder u []) (\<lambda>y. io_ret s))))"

definition take_over_screen_session :: "'w api \<Rightarrow> exchange \<Rightarrow> string \<Rightarrow> ('w api_world, screen_session) io" where
  "take_over_screen_session ap ex u = as_holder ap ex (\<lambda>holder.
     io_bind (require_unit ap u ''screen'') (\<lambda>x.
     io_bind (on_manager False (take_over (ap_host ap) (ap_screen ap) u holder (ex_now ex))) (\<lambda>s.
     io_bind (audit ex ''session_takeover'' holder u []) (\<lambda>y. io_ret s))))"

definition heartbeat_screen_session :: "'w api \<Rightarrow> exchange \<Rightarrow> string \<Rightarrow> ('w api_world, unit) io" where
  "heartbeat_screen_session ap ex u = as_holder ap ex (\<lambda>holder.
     io_bind (require_unit ap u ''screen'') (\<lambda>x.
     io_bind (on_manager False (heartbeat (ap_host ap) (ap_screen ap) u (ex_now ex) (Some holder))) (\<lambda>s.
     if s = None then io_raise (HTTPException 409 ''caller is not the holder'') else io_ret ())))"

definition release_screen_session :: "'w api \<Rightarrow> exchange \<Rightarrow> string \<Rightarrow> ('w api_world, unit) io" where
  "release_screen_session ap ex u = as_holder ap ex (\<lambda>holder.
     io_bind (require_unit ap u ''screen'') (\<lambda>x.
     io_bind (on_manager False (release (ap_host ap) (ap_screen ap) u (ex_now ex))) (\<lambda>y.
     audit ex ''session_release'' holder u [])))"

definition read_screen_session :: "'w api \<Rightarrow> exchange \<Rightarrow> string \<Rightarrow> ('w api_world, screen_session option) io" where
  "read_screen_session ap ex u = as_holder ap ex (\<lambda>holder.
     io_bind (require_unit ap u ''screen'') (\<lambda>x. io_read (\<lambda>w. get_session u (screen_world w))))"

section \<open>What a unit reports\<close>

definition read_unit_contacts :: "'w api \<Rightarrow> exchange \<Rightarrow> string \<Rightarrow> bool \<Rightarrow> ('w api_world, contact list) io" where
  "read_unit_contacts ap ex u refresh = guarded ap SCOPE_READ ex
     (io_bind (require_unit ap u ''sms'') (\<lambda>x.
      translating ContactsBoundary (on_book (book_get
        (read_contacts (ap_host ap) DEFAULT_CONTACTS_TIMEOUT_SECONDS) CONTACTS_TTL_SECONDS (ex_tick ex) u refresh))))"

definition read_unit_sims :: "'w api \<Rightarrow> exchange \<Rightarrow> string \<Rightarrow> ('w api_world, json \<times> sim_entry list) io" where
  "read_unit_sims ap ex u = guarded ap SCOPE_READ ex
     (io_bind (require_unit ap u ''sms'') (\<lambda>x.
      translating SimsBoundary (via_host (read_sims (ap_host ap) u DEFAULT_SIMS_TIMEOUT_SECONDS))))"

record telemetry =
  te_unit :: string
  te_up :: bool
  te_collected_at :: int
  te_samples :: "(string, int \<times> int) dict"

definition read_telemetry :: "'w api \<Rightarrow> exchange \<Rightarrow> string \<Rightarrow> ('w api_world, telemetry) io" where
  "read_telemetry ap ex u = guarded ap SCOPE_READ ex
     (io_bind (via_host (load_all_units (ap_host ap))) (\<lambda>us.
      case List.find (\<lambda>x. un_name x = u) us of
        None \<Rightarrow> io_raise (HTTPException 404 ''unknown unit'')
      | Some target \<Rightarrow>
          if {''sms'', ''notifications''} \<inter> capabilities_for (ap_config ap) u = {}
          then io_raise (HTTPException 403 ''unit capability denied'')
          else io_bind (via_host (collect_unit_metrics (ap_host ap) target)) (\<lambda>(is_up, exposition).
            io_ret \<lparr>te_unit = u, te_up = is_up, te_collected_at = ex_now ex,
                    te_samples = (if is_up then parse_samples exposition else [])\<rparr>)))"

section \<open>Files\<close>

definition read_unit_files :: "'w api \<Rightarrow> exchange \<Rightarrow> string \<Rightarrow> ('w api_world, file_row list) io" where
  "read_unit_files ap ex u = guarded ap SCOPE_CONTROL ex
     (io_bind (require_unit ap u ''files'') (\<lambda>x.
      translating FilesBoundary (via_host (list_files (ap_host ap) u))))"

text \<open>
  The body of an upload as it arrives: its chunks, or the error that ends the stream. The result is
  the size of what was written to the temporary file.
\<close>

fun spool_body :: "'w api \<Rightarrow> string \<Rightarrow> int \<Rightarrow> string result list \<Rightarrow> ('w, int) io" where
  "spool_body ap path n [] = io_ret n"
| "spool_body ap path n (Inl e # chunks) = io_raise e"
| "spool_body ap path n (Inr chunk # chunks) =
     (let n' = n + int (length chunk)
      in if n' > MAX_FILE_SIZE
         then io_raise (HTTPException 400 (''file exceeds the '' @ show_int MAX_FILE_SIZE @ ''-byte size limit''))
         else io_bind (ap_append ap path chunk) (\<lambda>x. spool_body ap path n' chunks))"

definition upload_unit_file :: "'w api \<Rightarrow> exchange \<Rightarrow> string \<Rightarrow> string \<Rightarrow> string result list
     \<Rightarrow> ('w api_world, string \<times> int) io" where
  "upload_unit_file ap ex u name chunks = guarded ap SCOPE_CONTROL ex
     (io_bind (require_unit ap u ''files'') (\<lambda>x.
      io_bind (translating FilesBoundary (io_lift (resolve_name name))) (\<lambda>remote.
      io_bind (via_host (ap_mktemp ap ''rackphone-upload-'')) (\<lambda>path.
      io_bind (io_finally
          (io_bind (via_host (spool_body ap path 0 chunks)) (\<lambda>n.
           io_bind (translating FilesBoundary (via_host (store_file (ap_host ap) (ap_sha ap) u name path)))
             (\<lambda>y. io_ret n)))
          (via_host (ho_unlink (ap_host ap) path))) (\<lambda>n.
      io_bind (audit ex ''file_write'' [] u (''name='' @ name @ '' direction=upload'')) (\<lambda>y.
      io_ret (name, n)))))))"

text \<open>A download answers with the temporary file, which is removed after it was sent.\<close>

definition fetch_failure :: "exn \<Rightarrow> exn" where
  "fetch_failure e = (case e of
       FileNotFoundError m \<Rightarrow> HTTPException 404 ''file not found''
     | BoundaryError k d m \<Rightarrow> if k = FilesBoundary then translate_device_error e else e
     | _ \<Rightarrow> e)"

definition download_unit_file :: "'w api \<Rightarrow> exchange \<Rightarrow> string \<Rightarrow> string \<Rightarrow> ('w api_world, string \<times> string) io" where
  "download_unit_file ap ex u name = guarded ap SCOPE_CONTROL ex
     (io_bind (require_unit ap u ''files'') (\<lambda>x.
      io_bind (translating FilesBoundary (io_lift (resolve_name name))) (\<lambda>remote.
      io_bind (via_host (ap_mktemp ap ''rackphone-download-'')) (\<lambda>path.
      io_bind (io_catch (via_host (fetch_file (ap_host ap) (ap_sha ap) u name path))
        (\<lambda>e. io_bind (via_host (ho_unlink (ap_host ap) path)) (\<lambda>y. io_raise (fetch_failure e)))) (\<lambda>y.
      io_ret (path, name))))))"

definition delete_unit_file :: "'w api \<Rightarrow> exchange \<Rightarrow> string \<Rightarrow> string \<Rightarrow> ('w api_world, unit) io" where
  "delete_unit_file ap ex u name = guarded ap SCOPE_CONTROL ex
     (io_bind (require_unit ap u ''files'') (\<lambda>x.
      io_bind (io_catch (via_host (remove_file (ap_host ap) u name)) (\<lambda>e. io_raise (fetch_failure e))) (\<lambda>y.
      audit ex ''file_write'' [] u (''name='' @ name @ '' direction=remove''))))"

section \<open>Logging in and out\<close>

definition tokens_body :: "tokens \<Rightarrow> (string \<times> json) list" where
  "tokens_body t =
     [(''refresh_token'', JStr (tk_refresh t)), (''access_token'', JStr (tk_access t)),
      (''scope'', JStr (tk_scope t)), (''refresh_expires_at'', JInt (tk_refresh_expires t)),
      (''access_expires_at'', JInt (tk_access_expires t))]"

fun refusal_status :: "refusal_reason \<Rightarrow> int" where
  "refusal_status BadCredentials = 401"
| "refusal_status TotpRequired = 403"
| "refusal_status BadTotp = 403"
| "refusal_status Locked = 423"
| "refusal_status NotConfigured = 503"

definition retry_after :: "int option \<Rightarrow> int \<Rightarrow> int" where
  "retry_after locked_until now = max 0 ((case locked_until of Some t \<Rightarrow> t | None \<Rightarrow> 0) - now)"

definition login_refused :: "refusal_reason \<Rightarrow> int option \<Rightarrow> int \<Rightarrow> exn" where
  "login_refused reason locked_until now =
     (if reason = Locked
      then HTTPRetryAfter (refusal_status reason) (reason_value reason) (retry_after locked_until now)
      else HTTPException (refusal_status reason) (reason_value reason))"

definition log_in_route :: "'w api \<Rightarrow> exchange \<Rightarrow> login_body \<Rightarrow> ('w api_world, (string \<times> json) list) io" where
  "log_in_route ap ex b =
     (if lb_scope b \<notin> set KNOWN_SCOPES
      then io_raise (HTTPException 400 (''unknown scope '' @ py_repr (lb_scope b)))
      else io_bind (via_login (log_in (ap_login ap) (lb_username b) (lb_password b) (caller_ip ap ex)
           (lb_device_label b) (ex_now ex) (lb_totp_code b) (lb_recovery_code b) (lb_scope b) (ex_drawn ex)))
         (\<lambda>out. case out_tokens out of
              Some t \<Rightarrow> io_ret (tokens_body t)
            | None \<Rightarrow> (case out_reason out of
                None \<Rightarrow> io_raise (RuntimeError ''login outcome has neither tokens nor refusal reason'')
              | Some reason \<Rightarrow> io_raise (login_refused reason (out_locked_until out) (ex_now ex)))))"

definition refresh_route :: "'w api \<Rightarrow> exchange \<Rightarrow> string \<Rightarrow> ('w api_world, (string \<times> json) list) io" where
  "refresh_route ap ex refresh_token =
     io_bind (via_login (renew_login (ap_login ap) refresh_token (ex_now ex) (ex_drawn ex))) (\<lambda>out.
     case out_tokens out of
       None \<Rightarrow> io_raise (HTTPException 401 ''invalid refresh token'')
     | Some t \<Rightarrow> io_ret (tokens_body t))"

definition log_out_route :: "'w api \<Rightarrow> exchange \<Rightarrow> string \<Rightarrow> ('w api_world, unit) io" where
  "log_out_route ap ex refresh_token =
     io_bind (via_login (log_out (ap_login ap) refresh_token (ex_now ex))) (\<lambda>revoked. io_ret ())"

section \<open>Administration\<close>

definition read_sessions :: "'w api \<Rightarrow> exchange \<Rightarrow> ('w api_world, session list) io" where
  "read_sessions ap ex = guarded ap SCOPE_ADMIN ex (via_login (db_read list_refresh))"

definition revoke_session :: "'w api \<Rightarrow> exchange \<Rightarrow> int \<Rightarrow> ('w api_world, bool) io" where
  "revoke_session ap ex token_id = guarded ap SCOPE_ADMIN ex
     (via_login (db_update (revoke_refresh token_id (ex_now ex))))"

definition revoke_all_sessions :: "'w api \<Rightarrow> exchange \<Rightarrow> ('w api_world, int) io" where
  "revoke_all_sessions ap ex = guarded ap SCOPE_ADMIN ex (via_login (log_out_everywhere (ex_now ex)))"

definition read_audit :: "'w api \<Rightarrow> exchange \<Rightarrow> int option \<Rightarrow> int \<Rightarrow> ('w api_world, audit_row list) io" where
  "read_audit ap ex since limit = guarded ap SCOPE_ADMIN ex (via_login (db_read (query_audit since limit)))"

definition step_up_refused :: "login_outcome \<Rightarrow> int \<Rightarrow> exn" where
  "step_up_refused refusal now =
     (let reason = (case out_reason refusal of Some r \<Rightarrow> reason_value r | None \<Rightarrow> [])
      in if out_reason refusal = Some Locked
         then HTTPRetryAfter 423 reason (retry_after (out_locked_until refusal) now)
         else if out_reason refusal = Some NotConfigured then HTTPException 503 reason
         else HTTPException 403 reason)"

definition step_up :: "'w api \<Rightarrow> exchange \<Rightarrow> password_body \<Rightarrow> ('w api_world, unit) io" where
  "step_up ap ex b =
     io_bind (live_session ap (ex_authorization ex) SCOPE_ADMIN (ex_now ex)) (\<lambda>(label, refresh_id).
     io_bind (via_login (reauthenticate (ap_login ap) (pb_password b) (caller_ip ap ex) (ex_now ex)
       (pb_totp_code b) (pb_recovery_code b))) (\<lambda>refusal.
     case refusal of None \<Rightarrow> io_ret () | Some r \<Rightarrow> io_raise (step_up_refused r (ex_now ex))))"

definition enable_totp_route :: "'w api \<Rightarrow> exchange \<Rightarrow> password_body
     \<Rightarrow> ('w api_world, string \<times> string list) io" where
  "enable_totp_route ap ex b = guarded ap SCOPE_ADMIN ex
     (io_bind (step_up ap ex b) (\<lambda>x.
      via_login (enable_second_factor (ap_login ap) (ex_drawn ex) (ex_codes ex) (ex_now ex))))"

definition disable_totp_route :: "'w api \<Rightarrow> exchange \<Rightarrow> password_body \<Rightarrow> ('w api_world, unit) io" where
  "disable_totp_route ap ex b = guarded ap SCOPE_ADMIN ex
     (io_bind (step_up ap ex b) (\<lambda>x. via_login (disable_second_factor (ex_now ex))))"

section \<open>Events\<close>

definition read_events :: "'w api \<Rightarrow> exchange \<Rightarrow> string option \<Rightarrow> string option \<Rightarrow> int option \<Rightarrow> int
     \<Rightarrow> ('w api_world, event_row list) io" where
  "read_events ap ex kind u since limit = guarded ap SCOPE_READ ex (permitted_rows ap kind u since limit)"

definition read_messages :: "'w api \<Rightarrow> exchange \<Rightarrow> string option \<Rightarrow> int option \<Rightarrow> int
     \<Rightarrow> ('w api_world, event_row list) io" where
  "read_messages ap ex u since limit = guarded ap SCOPE_READ ex (permitted_rows ap (Some KIND_SMS) u since limit)"

definition read_calls :: "'w api \<Rightarrow> exchange \<Rightarrow> string option \<Rightarrow> int option \<Rightarrow> int
     \<Rightarrow> ('w api_world, event_row list) io" where
  "read_calls ap ex u since limit = guarded ap SCOPE_READ ex (permitted_rows ap (Some KIND_CALL) u since limit)"

section \<open>Messages and calls\<close>

definition sent_to :: "(string \<times> json) list \<Rightarrow> string \<Rightarrow> string" where
  "sent_to answer dest =
     (let v = obj_get ''to'' answer in if json_truthy v then json_str v else dest)"

definition queued_at :: "(string \<times> json) list \<Rightarrow> int \<Rightarrow> int" where
  "queued_at answer millis = (case as_int (obj_get ''ts'' answer) of Some n \<Rightarrow> n | None \<Rightarrow> millis)"

definition sent_sub :: "(string \<times> json) list \<Rightarrow> json option" where
  "sent_sub answer =
     (let v = obj_get ''sub_id'' answer in if as_int v = None then None else Some v)"

text \<open>The guard of a send is \<open>require_unit\<close> written out in the handler.\<close>

definition send_message :: "'w api \<Rightarrow> exchange \<Rightarrow> send_body
     \<Rightarrow> ('w api_world, (string \<times> json) list \<times> event_row) io" where
  "send_message ap ex b = guarded ap SCOPE_CONTROL ex
     (io_bind (require_unit ap (sb_unit b) ''sms'') (\<lambda>x.
      io_bind (translating SendBoundary (via_host (send_sms (ap_host ap) (sb_unit b) (sb_to b) (sb_body b)
        DEFAULT_SEND_TIMEOUT_SECONDS (sb_sim b)))) (\<lambda>answer.
      io_bind (audit ex ''send_sms'' [] (sb_unit b) (''to='' @ sb_to b)) (\<lambda>y.
      io_bind (on_events (add_sent (ex_now ex) (sb_unit b) (sent_to answer (sb_to b)) (sb_body b)
        (queued_at answer (ex_millis ex)) (sent_sub answer))) (\<lambda>event.
      io_ret (answer, event))))))"

text \<open>The handlers of one call action: the unit, the action, and its line of the log.\<close>

definition call_route :: "'w api \<Rightarrow> exchange \<Rightarrow> string \<Rightarrow> ('w, (string \<times> json) list) io \<Rightarrow> string \<Rightarrow> string
     \<Rightarrow> ('w api_world, (string \<times> json) list) io" where
  "call_route ap ex u m action detail = guarded ap SCOPE_CONTROL ex
     (io_bind (require_unit ap u ''calls'') (\<lambda>x.
      io_bind (translating CallBoundary (via_host m)) (\<lambda>outcome.
      io_bind (audit ex action [] u detail) (\<lambda>y. io_ret outcome))))"

definition answer_unit_call :: "'w api \<Rightarrow> exchange \<Rightarrow> string \<Rightarrow> ('w api_world, (string \<times> json) list) io" where
  "answer_unit_call ap ex u =
     call_route ap ex u (answer_call (ap_host ap) u DEFAULT_CALL_TIMEOUT_SECONDS) ''answer_call'' []"

definition reject_unit_call :: "'w api \<Rightarrow> exchange \<Rightarrow> string \<Rightarrow> ('w api_world, (string \<times> json) list) io" where
  "reject_unit_call ap ex u =
     call_route ap ex u (reject_call (ap_host ap) u DEFAULT_CALL_TIMEOUT_SECONDS) ''reject_call'' []"

definition dial_unit_call :: "'w api \<Rightarrow> exchange \<Rightarrow> string \<Rightarrow> dial_body
     \<Rightarrow> ('w api_world, (string \<times> json) list) io" where
  "dial_unit_call ap ex u b =
     call_route ap ex u (dial_call (ap_host ap) u (dl_to b) DEFAULT_CALL_TIMEOUT_SECONDS (dl_sim b))
       ''dial_call'' (''to='' @ dl_to b)"

definition end_unit_call :: "'w api \<Rightarrow> exchange \<Rightarrow> string \<Rightarrow> ('w api_world, (string \<times> json) list) io" where
  "end_unit_call ap ex u =
     call_route ap ex u (end_call (ap_host ap) u DEFAULT_CALL_TIMEOUT_SECONDS) ''end_call'' []"

definition dtmf_unit_call :: "'w api \<Rightarrow> exchange \<Rightarrow> string \<Rightarrow> string
     \<Rightarrow> ('w api_world, (string \<times> json) list) io" where
  "dtmf_unit_call ap ex u digits = guarded ap SCOPE_CONTROL ex
     (io_bind (require_unit ap u ''calls'') (\<lambda>x.
      translating CallBoundary (via_host (send_dtmf (ap_host ap) u digits DEFAULT_CALL_TIMEOUT_SECONDS))))"

section \<open>The application\<close>

text \<open>The HTTP routes; the two relays are WebSockets and are \<open>hold_relay\<close>.\<close>

datatype request =
    GetHealth
  | GetUnits
  | GetStats
  | AcquireScreen string
  | TakeOverScreen string
  | HeartbeatScreen string
  | ReleaseScreen string
  | GetScreen string
  | GetContacts string bool
  | GetSims string
  | GetTelemetry string
  | GetFiles string
  | UploadFile string string "string result list"
  | DownloadFile string string
  | DeleteFile string string
  | PostLogin login_body
  | PostRefresh string
  | PostLogout string
  | GetSessions
  | RevokeSession int
  | RevokeAll
  | GetAudit "int option" int
  | EnableTotpOf password_body
  | DisableTotpOf password_body
  | GetEvents "string option" "string option" "int option" int
  | GetMessages "string option" "int option" int
  | GetCalls "string option" "int option" int
  | PostMessage send_body
  | AnswerCall string
  | RejectCall string
  | DialCall string dial_body
  | EndCall string
  | PressKeys string string
  | GetStream

datatype reply =
    Health "(string \<times> string) list"
  | UnitSummaries "unit_summary list"
  | Stats stats_report
  | ScreenSession screen_session
  | MaybeScreen "screen_session option"
  | Contacts "contact list"
  | SimList "json \<times> sim_entry list"
  | Telemetry telemetry
  | FileRows "file_row list"
  | Uploaded "string \<times> int"
  | FileResponse "string \<times> string"
  | Members "(string \<times> json) list"
  | Sessions "session list"
  | Revoked bool
  | RevokedCount int
  | AuditRows "audit_row list"
  | TotpEnrolment "string \<times> string list"
  | EventRows "event_row list"
  | SentMessage "(string \<times> json) list \<times> event_row"
  | Streaming "int option \<times> int"
  | NoContent

definition replying :: "('a \<Rightarrow> reply) \<Rightarrow> ('w, 'a) io \<Rightarrow> ('w, reply) io" where
  "replying f m = io_bind m (\<lambda>x. io_ret (f x))"

fun serve :: "'w api \<Rightarrow> exchange \<Rightarrow> request \<Rightarrow> ('w api_world, reply) io" where
  "serve ap ex GetHealth = replying Health read_health"
| "serve ap ex GetUnits = replying UnitSummaries (read_units ap ex)"
| "serve ap ex GetStats = replying Stats (read_stats ap ex)"
| "serve ap ex (AcquireScreen u) = replying ScreenSession (acquire_screen_session ap ex u)"
| "serve ap ex (TakeOverScreen u) = replying ScreenSession (take_over_screen_session ap ex u)"
| "serve ap ex (HeartbeatScreen u) = replying (\<lambda>x. NoContent) (heartbeat_screen_session ap ex u)"
| "serve ap ex (ReleaseScreen u) = replying (\<lambda>x. NoContent) (release_screen_session ap ex u)"
| "serve ap ex (GetScreen u) = replying MaybeScreen (read_screen_session ap ex u)"
| "serve ap ex (GetContacts u refresh) = replying Contacts (read_unit_contacts ap ex u refresh)"
| "serve ap ex (GetSims u) = replying SimList (read_unit_sims ap ex u)"
| "serve ap ex (GetTelemetry u) = replying Telemetry (read_telemetry ap ex u)"
| "serve ap ex (GetFiles u) = replying FileRows (read_unit_files ap ex u)"
| "serve ap ex (UploadFile u name chunks) = replying Uploaded (upload_unit_file ap ex u name chunks)"
| "serve ap ex (DownloadFile u name) = replying FileResponse (download_unit_file ap ex u name)"
| "serve ap ex (DeleteFile u name) = replying (\<lambda>x. NoContent) (delete_unit_file ap ex u name)"
| "serve ap ex (PostLogin b) = replying Members (log_in_route ap ex b)"
| "serve ap ex (PostRefresh token) = replying Members (refresh_route ap ex token)"
| "serve ap ex (PostLogout token) = replying (\<lambda>x. NoContent) (log_out_route ap ex token)"
| "serve ap ex GetSessions = replying Sessions (read_sessions ap ex)"
| "serve ap ex (RevokeSession i) = replying Revoked (revoke_session ap ex i)"
| "serve ap ex RevokeAll = replying RevokedCount (revoke_all_sessions ap ex)"
| "serve ap ex (GetAudit since limit) = replying AuditRows (read_audit ap ex since limit)"
| "serve ap ex (EnableTotpOf b) = replying TotpEnrolment (enable_totp_route ap ex b)"
| "serve ap ex (DisableTotpOf b) = replying (\<lambda>x. NoContent) (disable_totp_route ap ex b)"
| "serve ap ex (GetEvents kind u since limit) = replying EventRows (read_events ap ex kind u since limit)"
| "serve ap ex (GetMessages u since limit) = replying EventRows (read_messages ap ex u since limit)"
| "serve ap ex (GetCalls u since limit) = replying EventRows (read_calls ap ex u since limit)"
| "serve ap ex (PostMessage b) = replying SentMessage (send_message ap ex b)"
| "serve ap ex (AnswerCall u) = replying Members (answer_unit_call ap ex u)"
| "serve ap ex (RejectCall u) = replying Members (reject_unit_call ap ex u)"
| "serve ap ex (DialCall u b) = replying Members (dial_unit_call ap ex u b)"
| "serve ap ex (EndCall u) = replying Members (end_unit_call ap ex u)"
| "serve ap ex (PressKeys u digits) = replying Members (dtmf_unit_call ap ex u digits)"
| "serve ap ex GetStream =
     replying Streaming (guarded ap SCOPE_READ ex (stream_events ap (ex_authorization ex) (ex_now ex)))"

text \<open>A sequence of requests, each with its own exchange, whatever the others answered.\<close>

definition serve_all :: "'w api \<Rightarrow> (exchange \<times> request) list \<Rightarrow> 'w api_world \<Rightarrow> 'w api_world" where
  "serve_all ap = fold (\<lambda>(ex, rq) w. snd (serve ap ex rq w))"

end
