(* ===== verification/Gateway.thy ===== *)
theory Gateway
  imports Routes
begin

text \<open>
  The application as a whole: what a request leaves alone (\<open>spares\<close>), the steps it takes the two
  databases through (\<open>moves\<close>), and the properties of \<open>serve\<close> over single requests and over sequences
  of them: scopes, capabilities, sessions, the action log and the temporary files of transfers.
\<close>

section \<open>What a request leaves alone\<close>

text \<open>\<open>spares g m\<close>: whatever happens in \<open>m\<close>, the part \<open>g\<close> of the world is as it was.\<close>

named_theorems frame \<open>the parts of the world an operation leaves alone\<close>

definition spares :: "('w \<Rightarrow> 'p) \<Rightarrow> ('w, 'a) io \<Rightarrow> bool" where
  "spares g m \<longleftrightarrow> (\<forall>w. g (snd (m w)) = g w)"

lemma sparesD: "spares g m \<Longrightarrow> m w = (r, w') \<Longrightarrow> g w' = g w"
  by (metis snd_conv spares_def)

lemma spares_ret [frame]: "spares g (io_ret x)"
  and spares_raise [frame]: "spares g (io_raise e)"
  and spares_lift [frame]: "spares g (io_lift r)"
  and spares_read [frame]: "spares g (io_read f)"
  by (simp_all add: spares_def)

lemma spares_bind [frame]: "spares g m \<Longrightarrow> (\<And>x. spares g (f x)) \<Longrightarrow> spares g (io_bind m f)"
  by (auto simp: spares_def snd_io_bind split: sum.splits)

lemma spares_catch [frame]: "spares g m \<Longrightarrow> (\<And>e. spares g (f e)) \<Longrightarrow> spares g (io_catch m f)"
  by (auto simp: spares_def snd_io_catch split: sum.splits)

lemma spares_finally [frame]: "spares g m \<Longrightarrow> spares g c \<Longrightarrow> spares g (io_finally m c)"
  by (simp add: spares_def snd_io_finally)

lemma spares_if [frame]: "(c \<Longrightarrow> spares g a) \<Longrightarrow> (\<not> c \<Longrightarrow> spares g b) \<Longrightarrow> spares g (if c then a else b)"
  by simp

lemma spares_option [frame]:
  "(x = None \<Longrightarrow> spares g a) \<Longrightarrow> (\<And>y. x = Some y \<Longrightarrow> spares g (f y)) \<Longrightarrow>
     spares g (case x of None \<Rightarrow> a | Some y \<Rightarrow> f y)"
  by (cases x) auto

lemma spares_prod [frame]: "(\<And>a b. p = (a, b) \<Longrightarrow> spares g (f a b)) \<Longrightarrow> spares g (case p of (a, b) \<Rightarrow> f a b)"
  by (cases p) auto

lemma spares_translating [frame]: "spares g m \<Longrightarrow> spares g (translating k m)"
  unfolding translating_def by (intro frame)

lemma spares_replying [frame]: "spares g m \<Longrightarrow> spares g (replying f m)"
  unfolding replying_def by (intro frame)

lemma spares_guarded [frame]: "spares g m \<Longrightarrow> spares g (guarded ap sc ex m)"
  unfolding guarded_def by (intro frame)

lemma spares_db_read [frame]: "spares g (via_login (db_read f))"
  by (simp add: spares_def via_login_def)

text \<open>A part that does not show the host is spared by whatever happens there, and so on.\<close>

definition hostless :: "('w api_world \<Rightarrow> 'p) \<Rightarrow> bool" where
  "hostless g \<longleftrightarrow> (\<forall>w v. g (w\<lparr>aw_host := v\<rparr>) = g w)"

lemma spares_via_host [frame]: "hostless g \<Longrightarrow> spares g (via_host m)"
  by (simp add: spares_def via_host_def hostless_def split: prod.splits)

lemma spares_require_unit [frame]: "hostless g \<Longrightarrow> spares g (require_unit ap u c)"
  unfolding require_unit_def by (intro frame)

lemma spares_live_session [frame]: "spares g (live_session ap a sc now)"
  unfolding live_session_def Let_def by (intro frame)

lemma spares_as_holder [frame]: "(\<And>h. spares g (f h)) \<Longrightarrow> spares g (as_holder ap ex f)"
  unfolding as_holder_def control_holder_def control_session_def by (intro frame)

lemma spares_permitted_rows [frame]: "spares g (permitted_rows ap kind u since limit)"
  unfolding permitted_rows_def Let_def by (intro frame)

lemma spares_stream_events [frame]: "spares g (stream_events ap a now)"
  unfolding stream_events_def Let_def by (intro frame)

text \<open>What the gateway keeps, the host and the address-book cache apart.\<close>

definition records :: "'w api_world \<Rightarrow> login_world \<times> event_db \<times> session_tables \<times> session_tables" where
  "records w = (aw_login w, aw_events w, aw_screen w, aw_voice w)"

lemma hostless_parts [frame]:
  "hostless records" "hostless aw_login" "hostless aw_events" "hostless aw_screen" "hostless aw_voice"
  by (simp_all add: hostless_def records_def)

lemma spares_on_book [frame]: "spares records (on_book m)" "spares aw_login (on_book m)" "spares aw_events (on_book m)"
  by (simp_all add: spares_def on_book_def records_def split: prod.splits)

lemma spares_on_manager [frame]: "spares aw_login (on_manager v m)" "spares aw_events (on_manager v m)"
  by (simp_all add: spares_def on_manager_def split: prod.splits)

lemma spares_audit [frame]: "spares aw_events (audit ex a b c d)" "spares aw_screen (audit ex a b c d)"
  by (simp_all add: spares_def audit_def via_login_def split: prod.splits)

section \<open>Which requests need which scope\<close>

fun route_scope :: "request \<Rightarrow> string option" where
  "route_scope GetHealth = None"
| "route_scope (PostLogin b) = None"
| "route_scope (PostRefresh token) = None"
| "route_scope (PostLogout token) = None"
| "route_scope GetUnits = Some SCOPE_READ"
| "route_scope GetStats = Some SCOPE_READ"
| "route_scope (GetContacts u refresh) = Some SCOPE_READ"
| "route_scope (GetSims u) = Some SCOPE_READ"
| "route_scope (GetTelemetry u) = Some SCOPE_READ"
| "route_scope (GetEvents kind u since limit) = Some SCOPE_READ"
| "route_scope (GetMessages u since limit) = Some SCOPE_READ"
| "route_scope (GetCalls u since limit) = Some SCOPE_READ"
| "route_scope GetStream = Some SCOPE_READ"
| "route_scope GetSessions = Some SCOPE_ADMIN"
| "route_scope (RevokeSession i) = Some SCOPE_ADMIN"
| "route_scope RevokeAll = Some SCOPE_ADMIN"
| "route_scope (GetAudit since limit) = Some SCOPE_ADMIN"
| "route_scope (EnableTotpOf b) = Some SCOPE_ADMIN"
| "route_scope (DisableTotpOf b) = Some SCOPE_ADMIN"
| "route_scope rq = Some SCOPE_CONTROL"

text \<open>The caller's token carries no more than a scope below the one asked for.\<close>

definition lacks_scope :: "'w api \<Rightarrow> exchange \<Rightarrow> string \<Rightarrow> bool" where
  "lacks_scope ap ex sc \<longleftrightarrow>
     authorise (ap_login ap) (bearer_token (ex_authorization ex)) (ex_now ex) sc = None \<and>
     legacy_token ap (bearer_token (ex_authorization ex)) = Inr False"

lemma authorise_lower: "authorise ls t now SCOPE_ADMIN = Some c \<Longrightarrow> authorise ls t now SCOPE_CONTROL = Some c"
  using scope_allows_trans by (fastforce simp: authorise_def split: option.splits if_splits)

lemma lacks_admin: "lacks_scope ap ex SCOPE_CONTROL \<Longrightarrow> lacks_scope ap ex SCOPE_ADMIN"
  unfolding lacks_scope_def using authorise_lower by (metis not_None_eq)

lemma guarded_refused: "lacks_scope ap ex sc \<Longrightarrow> guarded ap sc ex m = io_raise unauthorised"
  by (simp add: guarded_def require_scope_def lacks_scope_def Let_def io_bind_def io_raise_def)

lemma as_holder_refused: "lacks_scope ap ex SCOPE_CONTROL \<Longrightarrow> as_holder ap ex f = io_raise unauthorised"
  by (simp add: as_holder_def control_holder_def control_session_def live_session_def lacks_scope_def Let_def
      io_bind_def io_raise_def)

lemmas route_defs = read_health_def read_units_def read_stats_def acquire_screen_session_def
  take_over_screen_session_def heartbeat_screen_session_def release_screen_session_def read_screen_session_def
  read_unit_contacts_def read_unit_sims_def read_telemetry_def read_unit_files_def upload_unit_file_def
  download_unit_file_def delete_unit_file_def read_sessions_def revoke_session_def revoke_all_sessions_def
  read_audit_def enable_totp_route_def disable_totp_route_def read_events_def read_messages_def read_calls_def
  send_message_def call_route_def answer_unit_call_def reject_unit_call_def dial_unit_call_def end_unit_call_def
  dtmf_unit_call_def

lemma serve_refused:
  "route_scope rq = Some sc \<Longrightarrow> lacks_scope ap ex sc \<Longrightarrow> serve ap ex rq w = (Inl unauthorised, w)"
  by (cases rq) (auto simp: route_defs guarded_refused as_holder_refused replying_def)

lemma read_routes_spare:
  "route_scope rq = Some SCOPE_READ \<Longrightarrow> spares records (serve ap ex rq)"
  by (cases rq) (auto simp: route_defs scope_defs intro!: frame)

section \<open>Sequences of requests\<close>

lemma serve_all_Nil [simp]: "serve_all ap [] w = w"
  by (simp add: serve_all_def)

lemma serve_all_Cons [simp]: "serve_all ap ((ex, rq) # rqs) w = serve_all ap rqs (snd (serve ap ex rq w))"
  by (simp add: serve_all_def)

lemma serve_all_append: "serve_all ap (xs @ ys) w = serve_all ap ys (serve_all ap xs w)"
  by (simp add: serve_all_def)

text \<open>What every request with a property keeps, a sequence of them keeps.\<close>

lemma serve_all_keeps:
  assumes "\<And>ex rq w. Q w \<Longrightarrow> P ex rq \<Longrightarrow> Q (snd (serve ap ex rq w))"
  shows "Q w \<Longrightarrow> list_all (\<lambda>(ex, rq). P ex rq) rqs \<Longrightarrow> Q (serve_all ap rqs w)"
proof (induction rqs arbitrary: w)
  case (Cons q rqs)
  then show ?case using assms by (cases q) simp
qed simp

section \<open>The two databases under requests\<close>

text \<open>
  \<open>moves R p m\<close>: whatever happens in \<open>m\<close>, the part \<open>p\<close> of the world goes through steps of \<open>R\<close>. A request
  moves the login tables by the operations of their module and the event table by those of its own,
  so what holds over every run of these holds over every sequence of requests.
\<close>

definition moves :: "('p \<Rightarrow> 'p \<Rightarrow> bool) \<Rightarrow> ('w \<Rightarrow> 'p) \<Rightarrow> ('w, 'a) io \<Rightarrow> bool" where
  "moves R p m \<longleftrightarrow> (\<forall>w. R\<^sup>*\<^sup>* (p w) (p (snd (m w))))"

named_theorems motion \<open>effects on a part of the world as steps of a relation\<close>

lemma moves_bind [motion]: "moves R p m \<Longrightarrow> (\<And>x. moves R p (f x)) \<Longrightarrow> moves R p (io_bind m f)"
  by (auto simp: moves_def snd_io_bind split: sum.splits intro: rtranclp_trans)

lemma moves_branch [motion]:
  "(c \<Longrightarrow> moves R p a) \<Longrightarrow> (\<not> c \<Longrightarrow> moves R p b) \<Longrightarrow> moves R p (if c then a else b)"
  "(x = None \<Longrightarrow> moves R p a) \<Longrightarrow> (\<And>y. x = Some y \<Longrightarrow> moves R p (f y)) \<Longrightarrow>
     moves R p (case x of None \<Rightarrow> a | Some y \<Rightarrow> f y)"
  "(\<And>i j. q = (i, j) \<Longrightarrow> moves R p (g i j)) \<Longrightarrow> moves R p (case q of (i, j) \<Rightarrow> g i j)"
  by (auto split: option.splits prod.splits)

lemma moves_guarded [motion]: "moves R p m \<Longrightarrow> moves R p (guarded ap sc ex m)"
  unfolding guarded_def by (rule moves_bind) (simp_all add: moves_def)

lemma moves_replying [motion]: "moves R p m \<Longrightarrow> moves R p (replying f m)"
  unfolding replying_def by (rule moves_bind) (simp_all add: moves_def)

lemma moves_still: "spares p m \<Longrightarrow> moves R p m"
  by (simp add: moves_def spares_def)

lemma moves_as_holder [motion]: "(\<And>h. moves R p (f h)) \<Longrightarrow> moves R p (as_holder ap ex f)"
  unfolding as_holder_def by (rule moves_bind, rule moves_still) (auto simp: control_holder_def control_session_def intro!: frame)

lemma moves_one: "(\<And>w. R (p w) (p (snd (m w)))) \<Longrightarrow> moves R p m"
  by (auto simp: moves_def)

definition auth_step :: "auth_db \<Rightarrow> auth_db \<Rightarrow> bool" where
  "auth_step s s' \<longleftrightarrow> (\<exists>op. s' = auth_apply op s)"

lemma auth_step_run: "auth_step\<^sup>*\<^sup>* s s' \<Longrightarrow> \<exists>ops. s' = auth_run ops s"
proof (induction rule: rtranclp_induct)
  case base
  show ?case by (rule exI [of _ "[]"]) (simp add: auth_run_def)
next
  case (step s' s'')
  then obtain ops op where "s'' = auth_run (ops @ [op]) s" by (auto simp: auth_step_def auth_run_def)
  then show ?case ..
qed

lemma spares_db [frame]: "spares g (db_read f)" "spares lw_db (send_alert ls a b)"
  by (simp_all add: spares_def send_alert_def)

lemma table_write: "(\<And>s. g s = auth_apply op s) \<Longrightarrow> moves auth_step lw_db (db_write g)"
  by (rule moves_one) (auto simp: auth_step_def)

lemma table_update: "(\<And>s. snd (f s) = auth_apply op s) \<Longrightarrow> moves auth_step lw_db (db_update f)"
  by (rule moves_one) (auto simp: auth_step_def db_update_def case_prod_unfold)

lemma table_try: "(\<And>s. keep_on_error s (rbind (f s) (\<lambda>p. Inr (snd p))) = auth_apply op s) \<Longrightarrow> moves auth_step lw_db (db_try f)"
proof (rule moves_one)
  fix w :: login_world
  assume "\<And>s. keep_on_error s (rbind (f s) (\<lambda>p. Inr (snd p))) = auth_apply op s"
  from this [of "lw_db w", symmetric] show "auth_step (lw_db w) (lw_db (snd (db_try f w)))"
    unfolding auth_step_def
    by (intro exI [of _ op]) (simp add: db_try_def keep_on_error_def split: sum.splits prod.splits)
qed

lemmas table_writes [motion] =
  table_write [OF auth_apply.simps(4) [symmetric]] table_write [OF auth_apply.simps(11) [symmetric]]
  table_write [OF auth_apply.simps(12) [symmetric]] table_write [OF auth_apply.simps(13) [symmetric]]
  table_write [OF auth_apply.simps(14) [symmetric]] table_update [OF auth_apply.simps(5) [symmetric]]
  table_update [OF auth_apply.simps(7) [symmetric]] table_update [OF auth_apply.simps(9) [symmetric]]
  table_update [OF auth_apply.simps(10) [symmetric]] table_try [OF auth_apply.simps(6) [symmetric]]
  table_try [OF auth_apply.simps(8) [symmetric]]

lemma table_failure [motion]: "moves auth_step lw_db (record_failure ls u ip now reason)"
  unfolding record_failure_def lock_ip_def lock_account_def Let_def by (assumption | rule motion | rule moves_still | rule frame)+

lemma table_check [motion]: "moves auth_step lw_db (check_credentials ls u pw ip now totp rc)"
  unfolding check_credentials_def second_factor_def Let_def by (assumption | rule motion | rule moves_still | rule frame)+

lemma table_log_in [motion]: "moves auth_step lw_db (log_in ls u pw ip label now totp rc scope drawn)"
  unfolding log_in_def issue_session_def Let_def by (assumption | rule motion | rule moves_still | rule frame)+

lemma table_renew [motion]: "moves auth_step lw_db (renew_login ls t now drawn)"
  unfolding renew_login_def Let_def by (assumption | rule motion | rule moves_still | rule frame)+

lemma table_log_out [motion]: "moves auth_step lw_db (log_out ls t now)" "moves auth_step lw_db (log_out_everywhere now)"
  unfolding log_out_def log_out_everywhere_def by (assumption | rule motion | rule moves_still | rule frame)+

lemma table_enrol [motion]: "moves auth_step lw_db (db_try (\<lambda>s. rbind (enable_totp t hs s) (\<lambda>s'. Inr ((), s'))))"
  by (rule table_try [where op = "EnableTotp t hs"]) (simp add: keep_on_error_def rbind_def split: sum.splits)

lemma table_factors [motion]:
  "moves auth_step lw_db (enable_second_factor ls drawn draws now)" "moves auth_step lw_db (disable_second_factor now)"
  unfolding enable_second_factor_def disable_second_factor_def Let_def by (assumption | rule motion | rule moves_still | rule frame)+

text \<open>The same seen from a request.\<close>

definition tables :: "'w api_world \<Rightarrow> auth_db" where
  "tables w = lw_db (aw_login w)"

lemma spares_tables [frame]:
  "hostless tables" "spares tables (on_book m)" "spares tables (on_manager v m')" "spares tables (on_events f)"
  by (simp_all add: hostless_def spares_def on_book_def on_manager_def on_events_def tables_def split: prod.splits)

lemma table_via_login [motion]: "moves auth_step lw_db m \<Longrightarrow> moves auth_step tables (via_login m)"
  by (simp add: moves_def via_login_def tables_def case_prod_unfold)

lemma table_audit [motion]: "moves auth_step tables (audit ex a b c d)"
  unfolding audit_def by (rule motion)+

lemma table_step_up [motion]: "moves auth_step tables (step_up ap ex b)"
  unfolding step_up_def reauthenticate_def by (assumption | rule motion | rule moves_still | rule frame)+

lemma serve_tables: "moves auth_step tables (serve ap ex rq)"
  by (cases rq) (simp_all only: serve.simps route_defs log_in_route_def refresh_route_def log_out_route_def,
      (assumption | rule motion | rule moves_still | rule frame)+)

lemma step_events:
  "moves db_step aw_events (via_login m)" "moves db_step aw_events (on_book m')"
  "moves db_step aw_events (on_events (add_sent now u a body ts sub))"
  by (auto simp: moves_def via_login_def on_book_def on_events_def case_prod_unfold
      intro!: r_into_rtranclp step_sent [OF surjective_pairing])

lemma serve_events: "moves db_step aw_events (serve ap ex rq)"
  by (cases rq) (simp_all only: serve.simps route_defs log_in_route_def refresh_route_def log_out_route_def
      step_up_def, (assumption | rule motion | rule step_events | rule moves_still | rule frame)+)

lemma serve_all_moves:
  assumes "\<And>ex rq. moves R p (serve ap ex rq)"
  shows "R\<^sup>*\<^sup>* (p w) (p (serve_all ap rqs w))"
proof (induction rqs arbitrary: w)
  case (Cons q rqs)
  obtain ex rq where "q = (ex, rq)" by (cases q)
  moreover have "R\<^sup>*\<^sup>* (p w) (p (snd (serve ap ex rq w)))" using assms by (simp add: moves_def)
  ultimately show ?case using Cons [of "snd (serve ap ex rq w)"] by simp
qed simp

lemma steps_ok: "db_step\<^sup>*\<^sup>* db db' \<Longrightarrow> store_ok db \<Longrightarrow> store_ok db'"
  by (induction rule: rtranclp_induct) (auto intro: db_step_ok)

section \<open>What the action log records\<close>

text \<open>The requests the log has a line for, with its action and the unit it names.\<close>

fun logged :: "request \<Rightarrow> (string \<times> string) option" where
  "logged (AcquireScreen u) = Some (''session_acquire'', u)"
| "logged (TakeOverScreen u) = Some (''session_takeover'', u)"
| "logged (ReleaseScreen u) = Some (''session_release'', u)"
| "logged (UploadFile u name chunks) = Some (''file_write'', u)"
| "logged (DeleteFile u name) = Some (''file_write'', u)"
| "logged (PostMessage b) = Some (''send_sms'', sb_unit b)"
| "logged (AnswerCall u) = Some (''answer_call'', u)"
| "logged (RejectCall u) = Some (''reject_call'', u)"
| "logged (DialCall u b) = Some (''dial_call'', u)"
| "logged (EndCall u) = Some (''end_call'', u)"
| "logged RevokeAll = Some (''logout_everywhere'', [])"
| "logged rq = None"

definition log_of :: "'w api_world \<Rightarrow> audit_row list" where
  "log_of w = au_audit (tables w)"

definition logs :: "exchange \<Rightarrow> string \<times> string \<Rightarrow> ('w api_world, 'a) io \<Rightarrow> bool" where
  "logs ex line m \<longleftrightarrow> (\<forall>w x w'. m w = (Inr x, w') \<longrightarrow>
     (\<exists>row. log_of w' = log_of w @ [row] \<and> ad_action row = fst line \<and> ad_subject row = snd line \<and>
        ad_at row = ex_now ex))"

lemma log_frame [frame]:
  "hostless log_of" "spares log_of (on_book m)" "spares log_of (on_manager v m')" "spares log_of (on_events f)"
  by (simp_all add: hostless_def spares_def on_book_def on_manager_def on_events_def log_of_def tables_def
      case_prod_unfold)

lemma logs_after:
  assumes "spares log_of m" and "\<And>x. logs ex line (f x)"
  shows "logs ex line (io_bind m f)"
  unfolding logs_def
proof (intro allI impI)
  fix w y w'
  assume "io_bind m f w = (Inr y, w')"
  then obtain x w1 where m: "m w = (Inr x, w1)" and f: "f x w1 = (Inr y, w')" unfolding io_bind_Inr by blast
  have "log_of w1 = log_of w" by (rule sparesD [OF assms(1) m])
  with assms(2) f show "\<exists>row. log_of w' = log_of w @ [row] \<and> ad_action row = fst line \<and>
      ad_subject row = snd line \<and> ad_at row = ex_now ex"
    unfolding logs_def by metis
qed

lemma logs_before:
  assumes "logs ex line m" and "\<And>x. spares log_of (f x)"
  shows "logs ex line (io_bind m f)"
  unfolding logs_def
proof (intro allI impI)
  fix w y w'
  assume "io_bind m f w = (Inr y, w')"
  then obtain x w1 where m: "m w = (Inr x, w1)" and f: "f x w1 = (Inr y, w')" unfolding io_bind_Inr by blast
  have "log_of w' = log_of w1" by (rule sparesD [OF assms(2) f])
  with assms(1) m show "\<exists>row. log_of w' = log_of w @ [row] \<and> ad_action row = fst line \<and>
      ad_subject row = snd line \<and> ad_at row = ex_now ex"
    unfolding logs_def by metis
qed

lemma logs_audit: "logs ex (action, u) (audit ex action actor u detail)"
  by (auto simp: logs_def audit_def via_login_def log_of_def tables_def record_audit_def)

lemma logs_everywhere: "logs ex (''logout_everywhere'', []) (via_login (log_out_everywhere (ex_now ex)))"
  by (auto simp: logs_def via_login_def log_out_everywhere_def io_bind_app db_update_def revoke_all_def Let_def
      log_of_def tables_def record_audit_def)

lemma logs_guarded: "logs ex line m \<Longrightarrow> logs ex line (guarded ap sc ex m)"
  unfolding guarded_def by (rule logs_after) (rule frame)

lemma logs_as_holder: "(\<And>h. logs ex line (f h)) \<Longrightarrow> logs ex line (as_holder ap ex f)"
  unfolding as_holder_def
  by (rule logs_after) (auto simp: control_holder_def control_session_def intro!: frame)

lemma logs_replying: "logs ex line m \<Longrightarrow> logs ex line (replying f m)"
  unfolding replying_def by (rule logs_before) (assumption | rule frame)+

lemma serve_logs: "logged rq \<noteq> None \<Longrightarrow> logs ex (the (logged rq)) (serve ap ex rq)"
  by (cases rq) (simp_all only: serve.simps route_defs logged.simps option.sel simp_thms,
    (assumption | rule logs_replying | rule logs_guarded | rule logs_as_holder | rule logs_audit
      | rule logs_everywhere | (rule logs_before, rule logs_audit) | rule logs_after | rule frame)+)

text \<open>The requests that leave no line at all, whatever their outcome.\<close>

fun unlogged :: "request \<Rightarrow> bool" where
  "unlogged (PostLogin b) = False"
| "unlogged (PostRefresh token) = False"
| "unlogged (PostLogout token) = False"
| "unlogged (EnableTotpOf b) = False"
| "unlogged (DisableTotpOf b) = False"
| "unlogged rq \<longleftrightarrow> logged rq = None"

lemma spares_revoke [frame]: "spares log_of (via_login (db_update (revoke_refresh i now)))"
  by (simp add: spares_def via_login_def db_update_def revoke_refresh_def case_prod_unfold log_of_def tables_def Let_def)

lemma serve_unlogged: "unlogged rq \<Longrightarrow> spares log_of (serve ap ex rq)"
  by (cases rq) (simp_all only: serve.simps route_defs unlogged.simps logged.simps option.distinct,
    (assumption | rule frame)+)

section \<open>Properties\<close>

text \<open>A gateway on the loopback interface with a static token, and one request made to it.\<close>

definition local_api :: "string \<Rightarrow> unit api" where
  "local_api answer = sample_api\<lparr>ap_host := telephony_host answer,
     ap_config := sample_config\<lparr>gc_api_host := ''127.0.0.1'', gc_api_token := ''tok''\<rparr>\<rparr>"

definition call_with :: "string \<Rightarrow> exchange" where
  "call_with authorization = \<lparr>ex_authorization = authorization, ex_peer = ''10.0.0.9'', ex_forwarded = [],
     ex_now = 1000, ex_millis = 1000000, ex_tick = 5, ex_drawn = [], ex_codes = []\<rparr>"

lemma foreign: "verify_access_token mac key ''guess'' t = None" "verify_access_token mac key ''tok'' t = None"
  by code_simp+

lemma bearer [simp]: "bearer_token (ex_authorization (call_with ''Bearer guess'')) = ''guess''"
  "bearer_token (ex_authorization (call_with ''Bearer tok'')) = ''tok''"
  by code_simp+

lemma local_legacy:
  "legacy_token (local_api a) ''guess'' = Inr False" "legacy_token (local_api a) ''tok'' = Inr True"
proof -
  have "is_loopback ''127.0.0.1''" by code_simp
  then have l: "legacy_enabled (local_api a)" by (simp add: legacy_enabled_def local_api_def)
  have "compare_digest ''guess'' ''tok'' = Inr False" "compare_digest ''tok'' ''tok'' = Inr True" by code_simp+
  then show "legacy_token (local_api a) ''guess'' = Inr False" "legacy_token (local_api a) ''tok'' = Inr True"
    using l by (simp_all add: legacy_token_def local_api_def)
qed

lemma stranger: "lacks_scope (local_api a) (call_with ''Bearer guess'') sc"
  by (simp add: lacks_scope_def authorise_def foreign local_legacy)



lemma scope_ranks [simp]: "SCOPE_READ \<noteq> SCOPE_CONTROL" "SCOPE_READ \<noteq> SCOPE_ADMIN" "SCOPE_CONTROL \<noteq> SCOPE_ADMIN"
  by (simp_all add: scope_defs)

lemma route_scope_cases:
  "route_scope rq \<in> {None, Some SCOPE_READ, Some SCOPE_CONTROL, Some SCOPE_ADMIN}"
  by (cases rq) simp_all

lemma reader_keeps_records:
  assumes "lacks_scope ap ex SCOPE_CONTROL" and "route_scope rq \<noteq> None"
  shows "records (snd (serve ap ex rq w)) = records w"
proof -
  consider "route_scope rq = Some SCOPE_READ" | "route_scope rq = Some SCOPE_CONTROL"
    | "route_scope rq = Some SCOPE_ADMIN" using route_scope_cases [of rq] assms(2) by auto
  then show ?thesis
  proof cases
    case 1
    then show ?thesis using read_routes_spare by (auto simp: spares_def)
  qed (simp_all add: serve_refused assms lacks_admin)
qed



definition started :: "'w api_world \<Rightarrow> 'w api_world" where
  "started w = w\<lparr>aw_login := (aw_login w)\<lparr>lw_db := empty_auth\<rparr>, aw_events := []\<rparr>"

lemma started_tables [simp]: "tables (started w) = empty_auth" "aw_events (started w) = []"
  by (simp_all add: started_def tables_def)

lemma served_tables: "\<exists>ops. tables (serve_all ap rqs w) = auth_run ops (tables w)"
  by (rule auth_step_run) (rule serve_all_moves, rule serve_tables)

text \<open>
  C16. Whatever requests arrive, from whomever and in whatever order, the two databases of a gateway
  that started empty satisfy their invariants: session rows unique with one live row a family,
  event ids unique and increasing.
\<close>

theorem requests_keep_databases_ok:
  "auth_ok (tables (serve_all ap rqs (started w))) \<and> store_ok (aw_events (serve_all ap rqs (started w)))"
proof
  obtain ops where "tables (serve_all ap rqs (started w)) = auth_run ops empty_auth"
    using served_tables [of ap rqs "started w"] by auto
  then show "auth_ok (tables (serve_all ap rqs (started w)))" using auth_ok_run auth_ok_empty by simp
  have "store_ok []" by (simp add: store_ok_def)
  then show "store_ok (aw_events (serve_all ap rqs (started w)))"
    using steps_ok [OF serve_all_moves [OF serve_events, of "started w"]] by simp
qed

text \<open>
  C5. A device that was logged out stays out: once its session row is revoked, no requests that
  follow, from anyone, let its refresh token renew a session again.
\<close>

theorem revoked_token_never_renews:
  assumes "r \<in> set (au_refresh (tables (serve_all ap before (started w))))" and "rr_revoked r \<noteq> None"
    and "hash_token (ls_sha (ap_login ap)) token = rr_hash r"
  shows "fst (serve ap ex (PostRefresh token) (serve_all ap (before @ after) (started w))) =
    Inl (HTTPException 401 ''invalid refresh token'')"
proof -
  let ?w = "serve_all ap (before @ after) (started w)"
  obtain ops where ops: "tables (serve_all ap before (started w)) = auth_run ops empty_auth"
    using served_tables [of ap before "started w"] by auto
  obtain rest where rest: "tables ?w = auth_run (ops @ rest) empty_auth"
    using served_tables [of ap after "serve_all ap before (started w)"]
    by (auto simp: serve_all_append ops auth_run_append)
  obtain q where q: "q \<in> set (au_refresh (tables ?w))" "row_evolves r q"
    using run_evolves [OF auth_ok_from_empty assms(1) [unfolded ops], of rest] rest
    by (auto simp: auth_run_append)
  have "\<not> token_live (rr_hash q) (ex_now ex) (tables ?w)"
    using revoked_not_live [OF auth_ok_from_empty, of q "ops @ rest"] q assms(2) rest by (auto simp: row_evolves_def)
  then have "fst (resolve_refresh (rr_hash r) (ex_now ex) (tables ?w)) = None"
    using q by (simp add: row_evolves_def token_live_def resolve_refresh_def)
  then have "fst (renew_login (ap_login ap) token (ex_now ex) (ex_drawn ex) (aw_login ?w)) =
      Inr (refuse BadCredentials None)"
    by (simp add: renew_login_def Let_def assms(3) io_bind_app db_update_def tables_def case_prod_unfold)
  then show ?thesis
    by (simp add: refresh_route_def replying_def io_bind_app via_login_def case_prod_unfold split: prod.splits sum.splits)
qed

definition phone_login :: login_body where
  "phone_login = \<lparr>lb_username = ''admin'', lb_password = ''pw'', lb_device_label = ''phone'', lb_totp_code = None,
     lb_recovery_code = None, lb_scope = ''control''\<rparr>"

lemma call_fields [simp]: "ex_now (call_with a) = 1000" "ex_drawn (call_with a) = []" "ex_codes (call_with a) = []"
  "ex_millis (call_with a) = 1000000"
  by (simp_all add: call_with_def)

lemma phone_row:
  "au_refresh (tables (snd (serve (local_api a) (call_with []) (PostLogin phone_login) (started w)))) =
     [\<lparr>rr_id = 1, rr_hash = hash_token rev (generate_token []), rr_label = ''phone'', rr_scope = ''control'',
       rr_issued = 1000, rr_expires = 2593000, rr_seen = 1000, rr_revoked = None, rr_family = None\<rparr>]"
proof -
  let ?l = "aw_login (started w)"
  have db: "lw_db ?l = empty_auth" by (simp add: started_def)
  have ip: "caller_ip (local_api a) (call_with []) = ''10.0.0.9''" by (simp add: caller_ip_def client_ip_def call_with_def)
  have "check_credentials sample_service ''admin'' ''pw'' ''10.0.0.9'' 1000 None None ?l = (Inr None, ?l)"
    by (subst check_credentials_single_factor)
      (simp_all add: sample_admin sample_right db empty_auth_def active_lock_def totp_secret_def)
  then have "log_in sample_service ''admin'' ''pw'' ''10.0.0.9'' ''phone'' 1000 None None ''control'' [] ?l =
      issue_session sample_service ''admin'' ''10.0.0.9'' ''phone'' 1000 ''control'' [] ?l"
    by (simp add: log_in_def io_bind_app)
  moreover have "au_refresh (lw_db (snd (issue_session sample_service ''admin'' ''10.0.0.9'' ''phone'' 1000 ''control'' [] ?l))) =
     [\<lparr>rr_id = 1, rr_hash = hash_token rev (generate_token []), rr_label = ''phone'', rr_scope = ''control'',
       rr_issued = 1000, rr_expires = 2593000, rr_seen = 1000, rr_revoked = None, rr_family = None\<rparr>]"
    by (simp add: issue_session_def io_bind_app Let_def db empty_auth_def db_try_def
        record_attempt_def clear_lock_def issue_refresh_def insert_refresh_def fits64_def record_audit_def
        next_refresh_id_def sample_service_def sample_config_def list_refresh_def order_desc_def
        send_alert_def)
  moreover have "ap_login (local_api a) = sample_service" by (simp add: local_api_def sample_api_def)
  ultimately show ?thesis
    by (simp add: log_in_route_def ip phone_login_def KNOWN_SCOPES_def scope_defs tables_def
        replying_def snd_io_bind via_login_def case_prod_unfold split: sum.splits option.splits)
qed

lemma local_admits: "guarded (local_api a) sc (call_with ''Bearer tok'') m = m"
  by (simp add: guarded_def require_scope_def authorise_def foreign local_legacy io_bind_def io_lift_def)

lemma phone_revoked:
  "au_refresh (tables (serve_all (local_api a) [(call_with [], PostLogin phone_login),
      (call_with ''Bearer tok'', RevokeAll)] (started w))) =
     [\<lparr>rr_id = 1, rr_hash = hash_token rev (generate_token []), rr_label = ''phone'', rr_scope = ''control'',
       rr_issued = 1000, rr_expires = 2593000, rr_seen = 1000, rr_revoked = Some 1000, rr_family = None\<rparr>]"
proof -
  have rows: "au_refresh (tables (snd (serve (local_api a) (call_with ''Bearer tok'') RevokeAll v))) =
      revoke_rows (row_live 1000) 1000 (au_refresh (tables v))" for v
    by (simp add: revoke_all_sessions_def local_admits replying_def snd_io_bind via_login_def log_out_everywhere_def
        db_update_def revoke_all_def record_audit_def tables_def case_prod_unfold
        split: sum.splits)
  show ?thesis by (simp add: rows phone_row revoke_rows_def row_live_def del: serve.simps)
qed

theorem revoked_token_never_renews_witness:
  "fst (serve (local_api []) (call_with []) (PostRefresh (generate_token []))
     (serve_all (local_api []) ([(call_with [], PostLogin phone_login), (call_with ''Bearer tok'', RevokeAll)] @
       [(call_with ''Bearer tok'', GetStats)]) (started idle_world))) =
    Inl (HTTPException 401 ''invalid refresh token'')"
  by (rule revoked_token_never_renews [where r = "hd (au_refresh (tables (serve_all (local_api [])
       [(call_with [], PostLogin phone_login), (call_with ''Bearer tok'', RevokeAll)] (started idle_world))))"])
    (simp_all only: phone_revoked, simp_all add: local_api_def sample_api_def sample_service_def)


lemma revoked_rows_dead:
  "list_all (\<lambda>r. \<not> (rr_id r = i \<and> row_live t r))
     (revoke_rows (\<lambda>r. rr_id r = i \<and> rr_revoked r = None) now rows)"
  unfolding revoke_rows_def list.pred_map by (induction rows) (simp_all add: row_live_def)

text \<open>
  The log does not record every revocation, as its documentation says: revoking one session takes
  effect and leaves no line, and neither does a download.
\<close>

theorem single_revocation_unlogged:
  assumes "serve ap ex (RevokeSession i) w = (Inr (Revoked True), w')"
  shows "(\<exists>r \<in> set (au_refresh (tables w)). rr_id r = i \<and> rr_revoked r = None) \<and>
    live_refresh i t (tables w') = None \<and> log_of w' = log_of w \<and>
    log_of (snd (serve ap ex (DownloadFile u name) w)) = log_of w"
proof -
  have log: "log_of w' = log_of w" "log_of (snd (serve ap ex (DownloadFile u name) w)) = log_of w"
    using sparesD [OF serve_unlogged assms] serve_unlogged [of "DownloadFile u name" ap ex]
    by (simp_all add: spares_def)
  have eff: "fst (revoke_refresh i (ex_now ex) (tables w))" "tables w' = snd (revoke_refresh i (ex_now ex) (tables w))"
    using assms by (auto simp: revoke_session_def guarded_def replying_def io_bind_Inr via_login_def db_update_def
        tables_def case_prod_unfold split: sum.splits)
  have "filter (\<lambda>r. rr_id r = i \<and> rr_revoked r = None) (au_refresh (tables w)) \<noteq> []"
    using eff(1) by (auto simp: revoke_refresh_def Let_def)
  then have "\<exists>r \<in> set (au_refresh (tables w)). rr_id r = i \<and> rr_revoked r = None"
    by (auto simp: filter_empty_conv)
  moreover have "live_refresh i t (tables w') = None"
  proof -
    have "au_refresh (tables w') = revoke_rows (\<lambda>r. rr_id r = i \<and> rr_revoked r = None) (ex_now ex)
        (au_refresh (tables w))"
      by (simp add: eff(2) revoke_refresh_def Let_def)
    then have "list_all (\<lambda>r. \<not> (rr_id r = i \<and> row_live t r)) (au_refresh (tables w'))"
      using revoked_rows_dead by simp
    then show ?thesis by (simp add: live_refresh_def find_None_iff list_all_iff)
  qed
  ultimately show ?thesis using log by simp
qed

lemma revoke_all_served:
  "\<exists>n w'. serve (local_api a) (call_with ''Bearer tok'') RevokeAll w = (Inr (RevokedCount n), w')"
  by (simp add: revoke_all_sessions_def local_admits replying_def io_bind_app via_login_def log_out_everywhere_def
      db_update_def case_prod_unfold)


theorem single_revocation_unlogged_witness:
  "\<exists>w w'. serve (local_api []) (call_with ''Bearer tok'') (RevokeSession 1) w = (Inr (Revoked True), w') \<and>
     log_of w' = log_of w"
proof -
  define w :: "unit api_world" where "w = snd (serve (local_api []) (call_with []) (PostLogin phone_login) (started idle_world))"
  have "fst (revoke_refresh 1 1000 (tables w))"
    unfolding w_def by (simp add: revoke_refresh_def phone_row Let_def del: serve.simps)
  then obtain w' where r: "serve (local_api []) (call_with ''Bearer tok'') (RevokeSession 1) w = (Inr (Revoked True), w')"
    by (simp add: revoke_session_def local_admits replying_def io_bind_app via_login_def db_update_def tables_def
        case_prod_unfold)
  then show ?thesis using single_revocation_unlogged [OF r] by blast
qed

fun row_query :: "request \<Rightarrow> (string option \<times> string option \<times> int option \<times> int) option" where
  "row_query (GetEvents kind u since limit) = Some (kind, u, since, limit)"
| "row_query (GetMessages u since limit) = Some (Some KIND_SMS, u, since, limit)"
| "row_query (GetCalls u since limit) = Some (Some KIND_CALL, u, since, limit)"
| "row_query rq = None"

lemma listing_rows:
  assumes "row_query rq = Some (kind, u, since, limit)" and "serve ap ex rq w = (Inr (EventRows rows), w')"
  shows "rows = filter (row_permitted (ap_config ap)) (query_events kind u since limit (aw_events w)) \<and> w' = w"
proof -
  have q: "permitted_rows ap kind u since limit w = (Inr rows, w') \<Longrightarrow> ?thesis"
    by (auto simp: permitted_rows_def readable_rows_def Let_def split: if_splits)
  have "guarded ap SCOPE_READ ex (permitted_rows ap kind u since limit) w = (Inr rows, w')"
    using assms by (cases rq) (auto simp: read_events_def read_messages_def read_calls_def replying_def io_bind_Inr)
  then show ?thesis using q by (auto simp: guarded_def io_bind_Inr)
qed

text \<open>
  A listing shows only stored rows that the configuration permits and the query asked for, newest
  first and at most \<open>MAX_QUERY_LIMIT\<close> of them, and reading changes nothing.
\<close>

theorem listings_permitted:
  assumes "row_query rq = Some (kind, u, since, limit)" and "serve ap ex rq w = (Inr (EventRows rows), w')"
  shows "list_all (\<lambda>r. row_permitted (ap_config ap) r \<and> row_matches kind u since r \<and> r \<in> set (aw_events w)) rows \<and>
    sorted_wrt (\<lambda>a b. (er_ts b, er_id b) \<le> (er_ts a, er_id a)) rows \<and>
    int (length rows) \<le> MAX_QUERY_LIMIT \<and> w' = w"
proof -
  let ?q = "query_events kind u since limit (aw_events w)"
  have rows: "rows = filter (row_permitted (ap_config ap)) ?q" "w' = w" using listing_rows [OF assms] by simp_all
  have "sorted_wrt (\<lambda>a b. (er_ts b, er_id b) \<le> (er_ts a, er_id a)) ?q"
    unfolding query_events_def by (rule sorted_wrt_take [OF order_desc_sorted])
  moreover have "length ?q \<le> nat (clamp_limit limit)" "clamp_limit limit \<le> MAX_QUERY_LIMIT" "0 \<le> clamp_limit limit"
    by (simp_all add: query_events_def clamp_limit_def MAX_QUERY_LIMIT_def)
  then have "int (length rows) \<le> MAX_QUERY_LIMIT"
    unfolding rows(1) using length_filter_le [of "row_permitted (ap_config ap)" ?q] by linarith
  ultimately show ?thesis
    by (auto simp: rows list_all_iff query_events_def sorted_wrt_filter' dest!: in_set_takeD)
qed

text \<open>Successful runs of the pieces, read backwards.\<close>

lemma translating_Inr: "translating k m w = (Inr x, w') \<longleftrightarrow> m w = (Inr x, w')"
  by (auto simp: translating_def io_catch_Inr)

lemma via_host_Inr: "via_host m w = (Inr x, w') \<longleftrightarrow> (\<exists>v. m (aw_host w) = (Inr x, v) \<and> w' = w\<lparr>aw_host := v\<rparr>)"
  by (auto simp: via_host_def split: prod.splits)

lemma guarded_Inr:
  "guarded ap sc ex m w = (Inr x, w') \<longleftrightarrow>
     require_scope ap sc (ex_authorization ex) (ex_now ex) = Inr () \<and> m w = (Inr x, w')"
  by (auto simp: guarded_def io_bind_Inr)

lemma replying_Inr: "replying f m w = (Inr y, w') \<longleftrightarrow> (\<exists>x. m w = (Inr x, w') \<and> y = f x)"
  by (auto simp: replying_def io_bind_Inr)

lemmas backwards = translating_Inr via_host_Inr guarded_Inr replying_Inr io_bind_Inr

lemma require_unit_keeps:
  assumes "require_unit ap u c w = (Inr x, w1)"
  shows "tables w1 = tables w" "aw_events w1 = aw_events w" "aw_login w1 = aw_login w" "c \<in> capabilities_for (ap_config ap) u"
proof -
  have "spares tables (require_unit ap u c)" "spares aw_events (require_unit ap u c)" "spares aw_login (require_unit ap u c)"
    by (intro frame)+
  then show "tables w1 = tables w" "aw_events w1 = aw_events w" "aw_login w1 = aw_login w"
    using assms by (auto dest: sparesD)
  show "c \<in> capabilities_for (ap_config ap) u"
    using assms by (auto simp: require_unit_def io_bind_Inr split: if_splits)
qed


lemma local_units: "load_all_units (telephony_host a) () = (Inr [parse_unit ''lisa01'' []], ())"
proof -
  have "load_within RECURSION_DEPTH (telephony_host a) ''lisa01'' () = (Inr (parse_unit ''lisa01'' []), ())"
    using telephony_host_unit [of a "''lisa01''"] by (simp add: load_unit_def)
  moreover have "path_stem ''lisa01.env'' = ''lisa01''" by (simp add: path_stem_def)
  moreover have "ho_unit_names (telephony_host a) () = Some [''lisa01.env'']" by (simp add: telephony_host_def)
  ultimately show ?thesis
    by (simp add: load_all_units_def load_listed_def io_bind_app io_catch_app)
qed

lemma local_parts [simp]: "ap_host (local_api a) = telephony_host a" "ap_login (local_api a) = sample_service"
  "capabilities_for (ap_config (local_api a)) ''lisa01'' = {''sms''}"
  by (simp_all add: local_api_def sample_api_def sample_config_def capabilities_for_def)

lemma local_unit: "require_unit (local_api a) ''lisa01'' ''sms'' w = (Inr (), w)"
proof -
  have "un_name (parse_unit ''lisa01'' []) = ''lisa01''" by code_simp
  then show ?thesis using local_units [of a] by (simp add: require_unit_def io_bind_app via_host_def)
qed

theorem listings_permitted_witness:
  "\<exists>rows. serve (local_api []) (call_with ''Bearer tok'') (GetMessages None None 10)
     (idle_world\<lparr>aw_events := [stored_row 1 ''sms'', stored_row 2 ''notification'']\<rparr>) =
       (Inr (EventRows rows), idle_world\<lparr>aw_events := [stored_row 1 ''sms'', stored_row 2 ''notification'']\<rparr>) \<and>
     list_all (row_permitted (ap_config (local_api []))) rows"
proof -
  let ?v = "idle_world\<lparr>aw_events := [stored_row 1 ''sms'', stored_row 2 ''notification'']\<rparr>"
  obtain rows where r: "serve (local_api []) (call_with ''Bearer tok'') (GetMessages None None 10) ?v =
      (Inr (EventRows rows), ?v)"
    by (simp add: read_messages_def local_admits permitted_rows_def replying_def io_bind_app Let_def)
  have "list_all (row_permitted (ap_config (local_api []))) rows"
    using listings_permitted [OF _ r, of "Some KIND_SMS" None None 10] by (simp add: list_all_iff)
  with r show ?thesis by blast
qed

definition text_message :: send_body where
  "text_message = \<lparr>sb_unit = ''lisa01'', sb_to = ''+4917'', sb_body = ''hi; there'', sb_sim = None\<rparr>"

lemma message_sent:
  "\<exists>event w'. serve (local_api queued_answer) (call_with ''Bearer tok'') (PostMessage text_message) (started w) =
     (Inr (SentMessage ([(''status'', JStr ''queued''), (''ts'', JInt 5), (''accepted'', JBool True)], event)), w')"
proof -
  let ?a = "[(''status'', JStr ''queued''), (''ts'', JInt 5), (''accepted'', JBool True)]"
  have send: "send_sms (telephony_host queued_answer) ''lisa01'' ''+4917'' ''hi; there'' DEFAULT_SEND_TIMEOUT_SECONDS
      None () = (Inr ?a, ())" using queued_send by (simp add: DEFAULT_SEND_TIMEOUT_SECONDS_def)
  have at: "queued_at ?a m = 5" for m by (simp add: queued_at_def obj_get_def as_int_def)
  have "\<exists>event db. add_sent 1000 ''lisa01'' t ''hi; there'' 5 s [] = (Inr event, db)" for t s
    by (simp add: add_sent_def Let_def sent_source_id_def min_or0_def fits64_def has_key_def)
  then obtain event db where "add_sent 1000 ''lisa01'' (sent_to ?a ''+4917'') ''hi; there'' 5 (sent_sub ?a) [] =
      (Inr event, db)" by blast
  then show ?thesis
    by (simp add: send_message_def local_admits text_message_def local_unit replying_def io_bind_app translating_def
        io_catch_app via_host_def send at audit_def via_login_def on_events_def)
qed


lemma live_session_Inr:
  assumes "live_session ap authorization sc now w = (Inr (label, refresh_id), w')"
  shows "w' = w \<and> (legacy_token ap (bearer_token authorization) = Inr True \<or>
    (\<exists>claims. authorise (ap_login ap) (bearer_token authorization) now sc = Some claims \<and>
       live_refresh (ac_refresh_id claims) now (tables w) \<noteq> None))"
proof -
  have "spares (\<lambda>w. w) (live_session ap authorization sc now)" by (rule frame)
  then have "w' = w" using assms by (auto dest: sparesD)
  moreover have "fallback w = (Inr (label, refresh_id), w1) \<Longrightarrow> legacy_token ap t = Inr True"
    if "fallback = io_lift (rbind (legacy_token ap t) (\<lambda>ok. if ok then Inr (''legacy'', None) else Inl unauthorised))"
    for fallback t w1
    using that by (auto simp: rbind_eq_Inr split: if_splits)
  ultimately show ?thesis
    using assms by (auto simp: live_session_def Let_def io_bind_Inr via_login_def tables_def split: option.splits)
qed

lemma via_login_Inr: "via_login m w = (Inr x, w') \<longleftrightarrow> (\<exists>v. m (aw_login w) = (Inr x, v) \<and> w' = w\<lparr>aw_login := v\<rparr>)"
  by (auto simp: via_login_def split: prod.splits)


fun unit_need :: "request \<Rightarrow> (string \<times> string) option" where
  "unit_need (AcquireScreen u) = Some (u, ''screen'')"
| "unit_need (TakeOverScreen u) = Some (u, ''screen'')"
| "unit_need (HeartbeatScreen u) = Some (u, ''screen'')"
| "unit_need (ReleaseScreen u) = Some (u, ''screen'')"
| "unit_need (GetScreen u) = Some (u, ''screen'')"
| "unit_need (GetContacts u refresh) = Some (u, ''sms'')"
| "unit_need (GetSims u) = Some (u, ''sms'')"
| "unit_need (GetFiles u) = Some (u, ''files'')"
| "unit_need (UploadFile u name chunks) = Some (u, ''files'')"
| "unit_need (DownloadFile u name) = Some (u, ''files'')"
| "unit_need (DeleteFile u name) = Some (u, ''files'')"
| "unit_need (PostMessage b) = Some (sb_unit b, ''sms'')"
| "unit_need (AnswerCall u) = Some (u, ''calls'')"
| "unit_need (RejectCall u) = Some (u, ''calls'')"
| "unit_need (DialCall u b) = Some (u, ''calls'')"
| "unit_need (EndCall u) = Some (u, ''calls'')"
| "unit_need (PressKeys u digits) = Some (u, ''calls'')"
| "unit_need rq = None"

definition denied :: "'w api \<Rightarrow> 'w api_world \<Rightarrow> 'a result \<times> 'w api_world \<Rightarrow> bool" where
  "denied ap w p \<longleftrightarrow> (\<exists>e v. p = (Inl e, w\<lparr>aw_host := v\<rparr>) \<and>
     v \<in> {aw_host w, snd (load_all_units (ap_host ap) (aw_host w))})"

lemma denied_here: "denied ap w (Inl e, w)"
  unfolding denied_def by (intro exI [of _ e] exI [of _ "aw_host w"]) simp

lemma denied_require: "c \<notin> capabilities_for (ap_config ap) u \<Longrightarrow> denied ap w (io_bind (require_unit ap u c) f w)"
  unfolding denied_def
  by (auto simp: require_unit_def io_bind_app via_host_def case_prod_unfold split: sum.splits)

lemma denied_guarded: "denied ap w (m w) \<Longrightarrow> denied ap w (guarded ap sc ex m w)"
  using denied_here by (cases "require_scope ap sc (ex_authorization ex) (ex_now ex)")
    (simp_all add: guarded_def io_bind_app)

lemma denied_replying:
  assumes "denied ap w (m w)"
  shows "denied ap w (replying f m w)"
proof -
  from assms obtain e v where "m w = (Inl e, w\<lparr>aw_host := v\<rparr>)"
    and v: "v \<in> {aw_host w, snd (load_all_units (ap_host ap) (aw_host w))}" unfolding denied_def by blast
  then have "replying f m w = (Inl e, w\<lparr>aw_host := v\<rparr>)" by (simp add: replying_def io_bind_app)
  with v show ?thesis unfolding denied_def by blast
qed

lemma denied_as_holder:
  assumes "\<And>h. denied ap w (f h w)"
  shows "denied ap w (as_holder ap ex f w)"
proof -
  have "spares (\<lambda>w. w) (control_holder ap (ex_authorization ex) (ex_now ex))"
    unfolding control_holder_def control_session_def by (intro frame)
  then have "snd (control_holder ap (ex_authorization ex) (ex_now ex) w) = w" by (simp add: spares_def)
  then show ?thesis
    using assms denied_here
    by (cases "control_holder ap (ex_authorization ex) (ex_now ex) w") (auto simp: as_holder_def io_bind_app split: sum.splits)
qed

text \<open>
  C8. A unit is out of reach without the capability: a request that needs one the configuration does
  not give the unit fails, whoever asks, and the only thing it does is read the unit files. No
  command reaches the phone, no lease, message or line of the log appears.
\<close>

theorem capability_gates_unit:
  assumes "unit_need rq = Some (u, c)" and "c \<notin> capabilities_for (ap_config ap) u"
  shows "\<exists>e v. serve ap ex rq w = (Inl e, w\<lparr>aw_host := v\<rparr>) \<and>
    v \<in> {aw_host w, snd (load_all_units (ap_host ap) (aw_host w))}"
proof -
  have "denied ap w (serve ap ex rq w)"
    using assms
    by (cases rq) (auto simp: route_defs intro!: denied_replying denied_guarded denied_as_holder denied_require)
  then show ?thesis by (simp add: denied_def)
qed

theorem capability_gates_unit_witness:
  "\<exists>e. serve (local_api []) (call_with ''Bearer tok'') (DialCall ''lisa01'' \<lparr>dl_to = ''112'', dl_sim = None\<rparr>) idle_world =
     (Inl e, idle_world)"
  using capability_gates_unit [of "DialCall ''lisa01'' \<lparr>dl_to = ''112'', dl_sim = None\<rparr>" "''lisa01''" "''calls''"
      "local_api []" "call_with ''Bearer tok''" idle_world] by (auto simp del: serve.simps)

fun session_bound :: "request \<Rightarrow> string option" where
  "session_bound (AcquireScreen u) = Some SCOPE_CONTROL"
| "session_bound (TakeOverScreen u) = Some SCOPE_CONTROL"
| "session_bound (HeartbeatScreen u) = Some SCOPE_CONTROL"
| "session_bound (ReleaseScreen u) = Some SCOPE_CONTROL"
| "session_bound (GetScreen u) = Some SCOPE_CONTROL"
| "session_bound (EnableTotpOf b) = Some SCOPE_ADMIN"
| "session_bound (DisableTotpOf b) = Some SCOPE_ADMIN"
| "session_bound rq = None"

lemma live_session_dead:
  assumes "authorise (ap_login ap) (bearer_token authorization) now sc = Some claims"
    and "live_refresh (ac_refresh_id claims) now (tables w) = None"
    and "legacy_token ap (bearer_token authorization) = Inr False"
  shows "live_session ap authorization sc now w = (Inl unauthorised, w)"
  using assms by (simp add: live_session_def Let_def io_bind_app via_login_def tables_def)

text \<open>
  C12. A device whose session was ended keeps no hold on screens or the second factor: though its
  access token still verifies, every lease request and every change of the second factor is refused
  with 401 and changes nothing.
\<close>

theorem ended_session_holds_nothing:
  assumes "session_bound rq = Some sc"
    and "authorise (ap_login ap) (bearer_token (ex_authorization ex)) (ex_now ex) sc = Some claims"
    and "live_refresh (ac_refresh_id claims) (ex_now ex) (tables w) = None"
    and "legacy_token ap (bearer_token (ex_authorization ex)) = Inr False"
  shows "serve ap ex rq w = (Inl unauthorised, w)"
proof -
  have dead: "live_session ap (ex_authorization ex) sc (ex_now ex) w = (Inl unauthorised, w)"
    using live_session_dead assms by blast
  have "require_scope ap sc (ex_authorization ex) (ex_now ex) = Inr ()"
    using assms(2) by (simp add: require_scope_def Let_def)
  then show ?thesis
    using assms(1) dead
    by (cases rq) (auto simp: route_defs replying_def guarded_def as_holder_def control_holder_def control_session_def
        step_up_def io_bind_app)
qed

lemma local_live:
  "live_session (local_api a) (ex_authorization (call_with ''Bearer tok'')) sc 1000 w = (Inr (''legacy'', None), w)"
  by (simp add: live_session_def Let_def authorise_def foreign local_legacy)

definition admin_password :: password_body where
  "admin_password = \<lparr>pb_password = ''pw'', pb_totp_code = None, pb_recovery_code = None\<rparr>"

lemma factor_enabled:
  "\<exists>secret codes w'. serve (local_api a) (call_with ''Bearer tok'') (EnableTotpOf admin_password) (started w) =
     (Inr (TotpEnrolment (secret, codes)), w')"
proof -
  let ?l = "aw_login (started w)"
  have db: "lw_db ?l = empty_auth" by (simp add: started_def)
  have "check_credentials sample_service ''admin'' ''pw'' ip 1000 None None ?l = (Inr None, ?l)" for ip
    by (subst check_credentials_single_factor)
      (simp_all add: sample_admin sample_right db empty_auth_def active_lock_def totp_secret_def)
  then have check: "reauthenticate sample_service ''pw'' ip 1000 None None ?l = (Inr None, ?l)" for ip
    by (simp add: reauthenticate_def sample_admin)
  have "\<exists>secret codes v. enable_second_factor sample_service [] [] 1000 ?l = (Inr (secret, codes), v)"
    by (simp add: enable_second_factor_def io_bind_app db_try_def enable_totp_def generate_recovery_codes_def Let_def db
        empty_auth_def)
  then obtain secret codes v where "enable_second_factor sample_service [] [] 1000 ?l = (Inr (secret, codes), v)" by blast
  then show ?thesis
    by (simp add: enable_totp_route_def local_admits step_up_def local_live check admin_password_def replying_def
        io_bind_app via_login_def)
qed


definition ended_token :: string where
  "ended_token = issue_access_token (ls_mac256 sample_service) (ls_key sample_service) 1 SCOPE_CONTROL 2000"

definition bearer_header :: "string \<Rightarrow> string" where
  "bearer_header t = ''Bearer '' @ t"

lemma bearer_of [simp]: "bearer_token (ex_authorization (call_with (bearer_header t))) = t"
  by (simp add: call_with_def bearer_token_def bearer_header_def)

theorem ended_session_holds_nothing_witness:
  "serve sample_api (call_with (bearer_header ended_token)) (TakeOverScreen ''lisa01'') (started idle_world) =
     (Inl unauthorised, started idle_world)"
proof (rule ended_session_holds_nothing)
  show "session_bound (TakeOverScreen ''lisa01'') = Some SCOPE_CONTROL" by simp
  have "verify_access_token (ls_mac256 sample_service) (ls_key sample_service) ended_token 1000 =
      Some \<lparr>ac_refresh_id = 1, ac_scope = SCOPE_CONTROL, ac_expires_at = 2000\<rparr>"
    unfolding ended_token_def by (subst verify_issued) (simp_all add: scope_defs code_def)
  then show "authorise (ap_login sample_api) (bearer_token (ex_authorization (call_with (bearer_header ended_token))))
      (ex_now (call_with (bearer_header ended_token))) SCOPE_CONTROL =
      Some \<lparr>ac_refresh_id = 1, ac_scope = SCOPE_CONTROL, ac_expires_at = 2000\<rparr>"
    by (simp add: authorise_def sample_api_def scope_allows_def scope_rank_def scope_defs)
  show "live_refresh (ac_refresh_id \<lparr>ac_refresh_id = 1, ac_scope = SCOPE_CONTROL, ac_expires_at = 2000\<rparr>)
      (ex_now (call_with (bearer_header ended_token))) (tables (started idle_world)) = None"
    by (simp add: live_refresh_def empty_auth_def)
  show "legacy_token sample_api (bearer_token (ex_authorization (call_with (bearer_header ended_token)))) = Inr False"
    by (simp add: legacy_token_def legacy_enabled_def sample_api_def sample_config_def)
qed

definition tidy_host :: "'w api \<Rightarrow> ('w \<Rightarrow> string set) \<Rightarrow> bool" where
  "tidy_host ap fs \<longleftrightarrow>
     (\<forall>args t. spares fs (ho_run (ap_host ap) args t)) \<and> (\<forall>p. spares fs (ho_file_size (ap_host ap) p)) \<and>
     (\<forall>p. spares fs (ho_read_file (ap_host ap) p)) \<and> (\<forall>p c. spares fs (ap_append ap p c)) \<and>
     (\<forall>p v. fs (snd (ho_unlink (ap_host ap) p v)) = fs v - {p}) \<and>
     (\<forall>pre v. case ap_mktemp ap pre v of (Inl e, v') \<Rightarrow> fs v' = fs v
        | (Inr p, v') \<Rightarrow> p \<notin> fs v \<and> fs v' = insert p (fs v))"

lemma spares_result [frame]:
  "(\<And>e. r = Inl e \<Longrightarrow> spares g (f e)) \<Longrightarrow> (\<And>x. r = Inr x \<Longrightarrow> spares g (h x)) \<Longrightarrow>
     spares g (case r of Inl e \<Rightarrow> f e | Inr x \<Rightarrow> h x)"
  by (cases r) auto

lemma spares_list [frame]:
  "(xs = [] \<Longrightarrow> spares g a) \<Longrightarrow> (\<And>y ys. xs = y # ys \<Longrightarrow> spares g (f y ys)) \<Longrightarrow>
     spares g (case xs of [] \<Rightarrow> a | y # ys \<Rightarrow> f y ys)"
  by (cases xs) auto

lemma tidy_spares:
  assumes "tidy_host ap fs"
  shows "spares fs (ho_run (ap_host ap) args t)" "spares fs (ho_file_size (ap_host ap) p)"
    "spares fs (ho_read_file (ap_host ap) p)" "spares fs (ap_append ap p c)"
  using assms by (simp_all add: tidy_host_def)

lemma tidy_unlink: "tidy_host ap fs \<Longrightarrow> fs (snd (ho_unlink (ap_host ap) p v)) = fs v - {p}"
  by (simp add: tidy_host_def)

lemma spares_load_within: "spares g (load_within n h u)"
proof (induction n arbitrary: u)
  case (Suc n)
  have "spares g (load_each (load_within n h) fs)" for fs
    by (induction fs) (simp_all only: load_each.simps, (assumption | rule Suc | rule frame)+)
  then show ?case unfolding load_within.simps load_listed_def by (intro frame)
qed (simp add: spares_raise)

lemma spares_load_unit [frame]: "spares g (load_unit h u)" "spares g (load_all_units h)"
proof -
  have "spares g (load_each (load_within n h) fs)" for n fs
    by (induction fs) (simp_all only: load_each.simps, (assumption | rule spares_load_within | rule frame)+)
  then show "spares g (load_unit h u)" "spares g (load_all_units h)"
    unfolding load_unit_def load_all_units_def load_listed_def by (intro spares_load_within frame)+
qed

lemmas adb_code = list_devices_def build_adb_command_def find_adb_binary_def choose_only_def resolve_serial_def
  run_exec_out_def push_file_def pull_file_def transfer_def on_fault_def files_serial_def

lemma tidy_adb:
  assumes "tidy_host ap fs"
  shows "spares fs (list_devices (ap_host ap))" "spares fs (resolve_serial (ap_host ap) s)"
    "spares fs (files_serial (ap_host ap) u)" "spares fs (run_exec_out (ap_host ap) serial args t)"
    "spares fs (push_file (ap_host ap) serial a b)" "spares fs (pull_file (ap_host ap) serial a b)"
  unfolding adb_code Let_def by ((assumption | rule frame | rule tidy_spares [OF assms])+)

lemma spares_weaken: "spares fs m \<Longrightarrow> spares (\<lambda>v. fs v - A) m"
  by (simp add: spares_def)

lemma tidy_remove: "tidy_host ap fs \<Longrightarrow> spares (\<lambda>v. fs v - {p}) (ho_unlink (ap_host ap) p)"
  by (simp add: spares_def tidy_unlink)

lemmas transfer_code = file_checksum_def remote_checksum_def remote_metadata_def require_checksum_def require_size_def

lemma tidy_store:
  assumes "tidy_host ap fs"
  shows "spares fs (store_file (ap_host ap) sha u name p)"
  unfolding store_file_def transfer_code on_fault_def
  by ((assumption | rule frame | rule tidy_adb [OF assms] | rule tidy_spares [OF assms])+)

lemma tidy_fetch:
  assumes "tidy_host ap fs"
  shows "spares (\<lambda>v. fs v - {p}) (fetch_file (ap_host ap) sha u name p)"
proof -
  have check: "spares (\<lambda>v. fs v - {p}) (check_download (ap_host ap) p)"
  proof -
    have handler: "spares (\<lambda>v. fs v - {p}) (case e of BoundaryError FilesBoundary d m \<Rightarrow>
        io_bind (ho_unlink (ap_host ap) p) (\<lambda>x. io_raise e) | _ \<Rightarrow> io_raise e)" for e
      by (cases e) (auto split: boundary.splits intro!: frame tidy_remove [OF assms])
    show ?thesis
      unfolding check_download_def require_size_def
      by ((assumption | rule handler | rule frame | rule spares_weaken [OF tidy_spares(2) [OF assms]])+)
  qed
  show ?thesis
    unfolding fetch_file_def transfer_code on_fault_def
    by ((assumption | rule check | rule frame | rule tidy_remove [OF assms]
      | rule tidy_adb [OF assms, THEN spares_weaken] | rule tidy_spares [OF assms, THEN spares_weaken])+)
qed

lemma tidy_spool:
  assumes "tidy_host ap fs"
  shows "spares fs (spool_body ap p n chunks)"
proof (induction chunks arbitrary: n)
  case (Cons c chunks)
  then show ?case
    by (cases c) (simp_all only: spool_body.simps Let_def,
      (assumption | rule Cons | rule frame | rule tidy_spares [OF assms])+)
qed (simp add: spares_ret)

definition host_files :: "('w \<Rightarrow> string set) \<Rightarrow> 'w api_world \<Rightarrow> string set" where
  "host_files fs w = fs (aw_host w)"

lemma spares_files [frame]:
  "spares fs m \<Longrightarrow> spares (host_files fs) (via_host m)" "spares (host_files fs) (audit ex a b c d)"
  by (simp_all add: spares_def host_files_def via_host_def audit_def via_login_def case_prod_unfold)

lemma tidy_made:
  assumes "tidy_host ap fs" and "ap_mktemp ap pre v = (r, v')"
  shows "r = Inl e \<Longrightarrow> fs v' = fs v" and "r = Inr p \<Longrightarrow> p \<notin> fs v \<and> fs v' = insert p (fs v)"
proof -
  have "case ap_mktemp ap pre v of (Inl e, v') \<Rightarrow> fs v' = fs v | (Inr p, v') \<Rightarrow> p \<notin> fs v \<and> fs v' = insert p (fs v)"
    using assms(1) by (simp add: tidy_host_def)
  then show "r = Inl e \<Longrightarrow> fs v' = fs v" and "r = Inr p \<Longrightarrow> p \<notin> fs v \<and> fs v' = insert p (fs v)"
    using assms(2) by simp_all
qed

lemma spares_files_unit [frame]: "spares (host_files fs) (require_unit ap u c)"
  unfolding require_unit_def by (intro frame)

lemma temporary_upload:
  fixes ap :: "'w api"
  assumes t: "tidy_host ap fs" and body: "\<And>p. spares (host_files fs) (body p)" and rest: "\<And>x. spares (host_files fs) (rest x)"
  shows "spares (host_files fs) (io_bind (via_host (ap_mktemp ap pre)) (\<lambda>p.
    io_bind (io_finally (body p) (via_host (ho_unlink (ap_host ap) p))) rest))"
proof -
  have k: "host_files fs (snd (io_bind (io_finally (body p) (via_host (ho_unlink (ap_host ap) p))) rest w)) =
      host_files fs w - {p}" for p w
  proof -
    have "host_files fs (snd (io_finally (body p) (via_host (ho_unlink (ap_host ap) p)) w)) = host_files fs w - {p}"
      using body [of p] tidy_unlink [OF t]
      by (simp add: snd_io_finally spares_def host_files_def via_host_def case_prod_unfold)
    then show ?thesis using rest by (auto simp: snd_io_bind spares_def split: sum.splits)
  qed
  show ?thesis
    unfolding spares_def
  proof
    fix w :: "'w api_world"
    obtain r v where m: "ap_mktemp ap pre (aw_host w) = (r, v)" by (cases "ap_mktemp ap pre (aw_host w)")
    then have made: "via_host (ap_mktemp ap pre) w = (r, w\<lparr>aw_host := v\<rparr>)" by (simp add: via_host_def)
    show "host_files fs (snd (io_bind (via_host (ap_mktemp ap pre)) (\<lambda>p.
        io_bind (io_finally (body p) (via_host (ho_unlink (ap_host ap) p))) rest) w)) = host_files fs w"
      using k tidy_made [OF t m]
      by (cases r) (simp_all add: snd_io_bind [of "via_host (ap_mktemp ap pre)"] made host_files_def)
  qed
qed

text \<open>\<open>tidies\<close>: apart from the file it answers with, an operation leaves the files there were.\<close>

definition tidies :: "('w \<Rightarrow> string set) \<Rightarrow> ('w api_world, string \<times> string) io \<Rightarrow> bool" where
  "tidies fs m \<longleftrightarrow> (\<forall>w. host_files fs (snd (m w)) - (case fst (m w) of Inl e \<Rightarrow> {} | Inr q \<Rightarrow> {fst q}) = host_files fs w)"

lemma tidies_bind:
  fixes fs :: "'w \<Rightarrow> string set"
  assumes "spares (host_files fs) m" and "\<And>x. tidies fs (f x)"
  shows "tidies fs (io_bind m f)"
  unfolding tidies_def
proof
  fix w :: "'w api_world"
  obtain r w1 where m: "m w = (r, w1)" by (cases "m w")
  have "host_files fs w1 = host_files fs w" by (rule sparesD [OF assms(1) m])
  then show "host_files fs (snd (io_bind m f w)) - (case fst (io_bind m f w) of Inl e \<Rightarrow> {} | Inr q \<Rightarrow> {fst q}) =
      host_files fs w"
    using m assms(2) by (cases r) (simp_all add: io_bind_app tidies_def)
qed

lemma temporary_download:
  fixes ap :: "'w api"
  assumes t: "tidy_host ap fs"
  shows "tidies fs (io_bind (via_host (ap_mktemp ap pre)) (\<lambda>p.
    io_bind (io_catch (via_host (fetch_file (ap_host ap) sha u name p))
        (\<lambda>e. io_bind (via_host (ho_unlink (ap_host ap) p)) (\<lambda>y. io_raise (f e)))) (\<lambda>y. io_ret (p, name))))"
    (is "tidies fs ?m")
  unfolding tidies_def
proof
  fix w :: "'w api_world"
  obtain r v where m: "ap_mktemp ap pre (aw_host w) = (r, v)" by (cases "ap_mktemp ap pre (aw_host w)")
  show "host_files fs (snd (?m w)) - (case fst (?m w) of Inl e \<Rightarrow> {} | Inr q \<Rightarrow> {fst q}) = host_files fs w"
  proof (cases r)
    case (Inl e)
    then show ?thesis using m tidy_made(1) [OF t m] by (simp add: io_bind_app via_host_def host_files_def)
  next
    case (Inr p)
    obtain q v2 where fetch: "fetch_file (ap_host ap) sha u name p v = (q, v2)"
      by (cases "fetch_file (ap_host ap) sha u name p v")
    have got: "fs v2 - {p} = fs (aw_host w)"
      using sparesD [OF tidy_fetch [OF t] fetch] tidy_made(2) [OF t m Inr] by auto
    obtain z v3 where gone: "ho_unlink (ap_host ap) p v2 = (z, v3)" by (cases "ho_unlink (ap_host ap) p v2")
    have "fs v3 = fs (aw_host w)" using tidy_unlink [OF t, of p v2] gone got by simp
    then show ?thesis
      using m Inr fetch got gone
      by (cases q; cases z) (simp_all add: io_bind_app io_catch_app via_host_def host_files_def)
  qed
qed

definition answer_file :: "reply result \<Rightarrow> string set" where
  "answer_file r = (case r of Inr (FileResponse (p, n)) \<Rightarrow> {p} | _ \<Rightarrow> {})"

lemma tidies_guarded: "tidies fs m \<Longrightarrow> tidies fs (guarded ap sc ex m)"
  unfolding guarded_def by (rule tidies_bind) (rule frame)

lemma tidies_download: "tidy_host ap fs \<Longrightarrow> tidies fs (download_unit_file ap ex u name)"
  unfolding download_unit_file_def
  by (rule tidies_guarded, rule tidies_bind [OF spares_files_unit], rule tidies_bind,
      rule spares_translating [OF spares_lift], rule temporary_download)

lemma spares_upload:
  assumes "tidy_host ap fs"
  shows "spares (host_files fs) (upload_unit_file ap ex u name chunks)"
proof -
  have body: "spares (host_files fs) (io_bind (via_host (spool_body ap p 0 chunks)) (\<lambda>n.
      io_bind (translating FilesBoundary (via_host (store_file (ap_host ap) (ap_sha ap) u name p))) (\<lambda>y. io_ret n)))" for p
    by (intro spares_bind spares_translating spares_files spares_ret tidy_spool [OF assms] tidy_store [OF assms])
  show ?thesis
    unfolding upload_unit_file_def
    by (rule spares_guarded, rule spares_bind [OF spares_files_unit],
        rule spares_bind [OF spares_translating [OF spares_lift]], rule temporary_upload [OF assms body])
      (rule spares_bind spares_files spares_ret)+
qed

text \<open>
  A transfer leaves no temporary file behind: however an upload ends, and whenever a download
  fails, the host has the files it had before, and after a successful download one more, the
  answer's. The host's commands create and remove no such files.
\<close>

theorem transfers_leave_no_temporary:
  assumes "tidy_host ap fs"
  shows "fs (aw_host (snd (serve ap ex (UploadFile u name chunks) w))) = fs (aw_host w) \<and>
    fs (aw_host (snd (serve ap ex (DownloadFile u name) w))) - answer_file (fst (serve ap ex (DownloadFile u name) w)) =
      fs (aw_host w)"
proof
  show "fs (aw_host (snd (serve ap ex (UploadFile u name chunks) w))) = fs (aw_host w)"
    using spares_replying [OF spares_upload [OF assms]] by (simp add: spares_def host_files_def)
  obtain q w' where d: "download_unit_file ap ex u name w = (q, w')" by (cases "download_unit_file ap ex u name w")
  have "host_files fs w' - (case q of Inl e \<Rightarrow> {} | Inr x \<Rightarrow> {fst x}) = host_files fs w"
    using tidies_download [OF assms, of ex u name] d unfolding tidies_def by (metis fst_conv snd_conv)
  then show "fs (aw_host (snd (serve ap ex (DownloadFile u name) w))) -
      answer_file (fst (serve ap ex (DownloadFile u name) w)) = fs (aw_host w)"
    using d by (cases q) (simp_all add: replying_def io_bind_app answer_file_def host_files_def case_prod_unfold)
qed

text \<open>A host whose files are a list of names.\<close>

definition shelf_host :: "string list host" where
  "shelf_host = \<lparr>ho_which_adb = (\<lambda>w. Some ''adb''), ho_server_socket = (\<lambda>w. None),
     ho_run = (\<lambda>args t. io_ret (0, [], [])), ho_unit_names = (\<lambda>w. Some [''lisa01.env'']),
     ho_read_unit = (\<lambda>n w. Some []), ho_write_unit = (\<lambda>n s. io_ret ()), ho_randbelow = (\<lambda>n. io_ret 0),
     ho_listen = io_ret (0, 0), ho_close = (\<lambda>i. io_ret ()), ho_file_size = (\<lambda>p. io_ret 0),
     ho_read_file = (\<lambda>p. io_ret []), ho_unlink = (\<lambda>p w. (Inr (), filter (\<lambda>q. q \<noteq> p) w))\<rparr>"

definition shelf_api :: "string list api" where
  "shelf_api = \<lparr>ap_config = ap_config (local_api []), ap_login = sample_service, ap_host = shelf_host,
     ap_search = (\<lambda>p s. False), ap_sha = (\<lambda>s. s), ap_screen = screen_manager, ap_voice = voice_manager,
     ap_mktemp = (\<lambda>pre w. let p = pre @ concat w @ ''0'' in (Inr p, p # w)), ap_append = (\<lambda>p c. io_ret ())\<rparr>"

lemma shelf_tidy: "tidy_host shelf_api set"
proof -
  have "length p \<le> length (concat w)" if "p \<in> set w" for p :: string and w
    using that by (induction w) auto
  from this [of "pre @ concat w @ ''0''" w for pre w] have "pre @ concat w @ ''0'' \<notin> set w" for pre :: string and w
    by fastforce
  then show ?thesis
    by (auto simp: tidy_host_def shelf_api_def shelf_host_def Let_def spares_def)
qed

definition shelf_world :: "string list api_world" where
  "shelf_world = \<lparr>aw_host = [''notes''], aw_login = fresh_world, aw_events = [], aw_screen = ([], []),
     aw_voice = ([], []), aw_book = [], aw_stats = None\<rparr>"

theorem transfers_leave_no_temporary_witness:
  "set (aw_host (snd (serve shelf_api (call_with ''Bearer tok'')
     (UploadFile ''lisa01'' ''a.txt'' [Inr ''hello'', Inl TimeoutExpired]) shelf_world))) = {''notes''}"
  using transfers_leave_no_temporary [OF shelf_tidy, of "call_with ''Bearer tok''" "''lisa01''" "''a.txt''"
      "[Inr ''hello'', Inl TimeoutExpired]" shelf_world]
  by (simp add: shelf_world_def del: serve.simps)

end
