(* ===== verification/Relay.thy ===== *)
theory Relay
  imports PyStr
begin

text \<open>
  The byte relays between a phone and a WebSocket, \<open>gateway/relay.py\<close> and \<open>gateway/voice.py\<close>.
  Accepting and closing device connections are parameters over a world. The concurrent tasks of
  \<open>pump\<close> appear as the sequence of what they receive, in any order: chunks read from the device
  (an empty chunk is the end of its stream), messages of the client, the end of the heartbeat.
\<close>

definition VIDEO_CHANNEL :: nat where "VIDEO_CHANNEL = 0"
definition CONTROL_CHANNEL :: nat where "CONTROL_CHANNEL = 1"

section \<open>Opening and closing\<close>

record relay =
  rl_readers :: "(nat, int) dict"
  rl_writers :: "(nat, int) dict"

definition closed_relay :: relay where
  "closed_relay = \<lparr>rl_readers = [], rl_writers = []\<rparr>"

definition close_relay :: "(int \<Rightarrow> 'w \<Rightarrow> 'w) \<Rightarrow> (relay \<times> 'w, unit) io" where
  "close_relay close = (\<lambda>(r, w). (Inr (), (closed_relay, fold close (map snd (rl_writers r)) w)))"

fun accept_channels :: "('w, int) io \<Rightarrow> nat list \<Rightarrow> (relay \<times> 'w, unit) io" where
  "accept_channels acc [] = io_ret ()"
| "accept_channels acc (ch # chs) =
     io_bind (\<lambda>(r, w). case acc w of
         (Inl e, w') \<Rightarrow> (Inl e, (r, w'))
       | (Inr c, w') \<Rightarrow> (Inr (), (\<lparr>rl_readers = dict_set ch c (rl_readers r),
             rl_writers = dict_set ch c (rl_writers r)\<rparr>, w')))
     (\<lambda>x. accept_channels acc chs)"

definition open_relay :: "('w, int) io \<Rightarrow> (int \<Rightarrow> 'w \<Rightarrow> 'w) \<Rightarrow> (relay \<times> 'w, unit) io" where
  "open_relay acc close =
     io_bind (close_relay close) (\<lambda>x.
     io_catch (accept_channels acc [VIDEO_CHANNEL, CONTROL_CHANNEL])
       (\<lambda>e. io_bind (close_relay close) (\<lambda>y. io_raise e)))"

section \<open>Pumping\<close>

text \<open>A received message: its bytes, no bytes (a text frame), or the end of the connection.\<close>

datatype client_message = Binary string | NoBytes | Disconnected

datatype pump_event = FromDevice nat string | FromClient client_message | HeartbeatEnded

definition channel_frame :: "nat \<Rightarrow> string \<Rightarrow> string" where
  "channel_frame ch chunk = char_of ch # chunk"

text \<open>\<open>_client_to_device\<close> for one message: the bytes written so far, per channel.\<close>

definition dispatch :: "nat list \<Rightarrow> string \<Rightarrow> (nat \<Rightarrow> string) \<Rightarrow> nat \<Rightarrow> string" where
  "dispatch channels message written =
     (case message of
        [] \<Rightarrow> written
      | tag # payload \<Rightarrow>
          if code tag \<in> set channels
          then written(code tag := written (code tag) @ payload) else written)"

text \<open>The frames sent, the bytes written to each device socket, and what was never processed.\<close>

fun pump_loop :: "nat list \<Rightarrow> pump_event list \<Rightarrow> (nat \<Rightarrow> string)
     \<Rightarrow> string list \<times> (nat \<Rightarrow> string) \<times> pump_event list" where
  "pump_loop channels [] written = ([], written, [])"
| "pump_loop channels (e # es) written =
     (case e of
        FromDevice ch chunk \<Rightarrow>
          if chunk = [] then ([], written, es)
          else (case pump_loop channels es written of
              (sent, rest) \<Rightarrow> (channel_frame ch chunk # sent, rest))
      | FromClient m \<Rightarrow>
          (case m of
             Binary message \<Rightarrow> pump_loop channels es (dispatch channels message written)
           | NoBytes \<Rightarrow> pump_loop channels es written
           | Disconnected \<Rightarrow> ([], written, es))
      | HeartbeatEnded \<Rightarrow> ([], written, es))"

definition pump :: "relay \<Rightarrow> pump_event list \<Rightarrow> (string list \<times> (nat \<Rightarrow> string) \<times> pump_event list) result" where
  "pump r es =
     (if set (dict_keys (rl_readers r)) \<noteq> {VIDEO_CHANNEL, CONTROL_CHANNEL}
      then Inl (RuntimeError ''relay is not open'')
      else Inr (pump_loop (dict_keys (rl_writers r)) es (\<lambda>ch. [])))"

section \<open>Call audio\<close>

definition voice_write :: "string \<Rightarrow> string \<Rightarrow> string" where
  "voice_write message written = written @ message"

fun voice_loop :: "pump_event list \<Rightarrow> string \<Rightarrow> string list \<times> string \<times> pump_event list" where
  "voice_loop [] written = ([], written, [])"
| "voice_loop (e # es) written =
     (case e of
        FromDevice ch chunk \<Rightarrow>
          if chunk = [] then ([], written, es)
          else (case voice_loop es written of (sent, rest) \<Rightarrow> (chunk # sent, rest))
      | FromClient m \<Rightarrow>
          (case m of
             Binary message \<Rightarrow> voice_loop es (voice_write message written)
           | NoBytes \<Rightarrow> voice_loop es written
           | Disconnected \<Rightarrow> ([], written, es))
      | HeartbeatEnded \<Rightarrow> ([], written, es))"

text \<open>The one device socket of a call: connected or not.\<close>

definition voice_open :: "('w, int) io \<Rightarrow> (int \<Rightarrow> 'w \<Rightarrow> 'w) \<Rightarrow> (int option \<times> 'w, unit) io" where
  "voice_open connect close =
     (\<lambda>(s, w). case connect (case s of Some c \<Rightarrow> close c w | None \<Rightarrow> w) of
        (Inl e, w') \<Rightarrow> (Inl e, (None, w'))
      | (Inr c, w') \<Rightarrow> (Inr (), (Some c, w')))"

definition voice_close :: "(int \<Rightarrow> 'w \<Rightarrow> 'w) \<Rightarrow> (int option \<times> 'w, unit) io" where
  "voice_close close = (\<lambda>(s, w). (Inr (), (None, case s of Some c \<Rightarrow> close c w | None \<Rightarrow> w)))"

definition voice_pump :: "int option \<Rightarrow> pump_event list \<Rightarrow> (string list \<times> string \<times> pump_event list) result" where
  "voice_pump s es =
     (case s of None \<Rightarrow> Inl (RuntimeError ''relay is not open'') | Some c \<Rightarrow> Inr (voice_loop es []))"

section \<open>Lemmas\<close>

text \<open>What each end means by its stream: the chunks of one channel, in order.\<close>

definition device_stream :: "nat \<Rightarrow> pump_event list \<Rightarrow> string" where
  "device_stream ch es = concat (map (\<lambda>e. case e of
     FromDevice c chunk \<Rightarrow> if c = ch then chunk else [] | _ \<Rightarrow> []) es)"

definition client_stream :: "nat \<Rightarrow> pump_event list \<Rightarrow> string" where
  "client_stream ch es = concat (map (\<lambda>e. case e of
     FromClient (Binary (tag # payload)) \<Rightarrow> if code tag = ch then payload else [] | _ \<Rightarrow> []) es)"

definition received :: "nat \<Rightarrow> string list \<Rightarrow> string" where
  "received ch frames = concat (map (\<lambda>f. case f of
     [] \<Rightarrow> [] | tag # payload \<Rightarrow> if code tag = ch then payload else []) frames)"

definition device_tags :: "pump_event list \<Rightarrow> bool" where
  "device_tags es \<longleftrightarrow> list_all (\<lambda>e. case e of FromDevice c chunk \<Rightarrow> c < 256 | _ \<Rightarrow> True) es"

definition ends_pump :: "pump_event \<Rightarrow> bool" where
  "ends_pump e = (case e of
     FromDevice c chunk \<Rightarrow> chunk = [] | FromClient m \<Rightarrow> m = Disconnected | HeartbeatEnded \<Rightarrow> True)"

definition pumped :: "pump_event list \<Rightarrow> pump_event list" where
  "pumped es = takeWhile (\<lambda>e. \<not> ends_pump e) es"

lemmas stream_simps = device_stream_def client_stream_def received_def pumped_def ends_pump_def

lemma dispatch_at:
  "dispatch channels m written ch =
     written ch @ (case m of [] \<Rightarrow> [] | t # p \<Rightarrow> if code t = ch \<and> ch \<in> set channels then p else [])"
  by (auto simp: dispatch_def split: list.splits)

lemma dispatch_Nil [simp]: "dispatch channels [] written = written"
  by (simp add: dispatch_def)

lemma pump_loop_frames:
  "device_tags es \<Longrightarrow> received ch (fst (pump_loop channels es written)) = device_stream ch (pumped es)"
proof (induction channels es written rule: pump_loop.induct)
  case (2 channels e es written)
  then show ?case
    by (cases e) (auto simp: stream_simps device_tags_def channel_frame_def case_prod_unfold
        split: client_message.splits)
qed (simp add: stream_simps)

lemma pump_loop_written:
  "fst (snd (pump_loop channels es written)) ch =
     written ch @ (if ch \<in> set channels then client_stream ch (pumped es) else [])"
proof (induction channels es written rule: pump_loop.induct)
  case (2 channels e es written)
  show ?case
  proof (cases "\<exists>t p. e = FromClient (Binary (t # p))")
    case True
    then obtain t p where e: "e = FromClient (Binary (t # p))" by blast
    have "fst (snd (pump_loop channels (e # es) written)) ch =
        fst (snd (pump_loop channels es (dispatch channels (t # p) written))) ch"
      by (simp add: e)
    also have "\<dots> = dispatch channels (t # p) written ch @
        (if ch \<in> set channels then client_stream ch (pumped es) else [])"
      using "2.IH"(2) e by blast
    finally show ?thesis
      using dispatch_at [of channels "t # p" written ch] by (simp add: e stream_simps)
  next
    case False
    with 2 show ?thesis
      by (cases e) (auto simp: stream_simps case_prod_unfold split: client_message.splits list.splits)
  qed
qed (simp add: stream_simps)

lemma pump_loop_rest:
  "snd (snd (pump_loop channels es written)) = drop (Suc (length (pumped es))) es"
proof (induction channels es written rule: pump_loop.induct)
  case (2 channels e es written)
  then show ?case
    by (cases e) (auto simp: pumped_def ends_pump_def case_prod_unfold split: client_message.splits)
qed (simp add: pumped_def)

lemma voice_loop_streams:
  "concat (fst (voice_loop es written)) =
     concat (map (\<lambda>e. case e of FromDevice c chunk \<Rightarrow> chunk | _ \<Rightarrow> []) (pumped es)) \<and>
   fst (snd (voice_loop es written)) =
     written @ concat (map (\<lambda>e. case e of FromClient (Binary m) \<Rightarrow> m | _ \<Rightarrow> []) (pumped es))"
proof (induction es written rule: voice_loop.induct)
  case (2 e es written)
  then show ?case
    by (cases e) (auto simp: pumped_def ends_pump_def voice_write_def case_prod_unfold
        split: client_message.splits)
qed (simp add: pumped_def)

section \<open>Properties\<close>

text \<open>
  C31. The screen relay is transparent: however its streams interleave, the client reads from the
  frames of each channel exactly the bytes that channel's device socket delivered, and each
  device socket is written exactly the payloads the client tagged for it, up to the event that
  ends the relay; bytes for a channel that does not exist go nowhere.
\<close>

theorem screen_relay_transparent:
  assumes "pump r es = Inr (sent, written, rest)" and "device_tags es"
  shows "received ch sent = device_stream ch (pumped es) \<and>
    written ch = (if ch \<in> set (dict_keys (rl_writers r)) then client_stream ch (pumped es) else []) \<and>
    rest = drop (Suc (length (pumped es))) es"
proof -
  have p: "pump_loop (dict_keys (rl_writers r)) es (\<lambda>ch. []) = (sent, written, rest)"
    using assms(1) by (auto simp: pump_def split: if_splits)
  show ?thesis
    using pump_loop_frames [OF assms(2), of ch "dict_keys (rl_writers r)" "\<lambda>ch. []"]
      pump_loop_written [of "dict_keys (rl_writers r)" es "\<lambda>ch. []" ch]
      pump_loop_rest [of "dict_keys (rl_writers r)" es "\<lambda>ch. []"]
    by (simp add: p)
qed

definition sample_events :: "pump_event list" where
  "sample_events = [FromDevice 0 ''vi'', FromClient (Binary [char_of (1::nat), CHR ''k'']), FromDevice 1 ''c'',
     FromClient (Binary [char_of (9::nat), CHR ''x'']), FromDevice 0 ''deo'', HeartbeatEnded, FromDevice 0 ''late'']"

theorem screen_relay_transparent_witness:
  "\<exists>sent written rest. pump \<lparr>rl_readers = [(0, 5), (1, 6)], rl_writers = [(0, 5), (1, 6)]\<rparr> sample_events =
      Inr (sent, written, rest) \<and> received 0 sent = ''video''"
proof -
  let ?r = "\<lparr>rl_readers = [(0, 5), (1, 6)], rl_writers = [(0, 5), (1, 6)]\<rparr> :: relay"
  obtain sent written rest where p: "pump ?r sample_events = Inr (sent, written, rest)"
    by (cases "pump ?r sample_events") (auto simp: pump_def dict_keys_def VIDEO_CHANNEL_def CONTROL_CHANNEL_def)
  have tags: "device_tags sample_events" by (simp add: sample_events_def device_tags_def)
  have "device_stream 0 (pumped sample_events) = ''video''"
    by (simp add: sample_events_def stream_simps)
  with screen_relay_transparent [OF p tags, of 0] p show ?thesis by metis
qed

text \<open>
  Opening a screen relay is all or nothing: it ends with both channels connected, or, whatever
  failed, with none on the books and every connection it had accepted closed again.
\<close>

theorem relay_opens_both_or_none:
  "case open_relay acc close (r, w) of
     (Inr u, (r', w')) \<Rightarrow> dict_keys (rl_readers r') = [VIDEO_CHANNEL, CONTROL_CHANNEL] \<and>
       rl_writers r' = rl_readers r'
   | (Inl e, (r', w')) \<Rightarrow> r' = closed_relay \<and>
       (let w0 = fold close (map snd (rl_writers r)) w
        in (acc w0 = (Inl e, w')) \<or>
          (\<exists>c w1 w2. acc w0 = (Inr c, w1) \<and> acc w1 = (Inl e, w2) \<and> w' = close c w2))"
  by (auto simp: open_relay_def close_relay_def closed_relay_def io_bind_app io_catch_app dict_set_def
      dict_keys_def VIDEO_CHANNEL_def CONTROL_CHANNEL_def split: prod.splits sum.splits)

end
