(* ===== verification/JsonTrip.thy ===== *)
theory JsonTrip
  imports Json
begin

text \<open>
  What \<open>json.dumps\<close> writes, with the default separators or with an indent of two, \<open>json.loads\<close>
  reads back as the same value: for every value the reader can produce, and for every value
  the sources build (\<open>json_ok\<close>: the keys of an object distinct, a float a float literal).
\<close>

section \<open>Strings\<close>

lemma hex_digit_char: "d < 16 \<Longrightarrow> hex_digit (hex_char d) = Some d"
  by (simp add: hex_digit_def hex_char_def code_def)

lemma hex4_escape:
  "code c < 32 \<Longrightarrow> hex4 (CHR ''0'') (CHR ''0'') (hex_char (code c div 16)) (hex_char (code c mod 16)) = Some (code c)"
  by (simp add: hex4_def hex_digit_char) (simp add: hex_digit_def code_def)

lemma utf8_low: "code c < 128 \<Longrightarrow> utf8 (code c) = [c]"
  by (simp add: utf8_def code_def)

lemma read_string_unicode:
  "hex4 h1 h2 h3 h4 = Some u \<Longrightarrow> u < 55296 \<Longrightarrow>
   read_string (chr_backslash # CHR ''u'' # h1 # h2 # h3 # h4 # r) =
     map_option (\<lambda>(s, r). (utf8 u @ s, r)) (read_string r)"
  by (subst read_string.simps)
     (simp add: chr_backslash_def chr_dquote_def code_def del: read_string.simps split: list.split)

lemma read_string_short:
  "short_escape e = Some d \<Longrightarrow> e \<noteq> CHR ''u'' \<Longrightarrow>
   read_string (chr_backslash # e # r) = map_option (\<lambda>(s, r). (d # s, r)) (read_string r)"
  by (simp add: chr_backslash_def chr_dquote_def code_def)

lemma read_string_plain:
  "32 \<le> code c \<Longrightarrow> c \<noteq> chr_dquote \<Longrightarrow> c \<noteq> chr_backslash \<Longrightarrow>
   read_string (c # r) = map_option (\<lambda>(s, r). (c # s, r)) (read_string r)"
  by simp

lemma short_escapes:
  "short_escape chr_dquote = Some chr_dquote"
  "short_escape chr_backslash = Some chr_backslash"
  "short_escape (CHR ''b'') = Some (CHR 0x08)"
  "short_escape (CHR ''f'') = Some (CHR 0x0C)"
  "short_escape (CHR ''n'') = Some chr_nl"
  "short_escape (CHR ''r'') = Some chr_cr"
  "short_escape (CHR ''t'') = Some chr_tab"
  by (simp_all add: short_escape_def chr_defs)

lemma code_inj: "code c = code d \<Longrightarrow> c = d"
  by (simp add: code_def)

definition escaped_short :: "char list" where
  "escaped_short = [chr_dquote, chr_backslash, CHR 0x08, CHR 0x0C, chr_nl, chr_cr, chr_tab]"

lemma dump_char_rest:
  assumes "c \<notin> set escaped_short"
  shows "dump_char c = (if code c < 32
      then [chr_backslash, CHR ''u'', CHR ''0'', CHR ''0'', hex_char (code c div 16),
            hex_char (code c mod 16)]
      else [c])"
proof -
  have "code c \<noteq> 8" using assms code_inj [of c "CHR 0x08"] by (auto simp: escaped_short_def code_def)
  moreover have "code c \<noteq> 12"
    using assms code_inj [of c "CHR 0x0C"] by (auto simp: escaped_short_def code_def)
  ultimately show ?thesis using assms by (simp add: dump_char_def escaped_short_def)
qed

lemma dump_char_escapes:
  "dump_char chr_dquote = [chr_backslash, chr_dquote]"
  "dump_char chr_backslash = [chr_backslash, chr_backslash]"
  "dump_char (CHR 0x08) = [chr_backslash, CHR ''b'']"
  "dump_char (CHR 0x0C) = [chr_backslash, CHR ''f'']"
  "dump_char chr_nl = [chr_backslash, CHR ''n'']"
  "dump_char chr_cr = [chr_backslash, CHR ''r'']"
  "dump_char chr_tab = [chr_backslash, CHR ''t'']"
  by (simp_all add: dump_char_def chr_defs code_def)

lemma quote_not_u: "chr_dquote \<noteq> CHR ''u''" "chr_backslash \<noteq> CHR ''u''"
  by (simp_all add: chr_defs)

lemma escaped_char:
  assumes "c \<in> set escaped_short"
  shows "\<exists>e. dump_char c = [chr_backslash, e] \<and> short_escape e = Some c \<and> e \<noteq> CHR ''u''"
proof -
  have "c = chr_dquote \<or> c = chr_backslash \<or> c = CHR 0x08 \<or> c = CHR 0x0C \<or> c = chr_nl \<or>
      c = chr_cr \<or> c = chr_tab"
    using assms by (simp add: escaped_short_def)
  then show ?thesis
    by (elim disjE; hypsubst; simp add: dump_char_escapes short_escapes quote_not_u)
qed

lemma read_dump_char:
  "read_string (dump_char c @ r) = map_option (\<lambda>(s, r). (c # s, r)) (read_string r)"
proof (cases "c \<in> set escaped_short")
  case True
  then obtain e where "dump_char c = [chr_backslash, e]" "short_escape e = Some c" "e \<noteq> CHR ''u''"
    using escaped_char by blast
  then show ?thesis
    using read_string_short [of e c r] by (simp del: read_string.simps)
next
  case False
  show ?thesis
  proof (cases "code c < 32")
    case True
    then show ?thesis
      using False by (simp add: dump_char_rest read_string_unicode [OF hex4_escape] utf8_low
          del: read_string.simps)
  next
    case 32: False
    then show ?thesis
      using False by (simp add: dump_char_rest read_string_plain escaped_short_def
          del: read_string.simps)
  qed
qed

lemma read_dump_chars: "read_string (concat (map dump_char s) @ chr_dquote # r) = Some (s, r)"
proof (induction s)
  case (Cons c s)
  then show ?case by (simp add: read_dump_char del: read_string.simps)
qed simp

lemma dump_string_cons: "dump_string s @ r = chr_dquote # concat (map dump_char s) @ chr_dquote # r"
  by (simp add: dump_string_def)

lemma read_dump_string: "read_value (Suc n) (dump_string s @ r) = Some (JStr s, r)"
  by (simp add: dump_string_cons read_dump_chars del: read_string.simps)

section \<open>Numbers\<close>

text \<open>A literal ends where no digit, point or exponent follows.\<close>

definition ends_number :: "string \<Rightarrow> bool" where
  "ends_number r \<longleftrightarrow>
     (case r of [] \<Rightarrow> True
      | c # _ \<Rightarrow> \<not> is_digit c \<and> c \<noteq> CHR ''.'' \<and> c \<noteq> CHR ''e'' \<and> c \<noteq> CHR ''E'')"

lemma ends_number_simps [simp]:
  "ends_number []"
  "ends_number (c # r) \<longleftrightarrow> \<not> is_digit c \<and> c \<noteq> CHR ''.'' \<and> c \<noteq> CHR ''e'' \<and> c \<noteq> CHR ''E''"
  by (simp_all add: ends_number_def)

definition all_digits :: "string \<Rightarrow> bool" where
  "all_digits ds \<longleftrightarrow> ds \<noteq> [] \<and> list_all is_digit ds"

definition no_digit :: "string \<Rightarrow> bool" where
  "no_digit r \<longleftrightarrow> (case r of [] \<Rightarrow> True | c # _ \<Rightarrow> \<not> is_digit c)"

lemma no_digit_simps [simp]: "no_digit []" "no_digit (c # r) \<longleftrightarrow> \<not> is_digit c"
  by (simp_all add: no_digit_def)

lemma ends_no_digit: "ends_number r \<Longrightarrow> no_digit r"
  by (cases r) simp_all

lemma take_digits:
  "list_all is_digit ds \<Longrightarrow> no_digit r \<Longrightarrow> takeWhile is_digit (ds @ r) = ds"
  by (cases r) (auto simp: list_all_iff takeWhile_append2 takeWhile_eq_all_conv)

lemma drop_digits:
  "list_all is_digit ds \<Longrightarrow> no_digit r \<Longrightarrow> dropWhile is_digit (ds @ r) = r"
  by (cases r) (auto simp: list_all_iff dropWhile_append2)

lemma take_all_digits: "list_all is_digit ds \<Longrightarrow> takeWhile is_digit ds = ds"
  using take_digits [of ds "[]"] by simp

lemma drop_all_digits: "list_all is_digit ds \<Longrightarrow> dropWhile is_digit ds = []"
  using drop_digits [of ds "[]"] by simp

lemmas digit_runs = take_digits drop_digits take_all_digits drop_all_digits

definition int_part :: "string \<Rightarrow> bool" where
  "int_part ds \<longleftrightarrow> ds = ''0'' \<or> all_digits ds \<and> hd ds \<noteq> CHR ''0''"

definition frac_part :: "string \<Rightarrow> bool" where
  "frac_part x \<longleftrightarrow> x = [] \<or> (\<exists>ds. x = CHR ''.'' # ds \<and> all_digits ds)"

definition exp_part :: "string \<Rightarrow> bool" where
  "exp_part x \<longleftrightarrow>
     x = [] \<or> (\<exists>c sg ds. x = c # sg @ ds \<and> (c = CHR ''e'' \<or> c = CHR ''E'')
                  \<and> sg \<in> {[], ''-'', ''+''} \<and> all_digits ds)"

lemma digit_chars: "is_digit c \<Longrightarrow> c \<noteq> CHR ''-'' \<and> c \<noteq> CHR ''+'' \<and> c \<noteq> CHR ''.'' \<and> c \<noteq> CHR ''e'' \<and> c \<noteq> CHR ''E''"
  by (auto simp: is_digit_def code_def)

lemma read_frac_back:
  assumes "frac_part x" "no_digit r" "x = [] \<longrightarrow> (case r of [] \<Rightarrow> True | c # _ \<Rightarrow> c \<noteq> CHR ''.'')"
  shows "read_frac (x @ r) = (x, r)"
  using assms by (auto simp: frac_part_def all_digits_def read_frac_def digit_runs list_all_iff
      split: list.splits)

lemma read_exp_back:
  assumes "exp_part x" "ends_number r"
  shows "read_exp (x @ r) = (x, r)"
proof (cases "x = []")
  case True
  then show ?thesis using assms by (cases r) (simp_all add: read_exp_def)
next
  case False
  then obtain c sg ds where x: "x = c # sg @ ds" "c = CHR ''e'' \<or> c = CHR ''E''"
      "sg \<in> {[], ''-'', ''+''}" "ds \<noteq> []" "list_all is_digit ds"
    using assms by (auto simp: exp_part_def all_digits_def)
  then obtain d ds' where d: "ds = d # ds'" "is_digit d" by (cases ds) simp_all
  have t: "takeWhile is_digit (ds @ r) = ds" "dropWhile is_digit (ds @ r) = r"
    using x assms ends_no_digit by (simp_all add: take_digits drop_digits)
  show ?thesis
    using x t digit_chars [OF d(2)] d by (auto simp: read_exp_def)
qed

lemma read_number_back:
  assumes "int_part ds" "frac_part x" "exp_part y" "ends_number r"
  shows "read_number ((if neg then ''-'' else []) @ ds @ x @ y @ r) =
    (if x = [] \<and> y = []
     then map_option (\<lambda>n. (JInt n, r)) (parse_int ((if neg then ''-'' else []) @ ds))
     else Some (JFloat ((if neg then ''-'' else []) @ ds @ x @ y), r))"
proof -
  have xy: "no_digit (x @ y @ r)"
    using assms digit_chars ends_no_digit
    by (auto simp: frac_part_def exp_part_def is_digit_def code_def)
  have y: "no_digit (y @ r)"
    using assms ends_no_digit by (auto simp: exp_part_def is_digit_def code_def)
  have yr: "case y @ r of [] \<Rightarrow> True | c # _ \<Rightarrow> c \<noteq> CHR ''.''"
    using assms by (auto simp: exp_part_def split: list.splits)
  have f: "read_frac (x @ y @ r) = (x, y @ r)"
    using read_frac_back [OF assms(2) y] yr by simp
  have e: "read_exp (y @ r) = (y, r)" using read_exp_back [OF assms(3,4)] .
  obtain d ds' where d: "ds = d # ds'" "d \<noteq> CHR ''-''"
    using assms(1) digit_chars by (cases ds) (auto simp: int_part_def all_digits_def)
  have digits: "(if d = CHR ''0'' then [d] else takeWhile is_digit (ds @ x @ y @ r)) = ds"
    using assms(1) xy d by (auto simp: int_part_def all_digits_def digit_runs)
  show ?thesis
    using d digits f e by (auto simp: read_number_def Let_def)
qed

text \<open>A float of the model is its literal; \<open>float_ok\<close> says that the text is one.\<close>

definition float_ok :: "string \<Rightarrow> bool" where
  "float_ok f \<longleftrightarrow> read_literal f = Some (JFloat f, [])"

definition float_number :: "string \<Rightarrow> bool" where
  "float_number f \<longleftrightarrow>
     (\<exists>neg ds x y. f = (if neg then ''-'' else []) @ ds @ x @ y \<and> int_part ds \<and> frac_part x
        \<and> exp_part y \<and> \<not> (x = [] \<and> y = []))"

lemma read_frac_part: "read_frac s = (x, r) \<Longrightarrow> frac_part x \<and> s = x @ r"
  by (auto simp: read_frac_def frac_part_def all_digits_def list_all_iff dest: set_takeWhileD
      split: list.splits if_splits)

lemma read_exp_part:
  assumes "read_exp s = (x, r)"
  shows "exp_part x \<and> s = x @ r"
proof (cases s)
  case Nil
  then show ?thesis using assms by (simp add: read_exp_def exp_part_def)
next
  case (Cons c cs)
  have digits: "takeWhile is_digit t \<noteq> [] \<Longrightarrow> all_digits (takeWhile is_digit t)" for t
    by (auto simp: all_digits_def list_all_iff dest: set_takeWhileD)
  have plain: "exp_part (c # takeWhile is_digit cs)"
    if "c = CHR ''e'' \<or> c = CHR ''E''" "takeWhile is_digit cs \<noteq> []"
    using that digits [of cs] unfolding exp_part_def
    by (intro disjI2 exI [of _ c] exI [of _ "[]"] exI [of _ "takeWhile is_digit cs"]) simp
  have signed: "exp_part (c # d # takeWhile is_digit ds)"
    if "c = CHR ''e'' \<or> c = CHR ''E''" "d = CHR ''-'' \<or> d = CHR ''+''" "takeWhile is_digit ds \<noteq> []" for d ds
    using that digits [of ds] unfolding exp_part_def
    by (intro disjI2 exI [of _ c] exI [of _ "[d]"] exI [of _ "takeWhile is_digit ds"]) auto
  have none: "exp_part []" by (simp add: exp_part_def)
  show ?thesis
  proof (cases "c = CHR ''e'' \<or> c = CHR ''E''")
    case e: True
    show ?thesis
    proof (cases cs)
      case Nil
      then show ?thesis using assms e none Cons by (auto simp: read_exp_def)
    next
      case ds: (Cons d ds)
      consider "(d = CHR ''-'' \<or> d = CHR ''+'') \<and> takeWhile is_digit ds \<noteq> []"
        | "\<not> ((d = CHR ''-'' \<or> d = CHR ''+'') \<and> takeWhile is_digit ds \<noteq> [])" "takeWhile is_digit cs \<noteq> []"
        | "\<not> ((d = CHR ''-'' \<or> d = CHR ''+'') \<and> takeWhile is_digit ds \<noteq> [])" "takeWhile is_digit cs = []"
        by blast
      then show ?thesis
      proof cases
        case 1
        then have "x = c # d # takeWhile is_digit ds \<and> r = dropWhile is_digit ds"
          using assms e Cons ds by (auto simp: read_exp_def)
        then show ?thesis using signed e 1 Cons ds by auto
      next
        case 2
        have "read_exp (c # d # ds) = (c # takeWhile is_digit (d # ds), dropWhile is_digit (d # ds))"
          using e 2 unfolding ds by (simp only: read_exp_def list.case if_True if_False simp_thms)
        then have "x = c # takeWhile is_digit cs \<and> r = dropWhile is_digit cs"
          using assms Cons ds by simp
        then show ?thesis using plain e 2 Cons by auto
      next
        case 3
        have "read_exp (c # d # ds) = ([], c # d # ds)"
          using e 3 unfolding ds by (simp only: read_exp_def list.case if_True if_False simp_thms)
        then have "x = [] \<and> r = s" using assms Cons ds by simp
        then show ?thesis using none by simp
      qed
    qed
  next
    case False
    then show ?thesis using assms none Cons by (simp add: read_exp_def)
  qed
qed

lemma read_number_float:
  assumes "read_number s = Some (JFloat f, r)"
  shows "float_number f"
proof -
  define neg where "neg = (case s of c # _ \<Rightarrow> c = CHR ''-'' | [] \<Rightarrow> False)"
  define body where "body = (if neg then tl s else s)"
  define ds where "ds = (case body of
      c # cs \<Rightarrow> if c = CHR ''0'' then [c] else takeWhile is_digit body | [] \<Rightarrow> [])"
  obtain x r1 where x: "read_frac (drop (length ds) body) = (x, r1)" by fastforce
  obtain y r2 where y: "read_exp r1 = (y, r2)" by fastforce
  have f: "ds \<noteq> []" "\<not> (x = [] \<and> y = [])" "f = (if neg then ''-'' else []) @ ds @ x @ y"
    using assms x y unfolding read_number_def Let_def neg_def [symmetric] body_def [symmetric]
      ds_def [symmetric]
    by (auto split: if_splits)
  have "int_part ds"
  proof (cases body)
    case Nil
    then show ?thesis using f by (simp add: ds_def)
  next
    case (Cons c cs)
    then show ?thesis
      using f(1) by (auto simp: ds_def int_part_def all_digits_def list_all_iff
          dest: set_takeWhileD split: if_splits)
  qed
  then show ?thesis
    using f read_frac_part [OF x] read_exp_part [OF y] unfolding float_number_def by blast
qed

lemma float_number_back:
  assumes "float_number f" "ends_number r"
  shows "read_number (f @ r) = Some (JFloat f, r)"
proof -
  obtain neg ds x y where f: "f = (if neg then ''-'' else []) @ ds @ x @ y" "int_part ds"
      "frac_part x" "exp_part y" "\<not> (x = [] \<and> y = [])"
    using assms(1) by (auto simp: float_number_def)
  then show ?thesis using read_number_back [OF f(2-4) assms(2), of neg] by auto
qed

lemma float_number_start:
  assumes "float_number f"
  shows "\<exists>c t. f = c # t \<and> (is_digit c \<or> c = CHR ''-'' \<and> (\<exists>d u. t = d # u \<and> is_digit d))"
proof -
  obtain neg ds t where f: "f = (if neg then ''-'' else []) @ ds @ t" "int_part ds"
    using assms by (auto simp: float_number_def)
  then obtain d ds' where "ds = d # ds'" "is_digit d"
    by (cases ds) (auto simp: int_part_def all_digits_def is_digit_def code_def)
  then show ?thesis using f by auto
qed

lemma digit_not_letter:
  "is_digit c \<Longrightarrow> CHR ''n'' \<noteq> c \<and> CHR ''t'' \<noteq> c \<and> CHR ''f'' \<noteq> c \<and> CHR ''N'' \<noteq> c \<and> CHR ''I'' \<noteq> c
     \<and> CHR ''-'' \<noteq> c"
  by (auto simp: is_digit_def code_def)

lemma literal_is_number:
  assumes "s = c # t" "is_digit c \<or> c = CHR ''-'' \<and> (\<exists>d u. t = d # u \<and> is_digit d)"
  shows "read_literal s = read_number s"
proof (cases "is_digit c")
  case True
  then show ?thesis
    using digit_not_letter [OF True] assms(1) by (simp add: read_literal_def)
next
  case False
  then obtain d u where "s = CHR ''-'' # d # u" "is_digit d" using assms by blast
  then show ?thesis using digit_not_letter [of d] by (simp add: read_literal_def)
qed

lemma float_number_literal:
  assumes "float_number f" "ends_number r"
  shows "read_literal (f @ r) = Some (JFloat f, r)"
proof -
  obtain c t where "f = c # t" "is_digit c \<or> c = CHR ''-'' \<and> (\<exists>d u. t = d # u \<and> is_digit d)"
    using float_number_start [OF assms(1)] by blast
  then have "read_literal (f @ r) = read_number (f @ r)"
    by (intro literal_is_number [of _ c "t @ r"]) auto
  then show ?thesis using float_number_back [OF assms] by simp
qed

lemma read_literal_float:
  assumes "read_literal s = Some (JFloat f, r)"
  shows "f = ''NaN'' \<or> f = ''Infinity'' \<or> f = ''-Infinity'' \<or> float_number f"
  using assms read_number_float by (auto simp: read_literal_def split: if_splits)

lemma float_cases:
  "float_ok f \<longleftrightarrow> f = ''NaN'' \<or> f = ''Infinity'' \<or> f = ''-Infinity'' \<or> float_number f"
proof
  assume "float_ok f"
  then show "f = ''NaN'' \<or> f = ''Infinity'' \<or> f = ''-Infinity'' \<or> float_number f"
    using read_literal_float by (simp add: float_ok_def)
next
  assume "f = ''NaN'' \<or> f = ''Infinity'' \<or> f = ''-Infinity'' \<or> float_number f"
  then show "float_ok f"
  proof (elim disjE)
    assume "float_number f"
    then show ?thesis using float_number_literal [of f "[]"] by (simp add: float_ok_def)
  qed (simp_all add: float_ok_def read_literal_def)
qed

lemma read_float:
  assumes "float_ok f" "ends_number r"
  shows "read_literal (f @ r) = Some (JFloat f, r)"
proof -
  consider "f = ''NaN''" | "f = ''Infinity''" | "f = ''-Infinity''" | (number) "float_number f"
    using assms(1) float_cases by blast
  then show ?thesis
  proof cases
    case number
    then show ?thesis using float_number_literal assms(2) by simp
  qed (simp_all add: read_literal_def)
qed

lemma float_start:
  assumes "float_ok f"
  shows "\<exists>c t. f = c # t \<and> c \<noteq> chr_dquote \<and> c \<noteq> CHR ''['' \<and> c \<noteq> CHR ''{'' \<and> c \<noteq> CHR '']''
    \<and> c \<noteq> CHR ''}'' \<and> \<not> json_ws c"
  using assms float_number_start
  by (fastforce simp: float_cases is_digit_def code_def json_ws_def chr_dquote_def)

lemma show_nat_int_part: "int_part (show_nat n)"
proof (induction n rule: show_nat.induct)
  case (1 n)
  have digits: "all_digits (show_nat n)" by (simp add: all_digits_def list_all_iff show_nat_digits)
  show ?case
  proof (cases "n < 10")
    case True
    then have n: "show_nat n = [digit_char n]" by (subst show_nat.simps) simp
    have "n = 0" if "digit_char n = CHR ''0''"
      using arg_cong [OF that, of code] True by (simp add: digit_char_def) (simp add: code_def)
    then show ?thesis
      using digits n by (cases "n = 0") (auto simp: int_part_def digit_char_def)
  next
    case False
    have "show_nat (n div 10) \<noteq> ''0''"
    proof
      assume "show_nat (n div 10) = ''0''"
      then have "int (n div 10) = 0" using foldl_show_nat [of "n div 10"] by (simp add: digit_val_def code_def)
      then show False using False by simp
    qed
    then have "hd (show_nat (n div 10)) \<noteq> CHR ''0''"
      using "1.IH" False by (auto simp: int_part_def)
    then show ?thesis
      using digits False by (simp add: int_part_def show_nat.simps [of n])
  qed
qed

lemma read_int:
  assumes "ends_number r"
  shows "read_literal (show_int i @ r) = Some (JInt i, r)"
proof -
  have parts: "frac_part []" "exp_part []" by (simp_all add: frac_part_def exp_part_def)
  have n: "read_number (show_int i @ r) = Some (JInt i, r)"
    using read_number_back [OF show_nat_int_part parts assms, of "i < 0" "nat (if i < 0 then - i else i)"]
      parse_show_int [of i]
    by (cases "i < 0") (simp_all add: show_int_def)
  have "read_literal (show_int i @ r) = read_number (show_int i @ r)"
  proof (cases "i < 0")
    case True
    obtain d u where "show_nat (nat (- i)) = d # u" "is_digit d"
      using show_nat_hd [of "nat (- i)"] by (cases "show_nat (nat (- i))") simp_all
    then show ?thesis
      using True by (intro literal_is_number [of _ "CHR ''-''" "d # u @ r"]) (simp_all add: show_int_def)
  next
    case False
    obtain d u where "show_nat (nat i) = d # u" "is_digit d"
      using show_nat_hd [of "nat i"] by (cases "show_nat (nat i)") simp_all
    then show ?thesis
      using False by (intro literal_is_number [of _ d "u @ r"]) (simp_all add: show_int_def)
  qed
  then show ?thesis using n by simp
qed

section \<open>Values\<close>

text \<open>
  Both writers put white space of their own after an opening bracket, after a comma and
  before a closing bracket, and are otherwise the same; \<open>render\<close> has these three as
  arguments, by depth.
\<close>

fun render :: "(nat \<Rightarrow> string) \<Rightarrow> (nat \<Rightarrow> string) \<Rightarrow> (nat \<Rightarrow> string) \<Rightarrow> nat \<Rightarrow> json \<Rightarrow> string" where
  "render a b c k (JArr vs) =
     (if vs = [] then ''[]''
      else ''['' @ a k @ join ('','' @ c k) (map (render a b c (Suc k)) vs) @ b k @ '']'')"
| "render a b c k (JObj ms) =
     (if ms = [] then ''{}''
      else ''{'' @ a k
           @ join ('','' @ c k)
               (map (\<lambda>(key, v). dump_string key @ '': '' @ render a b c (Suc k) v) ms)
           @ b k @ ''}'')"
| "render a b c k v = json_dumps v"

lemma dumps_render: "json_dumps v = render (\<lambda>_. []) (\<lambda>_. []) (\<lambda>_. '' '') k v"
proof (induction v arbitrary: k)
  case (JArr vs)
  then have "map json_dumps vs = map (render (\<lambda>_. []) (\<lambda>_. []) (\<lambda>_. '' '') (Suc k)) vs" by simp
  then show ?case by (simp del: map_eq_conv)
next
  case (JObj ms)
  have "map (\<lambda>(key, v). dump_string key @ '': '' @ json_dumps v) ms =
      map (\<lambda>(key, v). dump_string key @ '': '' @ render (\<lambda>_. []) (\<lambda>_. []) (\<lambda>_. '' '') (Suc k) v) ms"
    by (rule map_cong) (auto simp: JObj.IH snds.simps)
  then show ?case by (simp del: map_eq_conv)
qed simp_all

lemma indent_render:
  "json_dumps_indent k v = render (\<lambda>k. indent (Suc k)) indent (\<lambda>k. indent (Suc k)) k v"
proof (induction v arbitrary: k)
  case (JArr vs)
  then have "map (json_dumps_indent (Suc k)) vs =
      map (render (\<lambda>k. indent (Suc k)) indent (\<lambda>k. indent (Suc k)) (Suc k)) vs"
    by simp
  then show ?case by (simp del: map_eq_conv)
next
  case (JObj ms)
  have "map (\<lambda>(key, v). dump_string key @ '': '' @ json_dumps_indent (Suc k) v) ms =
      map (\<lambda>(key, v). dump_string key @ '': '' @
        render (\<lambda>k. indent (Suc k)) indent (\<lambda>k. indent (Suc k)) (Suc k) v) ms"
    by (rule map_cong) (auto simp: JObj.IH snds.simps)
  then show ?case by (simp del: map_eq_conv)
qed simp_all

fun json_ok :: "json \<Rightarrow> bool" where
  "json_ok (JFloat f) \<longleftrightarrow> float_ok f"
| "json_ok (JArr vs) \<longleftrightarrow> list_all json_ok vs"
| "json_ok (JObj ms) \<longleftrightarrow> distinct (map fst ms) \<and> list_all (\<lambda>(k, v). json_ok v) ms"
| "json_ok v \<longleftrightarrow> True"

definition blank :: "string \<Rightarrow> bool" where
  "blank w \<longleftrightarrow> list_all json_ws w"

lemma skip_blank: "blank w \<Longrightarrow> skip_ws (w @ s) = skip_ws s"
  by (induction w) (auto simp: blank_def skip_ws_def)

lemma skip_start [simp]: "\<not> json_ws c \<Longrightarrow> skip_ws (c # s) = c # s"
  by (simp add: skip_ws_def)

lemma ws_chars [simp]:
  "\<not> json_ws (CHR '']'')" "\<not> json_ws (CHR ''}'')" "\<not> json_ws (CHR '','')" "\<not> json_ws (CHR '':'')"
  "json_ws (CHR '' '')"
  by (simp_all add: json_ws_def code_def)

lemma blank_ends: "blank w \<Longrightarrow> ends_number s \<Longrightarrow> ends_number (w @ s)"
  by (cases w) (auto simp: blank_def json_ws_def is_digit_def code_def)

text \<open>The first character of a value is neither white space nor a closing bracket.\<close>

definition value_start :: "char \<Rightarrow> bool" where
  "value_start c \<longleftrightarrow> \<not> json_ws c \<and> c \<noteq> CHR '']'' \<and> c \<noteq> CHR ''}''"

lemma render_start:
  assumes "json_ok v"
  shows "\<exists>c t. render a b c' k v = c # t \<and> value_start c"
proof (cases v)
  case (JInt i)
  obtain d u where "show_nat (nat (if i < 0 then - i else i)) = d # u" "is_digit d"
    using show_nat_hd [of "nat (if i < 0 then - i else i)"]
    by (cases "show_nat (nat (if i < 0 then - i else i))") simp_all
  then show ?thesis
    by (cases "i < 0") (auto simp: JInt show_int_def value_start_def json_ws_def is_digit_def code_def)
next
  case (JFloat f)
  then show ?thesis using assms float_start [of f] by (auto simp: value_start_def)
qed (auto simp: value_start_def json_ws_def code_def dump_string_def chr_dquote_def)

text \<open>The text \<open>t\<close> reads as the value \<open>v\<close>, with fuel of twice its length, whatever follows.\<close>

definition reads :: "string \<Rightarrow> json \<Rightarrow> bool" where
  "reads t v \<longleftrightarrow> (\<exists>c u. t = c # u \<and> value_start c) \<and>
     (\<forall>n r. ends_number r \<longrightarrow> 2 * length t \<le> n \<longrightarrow> read_value n (t @ r) = Some (v, r))"

lemma readsD:
  assumes "reads t v"
  shows "ends_number r \<Longrightarrow> 2 * length t \<le> n \<Longrightarrow> read_value n (t @ r) = Some (v, r)"
    and "skip_ws (t @ r) = t @ r"
    and "\<exists>c u. t = c # u \<and> value_start c"
  using assms by (auto simp: reads_def value_start_def)

lemma join_more: "vs \<noteq> [] \<Longrightarrow> join sep (x # vs) = x @ sep @ join sep vs"
  by (cases vs) simp_all

lemma read_items_back:
  assumes "vs \<noteq> []" "\<forall>v \<in> set vs. reads (R v) v" "blank s" "blank w"
    and "2 * length (join ('','' @ s) (map R vs)) + 1 \<le> n"
  shows "read_items n (join ('','' @ s) (map R vs) @ w @ CHR '']'' # r) = Some (vs, r)"
  using assms
proof (induction vs arbitrary: n)
  case (Cons v vs)
  then obtain m where n: "n = Suc m" by (cases n) simp_all
  have v: "reads (R v) v" using Cons.prems by simp
  show ?case
  proof (cases "vs = []")
    case True
    have "read_value m (R v @ w @ CHR '']'' # r) = Some (v, w @ CHR '']'' # r)"
      using Cons.prems True n blank_ends [of w "CHR '']'' # r"]
      by (intro readsD(1) [OF v]) (simp_all add: is_digit_def code_def)
    then show ?thesis
      using True n Cons.prems(4) by (simp add: skip_blank)
  next
    case False
    let ?t = "join ('','' @ s) (map R vs)"
    let ?rest = "?t @ w @ CHR '']'' # r"
    have j: "join ('','' @ s) (map R (v # vs)) = R v @ '','' @ s @ ?t"
      using False join_more [of "map R vs" "'','' @ s" "R v"] by simp
    have rv: "read_value m (R v @ CHR '','' # s @ ?rest) = Some (v, CHR '','' # s @ ?rest)"
      using Cons.prems(5) j n
      by (intro readsD(1) [OF v]) (simp_all add: is_digit_def code_def)
    obtain v' vs' where vs: "vs = v' # vs'" using False by (cases vs) simp_all
    obtain c u where "R v' = c # u" "value_start c"
      using readsD(3) [of "R v'" v'] Cons.prems(2) vs by auto
    then have sk: "skip_ws (s @ ?rest) = ?rest"
      using Cons.prems(3) vs by (cases vs') (simp_all add: skip_blank value_start_def)
    have IH: "read_items m ?rest = Some (vs, r)"
      using Cons.prems j n False by (intro Cons.IH) simp_all
    show ?thesis using rv sk IH n j by simp
  qed
qed simp

lemma dict_set_new: "k \<notin> fst ` set acc \<Longrightarrow> dict_set k v acc = acc @ [(k, v)]"
  unfolding dict_set_def by (induction acc) auto

lemma read_members_back:
  assumes "ms \<noteq> []" "\<forall>(k, v) \<in> set ms. reads (R v) v" "blank s" "blank w"
    and "distinct (map fst (acc @ ms))"
    and "2 * length (join ('','' @ s) (map (\<lambda>(k, v). dump_string k @ '': '' @ R v) ms)) + 1 \<le> n"
  shows "read_members n acc (join ('','' @ s) (map (\<lambda>(k, v). dump_string k @ '': '' @ R v) ms)
      @ w @ CHR ''}'' # r) = Some (acc @ ms, r)"
  using assms
proof (induction ms arbitrary: n acc)
  case (Cons m ms)
  let ?e = "\<lambda>(k, v). dump_string k @ '': '' @ R v"
  obtain k v where m: "m = (k, v)" by (cases m)
  obtain n' where n: "n = Suc n'" using Cons.prems by (cases n) simp_all
  have v: "reads (R v) v" using Cons.prems m by simp
  have new: "dict_set k v acc = acc @ [(k, v)]"
    using Cons.prems(5) m by (intro dict_set_new) (auto simp: image_iff)
  have key: "read_string (concat (map dump_char k) @ chr_dquote # t) = Some (k, t)" for t
    by (rule read_dump_chars)
  have colon: "skip_ws (CHR '' '' # R v @ t) = R v @ t" for t
    using readsD(2) [OF v] by (simp add: skip_ws_def)
  show ?case
  proof (cases "ms = []")
    case True
    have "read_value n' (R v @ w @ CHR ''}'' # r) = Some (v, w @ CHR ''}'' # r)"
      using Cons.prems True n m blank_ends [of w "CHR ''}'' # r"]
      by (intro readsD(1) [OF v]) (simp_all add: is_digit_def code_def)
    then show ?thesis
      using True n m new Cons.prems(4) key colon
      by (simp add: dump_string_def skip_blank del: read_string.simps)
  next
    case False
    let ?t = "join ('','' @ s) (map ?e ms)"
    let ?rest = "?t @ w @ CHR ''}'' # r"
    have j: "join ('','' @ s) (map ?e (m # ms)) = dump_string k @ '': '' @ R v @ '','' @ s @ ?t"
      using False join_more [of "map ?e ms" "'','' @ s" "?e m"] m by simp
    have rv: "read_value n' (R v @ CHR '','' # s @ ?rest) = Some (v, CHR '','' # s @ ?rest)"
      using Cons.prems(6) j n
      by (intro readsD(1) [OF v]) (simp_all add: is_digit_def code_def)
    obtain k' v' ms' where ms: "ms = (k', v') # ms'" using False by (cases ms) auto
    have sk: "skip_ws (s @ ?rest) = ?rest"
      using Cons.prems(3) ms
      by (cases ms') (simp_all add: skip_blank dump_string_def json_ws_def chr_dquote_def code_def)
    have IH: "read_members n' (acc @ [(k, v)]) ?rest = Some ((acc @ [(k, v)]) @ ms, r)"
      using Cons.prems j n m False by (intro Cons.IH) (simp_all add: dump_string_def)
    show ?thesis
      using rv sk IH n m new key colon j
      by (simp add: dump_string_def del: read_string.simps)
  qed
qed simp

lemma reads_leaf:
  assumes "t = c # u" "value_start c" "c \<noteq> chr_dquote" "c \<noteq> CHR ''[''" "c \<noteq> CHR ''{''"
    and "\<And>r. ends_number r \<Longrightarrow> read_literal (t @ r) = Some (v, r)"
  shows "reads t v"
proof -
  have "read_value n (t @ r) = Some (v, r)" if "ends_number r" "2 * length t \<le> n" for n r
    using assms that by (cases n) auto
  then show ?thesis using assms(1,2) by (simp add: reads_def)
qed

lemma reads_string: "reads (dump_string s) (JStr s)"
proof -
  have "read_value n (dump_string s @ r) = Some (JStr s, r)" if "2 * length (dump_string s) \<le> n" for n r
  proof -
    have "n \<noteq> 0" using that by (simp add: dump_string_def)
    then obtain m where "n = Suc m" by (cases n) simp_all
    then show ?thesis by (simp only: read_dump_string)
  qed
  then show ?thesis
    by (simp add: reads_def) (simp add: dump_string_def value_start_def json_ws_def chr_dquote_def code_def)
qed

lemma reads_int: "reads (show_int i) (JInt i)"
proof -
  obtain c u where c: "show_int i = c # u" "is_digit c \<or> c = CHR ''-''"
  proof (cases "i < 0")
    case True
    then show ?thesis using that [of "CHR ''-''"] by (simp add: show_int_def)
  next
    case False
    then show ?thesis
      using that [of "hd (show_nat (nat i))" "tl (show_nat (nat i))"] show_nat_hd [of "nat i"]
      by (simp add: show_int_def)
  qed
  show ?thesis
    by (rule reads_leaf [OF c(1)])
       (use c(2) in \<open>auto simp: read_int value_start_def json_ws_def is_digit_def code_def chr_dquote_def\<close>)
qed

lemma reads_float:
  assumes "float_ok f"
  shows "reads f (JFloat f)"
proof -
  obtain c u where c: "f = c # u" "c \<noteq> chr_dquote" "c \<noteq> CHR ''[''" "c \<noteq> CHR ''{''" "value_start c"
    using float_start [OF assms] by (auto simp: value_start_def)
  show ?thesis
    by (rule reads_leaf [OF c(1,5,2,3,4)]) (rule read_float [OF assms])
qed

lemma reads_word:
  "reads ''null'' JNull" "reads ''true'' (JBool True)" "reads ''false'' (JBool False)"
  by (rule reads_leaf, rule refl;
      simp add: read_literal_def value_start_def json_ws_def code_def chr_dquote_def)+

lemma reads_render:
  assumes "json_ok v" "\<And>k. blank (a k)" "\<And>k. blank (b k)" "\<And>k. blank (c k)"
  shows "reads (render a b c k v) v"
  using assms(1)
proof (induction v arbitrary: k)
  case (JArr vs)
  let ?R = "render a b c (Suc k)"
  have start: "\<exists>u. render a b c k (JArr vs) = CHR ''['' # u \<and> value_start (CHR ''['')"
    by (simp add: value_start_def json_ws_def code_def)
  have "read_value n (render a b c k (JArr vs) @ r) = Some (JArr vs, r)"
    if n: "2 * length (render a b c k (JArr vs)) \<le> n" for n r
  proof (cases "vs = []")
    case True
    then show ?thesis using n by (cases n) (simp_all add: chr_dquote_def)
  next
    case False
    let ?t = "join ('','' @ c k) (map ?R vs)"
    obtain m where m: "n = Suc m" "2 * length ?t + 1 \<le> m" using n False by (cases n) simp_all
    have all: "\<forall>v \<in> set vs. reads (?R v) v"
      using JArr by (simp add: list_all_iff)
    have items: "read_items m (?t @ b k @ CHR '']'' # r) = Some (vs, r)"
      by (rule read_items_back [OF False all assms(4,3) m(2)])
    obtain d u where d: "?R (hd vs) = d # u" "value_start d"
      using readsD(3) [of "?R (hd vs)" "hd vs"] all False by auto
    obtain u' where u': "?t @ b k @ CHR '']'' # r = d # u'"
      using d False by (cases vs; cases "tl vs") auto
    have sk: "skip_ws (a k @ ?t @ b k @ CHR '']'' # r) = d # u'"
      using d u' by (simp add: skip_blank [OF assms(2)] value_start_def)
    show ?thesis
      using m False items sk u' d by (simp add: chr_dquote_def value_start_def)
  qed
  then show ?case using start by (auto simp: reads_def)
next
  case (JObj ms)
  let ?R = "render a b c (Suc k)"
  let ?e = "\<lambda>(key, v). dump_string key @ '': '' @ ?R v"
  have start: "\<exists>u. render a b c k (JObj ms) = CHR ''{'' # u \<and> value_start (CHR ''{'')"
    by (simp add: value_start_def json_ws_def code_def)
  have "read_value n (render a b c k (JObj ms) @ r) = Some (JObj ms, r)"
    if n: "2 * length (render a b c k (JObj ms)) \<le> n" for n r
  proof (cases "ms = []")
    case True
    then show ?thesis using n by (cases n) (simp_all add: chr_dquote_def)
  next
    case False
    let ?t = "join ('','' @ c k) (map ?e ms)"
    obtain m where m: "n = Suc m" "2 * length ?t + 1 \<le> m" using n False by (cases n) simp_all
    have all: "\<forall>(key, v) \<in> set ms. reads (?R v) v"
      using JObj by (auto simp: list_all_iff snds.simps)
    have members: "read_members m [] (?t @ b k @ CHR ''}'' # r) = Some ([] @ ms, r)"
      using JObj.prems by (intro read_members_back [OF False all assms(4,3) _ m(2)]) simp
    obtain u' where u': "?t @ b k @ CHR ''}'' # r = chr_dquote # u'"
      using False by (cases ms; cases "tl ms") (auto simp: dump_string_def)
    have q: "\<not> json_ws chr_dquote" "chr_dquote \<noteq> CHR ''}''"
      by (simp_all add: json_ws_def chr_dquote_def code_def)
    have sk: "skip_ws (a k @ ?t @ b k @ CHR ''}'' # r) = chr_dquote # u'"
      using u' q by (simp add: skip_blank [OF assms(2)])
    show ?thesis
      using m False members sk u' q by (simp add: chr_dquote_def)
  qed
  then show ?case using start by (auto simp: reads_def)
qed (auto simp: reads_word reads_int reads_float reads_string)

lemma loads_render:
  assumes "json_ok v" "\<And>k. blank (a k)" "\<And>k. blank (b k)" "\<And>k. blank (c k)" "blank w"
  shows "json_loads (render a b c k v @ w) = Some v"
proof -
  have r: "reads (render a b c k v) v" using assms by (intro reads_render)
  have "read_value (2 * length (render a b c k v @ w) + 2) (render a b c k v @ w) = Some (v, w)"
    using blank_ends [OF assms(5), of "[]"] by (intro readsD(1) [OF r]) simp_all
  moreover have "skip_ws w = []" using skip_blank [OF assms(5), of "[]"] by (simp add: skip_ws_def)
  ultimately show ?thesis by (simp add: json_loads_def readsD(2) [OF r])
qed

lemma loads_dumps: "json_ok v \<Longrightarrow> json_loads (json_dumps v) = Some v"
  using loads_render [of v "\<lambda>_. []" "\<lambda>_. []" "\<lambda>_. '' ''" "[]" 0]
  by (simp add: blank_def flip: dumps_render)

lemma blank_indent [simp]: "blank (indent k)"
  by (simp add: blank_def indent_def list_all_iff) (simp add: json_ws_def chr_nl_def code_def)

lemma loads_indented: "json_ok v \<Longrightarrow> json_loads (json_dumps_indent k v @ [chr_nl]) = Some v"
  using loads_render [of v "\<lambda>k. indent (Suc k)" indent "\<lambda>k. indent (Suc k)" "[chr_nl]" k]
  by (simp flip: indent_render) (simp add: blank_def json_ws_def chr_nl_def code_def)

section \<open>What the reader produces\<close>

lemma read_literal_ok: "read_literal s = Some (v, r) \<Longrightarrow> json_ok v"
proof (cases v)
  case (JFloat f)
  assume "read_literal s = Some (v, r)"
  then show ?thesis using JFloat read_literal_float float_cases by auto
next
  case (JArr vs)
  assume "read_literal s = Some (v, r)"
  then show ?thesis using JArr by (auto simp: read_literal_def read_number_def Let_def split: if_splits prod.splits)
next
  case (JObj ms)
  assume "read_literal s = Some (v, r)"
  then show ?thesis using JObj by (auto simp: read_literal_def read_number_def Let_def split: if_splits prod.splits)
qed simp_all

lemma dict_set_ok:
  assumes "distinct (map fst acc)" "list_all (\<lambda>(k, v). json_ok v) acc" "json_ok v"
  shows "distinct (map fst (dict_set k v acc)) \<and> list_all (\<lambda>(k, v). json_ok v) (dict_set k v acc)"
proof
  show "distinct (map fst (dict_set k v acc))"
    using assms(1) by (simp add: dict_set_def distinct_update)
  show "list_all (\<lambda>(k, v). json_ok v) (dict_set k v acc)"
    using assms(2,3) unfolding dict_set_def by (induction acc) auto
qed

lemma read_ok:
  "read_value n s = Some (v, r) \<Longrightarrow> json_ok v"
  "read_items n s = Some (vs, r) \<Longrightarrow> list_all json_ok vs"
  "read_members n acc s = Some (ms, r) \<Longrightarrow> distinct (map fst acc) \<Longrightarrow>
     list_all (\<lambda>(k, v). json_ok v) acc \<Longrightarrow>
     distinct (map fst ms) \<and> list_all (\<lambda>(k, v). json_ok v) ms"
proof (induction n s and n s and n acc s arbitrary: v r and vs r and ms r
    rule: read_value_read_items_read_members.induct)
  case (2 n s)
  then show ?case
    by (auto split: list.splits if_splits simp: read_literal_ok simp del: read_string.simps)
next
  case (4 n s)
  from "4.prems" obtain v t where v: "read_value n s = Some (v, t)" by (auto split: option.splits)
  from "4.prems" v obtain d ds where d: "skip_ws t = d # ds" by (auto split: list.splits)
  have ok: "json_ok v" using "4.IH"(1) v by blast
  show ?case
  proof (cases "d = CHR '']''")
    case True
    then show ?thesis using "4.prems" v d ok by auto
  next
    case False
    then have c: "d = CHR '',''" using "4.prems" v d by (auto split: if_splits)
    then obtain ws t' where w: "read_items n (skip_ws ds) = Some (ws, t')" "vs = v # ws"
      using "4.prems" v d by auto
    have "list_all json_ok ws" using "4.IH"(2) [OF v _ d _ c] w(1) False by blast
    then show ?thesis using w ok by simp
  qed
next
  case (6 n acc s)
  from "6.prems"(1) obtain cs where s: "s = chr_dquote # cs" by (auto split: list.splits if_splits)
  from "6.prems"(1) s obtain k t where k: "read_string cs = Some (k, t)"
    by (auto split: option.splits simp del: read_string.simps)
  from "6.prems"(1) s k obtain ds where ds: "skip_ws t = CHR '':'' # ds"
    by (auto split: list.splits if_splits simp del: read_string.simps)
  from "6.prems"(1) s k ds obtain x u where x: "read_value n (skip_ws ds) = Some (x, u)"
    by (auto split: option.splits simp del: read_string.simps)
  from "6.prems"(1) s k ds x obtain e es where e: "skip_ws u = e # es"
    by (auto split: list.splits simp del: read_string.simps)
  have "json_ok x" by (rule "6.IH"(1) [OF s _ k _ ds _ x]) simp_all
  then have set: "distinct (map fst (dict_set k x acc)) \<and> list_all (\<lambda>(k, v). json_ok v) (dict_set k x acc)"
    using "6.prems"(2,3) by (intro dict_set_ok)
  show ?case
  proof (cases "e = CHR ''}''")
    case True
    then show ?thesis using "6.prems"(1) s k ds x e set by (simp del: read_string.simps)
  next
    case False
    then have c: "e = CHR '',''" "read_members n (dict_set k x acc) (skip_ws es) = Some (ms, r)"
      using "6.prems"(1) s k ds x e by (auto simp del: read_string.simps split: if_splits)
    show ?thesis
      by (rule "6.IH"(2) [OF s _ k _ ds _ x _ e _ c(1) c(2)]) (use set False in simp_all)
  qed
qed simp_all

lemma loads_ok:
  assumes "json_loads t = Some v"
  shows "json_ok v"
proof -
  obtain r where "read_value (2 * length t + 2) (skip_ws t) = Some (v, r)"
    using assms by (auto simp: json_loads_def simp del: read_value.simps split: option.splits if_splits)
  then show ?thesis by (rule read_ok(1))
qed

lemma loads_dumps_loads: "json_loads t = Some v \<Longrightarrow> json_loads (json_dumps v) = Some v"
  using loads_ok loads_dumps by blast

end
