(* ===== verification/Records.thy ===== *)
theory Records
  imports Drain JsonTrip
begin

text \<open>
  What a stored event says: the columns of its row and its \<open>raw_json\<close> text are those of the
  line the phone recorded, and no row comes from anywhere else. The counterpart of
  \<open>no_event_lost\<close>: nothing is invented and nothing altered on the way.
\<close>

section \<open>From a line to a row\<close>

text \<open>The row of a unit that a recorded line stands for.\<close>

definition record_of :: "string \<Rightarrow> string \<Rightarrow> event_row \<Rightarrow> bool" where
  "record_of u line r \<longleftrightarrow>
     (case json_loads (strip line) of
        Some (JObj ms) \<Rightarrow>
          json_loads (er_raw_json r) = Some (JObj ms) \<and> er_unit r = u
          \<and> er_kind r = json_str (obj_get ''kind'' ms)
          \<and> json_int (obj_get ''id'' ms) = Inr (er_source_id r)
          \<and> bind_text (obj_get ''address'' ms) = Inr (er_address r)
          \<and> bind_text (obj_get ''body'' ms) = Inr (er_body r)
          \<and> bind_int (obj_get ''ts'' ms) = Inr (er_ts r)
          \<and> bind_text (obj_get ''direction'' ms) = Inr (er_direction r)
          \<and> bind_int (obj_get ''duration'' ms) = Inr (er_duration r)
      | _ \<Rightarrow> False)"

lemma line_event:
  assumes "from_spool_line u line = Inr (Some e)"
  shows "\<exists>ms. json_loads (strip line) = Some (JObj ms) \<and> ms \<noteq> []
    \<and> json_int (obj_get ''id'' ms) = Inr (ev_source_id e)
    \<and> e = \<lparr>ev_unit = u, ev_kind = json_str (obj_get ''kind'' ms), ev_source_id = ev_source_id e,
         ev_address = obj_get ''address'' ms, ev_body = obj_get ''body'' ms,
         ev_timestamp = obj_get ''ts'' ms, ev_direction = obj_get ''direction'' ms,
         ev_duration = obj_get ''duration'' ms, ev_raw = Some (JObj ms)\<rparr>"
proof -
  obtain v where v: "json_loads (strip line) = Some v"
    using assms by (auto simp: from_spool_line_def split: if_splits option.splits)
  show ?thesis
  proof (cases v)
    case (JObj ms)
    then show ?thesis
      using assms v
      by (auto simp: from_spool_line_def rbind_eq_Inr json_in_def json_index_def obj_get_def
          split: if_splits option.splits)
  qed (use assms v in \<open>auto simp: from_spool_line_def rbind_eq_Inr json_index_def split: if_splits\<close>)
qed

lemma row_of_line:
  assumes "from_spool_line u line = Inr (Some e)" and "bind_event i now e = Inr r"
  shows "record_of u line r"
proof -
  obtain ms where ms: "json_loads (strip line) = Some (JObj ms)" "ms \<noteq> []"
      "json_int (obj_get ''id'' ms) = Inr (ev_source_id e)"
    and e: "e = \<lparr>ev_unit = u, ev_kind = json_str (obj_get ''kind'' ms), ev_source_id = ev_source_id e,
         ev_address = obj_get ''address'' ms, ev_body = obj_get ''body'' ms,
         ev_timestamp = obj_get ''ts'' ms, ev_direction = obj_get ''direction'' ms,
         ev_duration = obj_get ''duration'' ms, ev_raw = Some (JObj ms)\<rparr>"
    using line_event [OF assms(1)] by blast
  have raw: "raw_document (ev_raw e) = JObj ms"
    by (subst e) (simp add: raw_document_def json_truthy_def ms(2))
  have "json_loads (json_dumps (JObj ms)) = Some (JObj ms)"
    by (rule loads_dumps_loads [OF ms(1)])
  moreover have "ev_unit e = u" "ev_kind e = json_str (obj_get ''kind'' ms)"
      "ev_address e = obj_get ''address'' ms" "ev_body e = obj_get ''body'' ms"
      "ev_timestamp e = obj_get ''ts'' ms" "ev_direction e = obj_get ''direction'' ms"
      "ev_duration e = obj_get ''duration'' ms"
    by (subst e, simp)+
  ultimately show ?thesis
    using assms(2) ms(1,3) raw
    by (auto simp: record_of_def bind_event_def rbind_eq_Inr simp del: json_dumps.simps split: if_splits)
qed

section \<open>From a batch to the store\<close>

lemma add_loop_rows:
  "add_loop now es db = Inr (st, db') \<Longrightarrow> r \<in> set db' \<Longrightarrow>
     r \<in> set db \<or> (\<exists>e \<in> set es. \<exists>i. bind_event i now e = Inr r)"
proof (induction es arbitrary: db st db')
  case (Cons e es)
  then obtain r0 where r0: "bind_event (next_id db) now e = Inr r0"
    by (auto simp: rbind_eq_Inr)
  show ?case
  proof (cases "has_key db (row_key r0)")
    case True
    then have "add_loop now es db = Inr (st, db')" using Cons.prems(1) r0 by simp
    from Cons.IH [OF this Cons.prems(2)] show ?thesis by auto
  next
    case False
    then obtain st1 where "add_loop now es (db @ [r0]) = Inr (st1, db')"
      using Cons.prems(1) r0 by (auto simp: rbind_eq_Inr)
    from Cons.IH [OF this Cons.prems(2)] show ?thesis using r0 by auto
  qed
qed simp

lemma add_events_rows:
  assumes "r \<in> set (snd (add_events now es db))" and "r \<notin> set db"
  shows "\<exists>e \<in> set es. \<exists>i. bind_event i now e = Inr r"
  using assms add_loop_rows [of now es db]
  by (auto simp: add_events_def split: sum.splits prod.splits)

lemma batch_rows:
  assumes "rmap (from_spool_line u) ls = Inr parsed"
    and "r \<in> set (snd (add_events now (somes parsed) db))" and "r \<notin> set db"
  shows "\<exists>l \<in> set ls. record_of u l r"
proof -
  obtain e i where e: "e \<in> set (somes parsed)" "bind_event i now e = Inr r"
    using add_events_rows [OF assms(2,3)] by blast
  then obtain l where "l \<in> set ls" "from_spool_line u l = Inr (Some e)"
    using rmap_Inr_mem [OF assms(1)] by (auto simp: somes_mem)
  then show ?thesis using row_of_line e(2) by blast
qed

text \<open>What a poll does to the stored events, with any device behind it.\<close>

lemma drain_unit_events:
  assumes "gw_events (snd (drain_unit h now u g)) \<noteq> gw_events g"
  shows "\<exists>serial p spool p' parsed.
    resolve_serial h (un_serial u) (gw_host g) = (Inr serial, p) \<and>
    run_device_cli h serial [''action'', COLLECTOR_PLUGIN, ''drain''] DRAIN_TIMEOUT_SECONDS p
      = (Inr spool, p') \<and>
    rmap (from_spool_line (un_name u)) (spool_lines spool) = Inr parsed \<and>
    gw_events (snd (drain_unit h now u g)) = snd (add_events now (somes parsed) (gw_events g)) \<and>
    (gw_host (snd (drain_unit h now u g)) = p' \<or>
     gw_host (snd (drain_unit h now u g)) =
       snd (run_device_cli h serial [''action'', COLLECTOR_PLUGIN, ''ack''] ACK_TIMEOUT_SECONDS p'))"
  using assms
  by (auto simp: drain_unit_def at_device_def commit_events_def count_batch_def io_bind_app
      split: prod.splits sum.splits if_splits)

section \<open>The history of the phone\<close>

text \<open>The history only grows, and the inbox holds lines of the history.\<close>

definition grows :: "phone \<Rightarrow> phone \<Rightarrow> bool" where
  "grows p q \<longleftrightarrow> set (ph_recorded p) \<subseteq> set (ph_recorded q) \<and>
     set (pending (ph_inbox q)) \<subseteq> set (pending (ph_inbox p)) \<union> set (ph_recorded q)"

lemma grows_refl: "grows p p"
  by (simp add: grows_def)

lemma grows_trans: "grows p q \<Longrightarrow> grows q s \<Longrightarrow> grows p s"
  by (auto simp: grows_def)

lemma grows_fault: "grows p (snd (next_fault p))"
  by (auto simp: grows_def next_fault_def record_lines_def pending_record split: list.splits)

lemma grows_command: "grows p (snd (phone_command args p))"
proof (cases "args = inbox_command ''ack''")
  case True
  then show ?thesis
    by (auto simp: grows_def phone_command_def inbox_ack_def pending_def lines_of_def)
next
  case False
  then show ?thesis using phone_command_pending [OF False, of p] by (simp add: grows_def)
qed

lemma grows_run: "grows p (snd (phone_run args t p))"
  using phone_run_world [of args t p] grows_fault [of p]
    grows_trans [OF grows_fault grows_command] by auto

lemma grows_cli: "grows p (snd (run_device_cli phone_host s args t p))"
  by (simp add: device_cli_world grows_run)

lemma grows_list: "grows p (snd (list_devices phone_host p))"
  using grows_run [of p "[''adb'', ''devices'']"]
  by (auto simp: list_devices_def snd_io_bind split: sum.splits)

lemma grows_resolve: "grows p (snd (resolve_serial phone_host s p))"
  unfolding resolve_serial_def
proof (rule io_bind_keeps [where P = "grows p", OF grows_refl])
  fix w assume "grows p w"
  then show "grows p (snd (list_devices phone_host w))" using grows_list grows_trans by blast
next
  fix all q assume q: "grows p q"
  have "grows p (snd (list_devices phone_host q))" using q grows_list grows_trans by blast
  then show "grows p (snd ((let usable = filter is_usable all
     in case s of
          Some s \<Rightarrow>
            if s = [] then choose_only usable
            else if list_ex (\<lambda>d. dv_serial d = s) usable then io_ret s
            else io_bind (list_devices phone_host) (\<lambda>again.
              case dict_get s (states_of again) of
                Some st \<Rightarrow> io_raise (AdbError (''device '' @ s @ '' is in state '' @ [chr_quote] @ st @
                  [chr_quote] @ '', not 'device'. Unauthorized usually means the RSA prompt on the '' @
                  ''phone is unanswered.''))
              | None \<Rightarrow> io_raise (AdbError (''device '' @ s @ '' is not connected'')))
        | None \<Rightarrow> choose_only usable) q))"
    using q by (auto simp: Let_def snd_io_bind split: option.splits sum.splits)
qed

lemma grows_device:
  "grows p (gw_host g) \<Longrightarrow> (\<And>q. grows q (snd (m q))) \<Longrightarrow> grows p (gw_host (snd (at_device m g)))"
  by (auto simp: at_device_def case_prod_unfold intro: grows_trans)

lemma if_keeps:
  "(b \<Longrightarrow> P (snd (m w))) \<Longrightarrow> (\<not> b \<Longrightarrow> P (snd (k w))) \<Longrightarrow> P (snd ((if b then m else k) w))"
  by simp

lemma grows_drain: "grows p (gw_host g) \<Longrightarrow> grows p (gw_host (snd (drain_unit phone_host now u g)))"
  unfolding drain_unit_def
  by (rule io_bind_keeps [where P = "\<lambda>g. grows p (gw_host g)"]
        if_keeps [where P = "\<lambda>g. grows p (gw_host g)"] grows_device grows_resolve grows_cli
        | assumption
        | simp add: commit_events_def count_batch_def case_prod_unfold; fail)+

section \<open>Every row is a recorded line\<close>

definition genuine :: "string \<Rightarrow> phone gateway \<Rightarrow> bool" where
  "genuine u g \<longleftrightarrow>
     set (pending (ph_inbox (gw_host g))) \<subseteq> set (ph_recorded (gw_host g)) \<and>
     (\<forall>r \<in> set (gw_events g). \<exists>l \<in> set (ph_recorded (gw_host g)). record_of u l r)"

lemma genuine_drain:
  assumes inv: "gateway_inv (un_name u) g" and gen: "genuine (un_name u) g"
  shows "genuine (un_name u) (snd (drain_unit phone_host now u g))"
proof -
  let ?g = "snd (drain_unit phone_host now u g)"
  have grow: "grows (gw_host g) (gw_host ?g)" by (rule grows_drain) (rule grows_refl)
  then have inbox: "set (pending (ph_inbox (gw_host ?g))) \<subseteq> set (ph_recorded (gw_host ?g))"
    using gen by (auto simp: grows_def genuine_def)
  have "\<exists>l \<in> set (ph_recorded (gw_host ?g)). record_of (un_name u) l r" if r: "r \<in> set (gw_events ?g)" for r
  proof (cases "r \<in> set (gw_events g)")
    case True
    then obtain l where "l \<in> set (ph_recorded (gw_host g))" "record_of (un_name u) l r"
      using gen by (auto simp: genuine_def)
    then show ?thesis using grow by (auto simp: grows_def)
  next
    case False
    with r have "gw_events ?g \<noteq> gw_events g" by auto
    from drain_unit_events [OF this] obtain serial p spool p' parsed where
      p: "resolve_serial phone_host (un_serial u) (gw_host g) = (Inr serial, p)" and
      p': "run_device_cli phone_host serial [''action'', COLLECTOR_PLUGIN, ''drain'']
        DRAIN_TIMEOUT_SECONDS p = (Inr spool, p')" and
      parsed: "rmap (from_spool_line (un_name u)) (spool_lines spool) = Inr parsed" and
      ev: "gw_events ?g = snd (add_events now (somes parsed) (gw_events g))" and
      fin: "gw_host ?g = p' \<or> gw_host ?g =
        snd (run_device_cli phone_host serial [''action'', COLLECTOR_PLUGIN, ''ack''] ACK_TIMEOUT_SECONDS p')"
      by blast
    obtain l where l: "l \<in> set (spool_lines spool)" "record_of (un_name u) l r"
      using batch_rows [OF parsed r [unfolded ev] False] by blast
    have "phone_inv (un_name u) (gw_events g) p"
      using resolve_inv inv p by (metis gateway_inv_def snd_conv)
    then have "phone_inv (un_name u) (gw_events g) p'"
      using phone_run_inv [OF drain_not_ack] device_cli_world p' by (metis snd_conv)
    then have "spool = [] \<or> splitlines spool = lines_of (ib_inflight (ph_inbox p'))"
      using drained_text [OF p'] by blast
    moreover have "spool_lines [] = []" by (simp add: spool_lines_def)
    ultimately have "l \<in> set (pending (ph_inbox p'))"
      using l(1) by (auto simp: spool_lines_def pending_def)
    moreover have "grows (gw_host g) p'"
      using grows_trans [OF grows_resolve grows_cli] p p' by (metis snd_conv)
    moreover have "grows p' (gw_host ?g)"
      using fin grows_refl grows_cli by metis
    ultimately have "l \<in> set (ph_recorded (gw_host ?g))"
      using gen unfolding grows_def genuine_def by blast
    then show ?thesis using l(2) by blast
  qed
  with inbox show ?thesis by (simp add: genuine_def)
qed

section \<open>Properties\<close>

text \<open>
  C2. Nothing is invented or altered on the way: whatever fails between the polls of a phone,
  every stored row is the record of a line the phone has recorded. Its columns are the
  members of the object on the line, and its \<open>raw_json\<close> text reads back as that object.
\<close>

theorem stored_rows_genuine:
  assumes "list_all line_free (concat (map snd script))"
    and "phone_world = \<lparr>ph_inbox = \<lparr>ib_spool = None, ib_inflight = None\<rparr>, ph_script = script,
      ph_recorded = []\<rparr>"
    and "gw_events start = []"
    and "final = fold (\<lambda>now g. snd (drain_unit phone_host now u g)) polls (start\<lparr>gw_host := phone_world\<rparr>)"
  shows "list_all (\<lambda>r. list_ex (\<lambda>l. record_of (un_name u) l r) (ph_recorded (gw_host final)))
    (gw_events final)"
proof -
  have "gateway_inv (un_name u) (start\<lparr>gw_host := phone_world\<rparr>)
      \<and> genuine (un_name u) (start\<lparr>gw_host := phone_world\<rparr>)"
    using assms(1,3) unfolding assms(2)
    by (simp add: gateway_inv_def phone_inv_def all_lines_def pending_def lines_of_def genuine_def)
  then have "gateway_inv (un_name u) final \<and> genuine (un_name u) final"
    unfolding assms(4)
    by (induction polls rule: rev_induct) (simp_all add: drain_unit_inv genuine_drain)
  then show ?thesis by (auto simp: genuine_def list_all_iff list_ex_iff)
qed

theorem stored_rows_genuine_witness:
  "list_all (\<lambda>r. list_ex (\<lambda>l. record_of (un_name rack_unit) l r)
       (ph_recorded (gw_host (fold (\<lambda>now g. snd (drain_unit phone_host now rack_unit g)) [10, 20, 30]
          (empty_gateway flaky_phone)))))
    (gw_events (fold (\<lambda>now g. snd (drain_unit phone_host now rack_unit g)) [10, 20, 30]
       (empty_gateway flaky_phone)))"
proof (rule stored_rows_genuine [OF _ refl])
  show "list_all line_free (concat (map snd (ph_script flaky_phone)))"
    by (simp add: flaky_phone_def sms_line_def dump_string_def dump_char_def chr_defs break_rest_def
        is_break_def code_def)
  show "gw_events (empty_gateway flaky_phone) = []" by (simp add: empty_gateway_def)
  have "flaky_phone = \<lparr>ph_inbox = \<lparr>ib_spool = None, ib_inflight = None\<rparr>,
      ph_script = ph_script flaky_phone, ph_recorded = []\<rparr>"
    by (simp add: flaky_phone_def)
  then show "fold (\<lambda>now g. snd (drain_unit phone_host now rack_unit g)) [10, 20, 30]
      (empty_gateway flaky_phone) = fold (\<lambda>now g. snd (drain_unit phone_host now rack_unit g)) [10, 20, 30]
      ((empty_gateway flaky_phone)\<lparr>gw_host := \<lparr>ph_inbox = \<lparr>ib_spool = None, ib_inflight = None\<rparr>,
        ph_script = ph_script flaky_phone, ph_recorded = []\<rparr>\<rparr>)"
    by (simp add: empty_gateway_def)
qed

end
