(* ===== verification/Layout.thy ===== *)
theory Layout
  imports Json
begin

text \<open>
  The vocabulary of \<open>src/monitoring/generate-dashboards.py\<close>: the functions that build a
  query, a field configuration and a dashboard as JSON objects, and the class \<open>Layout\<close>
  that gives every panel its place on Grafana's grid of 24 columns. A keyword argument
  left out is \<open>JNull\<close>, Python's \<open>None\<close>, so that the tests of the code (\<open>if unit:\<close>,
  \<open>if mn is not None:\<close>, \<open>color or BY_NAME\<close>) are tests of the argument. The lemmas give
  the place of every panel from the widths and heights alone, and a condition on them
  under which no two panels overlap.
\<close>

section \<open>Constants and helpers\<close>

definition py_or :: "json \<Rightarrow> json \<Rightarrow> json" where
  "py_or a b = (if json_truthy a then a else b)"

definition DS :: json where
  "DS = JObj [(''type'', JStr ''prometheus''), (''uid'', JStr ''rackphone-prom'')]"

definition BY_NAME :: json where
  "BY_NAME = JObj [(''mode'', JStr ''palette-classic-by-name'')]"

definition THRESH :: json where
  "THRESH = JObj [(''mode'', JStr ''thresholds'')]"

definition FIXED :: "string \<Rightarrow> json" where
  "FIXED c = JObj [(''mode'', JStr ''fixed''), (''fixedColor'', JStr c)]"

definition SEQ :: json where
  "SEQ = JObj [(''mode'', JStr ''continuous-GrYlRd'')]"

text \<open>
  \<open>steps(*pairs)\<close> takes the colour of its first pair and nothing else of it; without a
  pair it would raise, so the first pair is an argument of its own.
\<close>

definition step :: "string \<Rightarrow> json \<Rightarrow> json" where
  "step color value = JObj [(''color'', JStr color), (''value'', value)]"

definition steps :: "string \<times> json \<Rightarrow> (string \<times> json) list \<Rightarrow> json" where
  "steps first rest = JArr (step (fst first) JNull # map (\<lambda>(color, value). step color value) rest)"

definition target :: "string \<Rightarrow> string \<Rightarrow> string \<Rightarrow> bool \<Rightarrow> json \<Rightarrow> json" where
  "target expr legend ref instant fmt =
     JObj ([(''datasource'', DS), (''editorMode'', JStr ''code''), (''expr'', JStr expr),
            (''refId'', JStr ref), (''legendFormat'', JStr legend),
            (''range'', JBool (\<not> instant)), (''instant'', JBool instant)]
           @ (if json_truthy fmt then [(''format'', fmt)] else []))"

text \<open>The keyword arguments of \<open>fc\<close>, all \<open>None\<close> unless given.\<close>

record field_args =
  fa_unit :: json
  fa_mn :: json
  fa_mx :: json
  fa_dec :: json
  fa_color :: json
  fa_custom :: json
  fa_mappings :: json
  fa_thresholds :: json
  fa_links :: json
  fa_nodata :: json

definition field_defaults :: field_args where
  "field_defaults =
     \<lparr>fa_unit = JNull, fa_mn = JNull, fa_mx = JNull, fa_dec = JNull, fa_color = JNull,
      fa_custom = JNull, fa_mappings = JNull, fa_thresholds = JNull, fa_links = JNull,
      fa_nodata = JNull\<rparr>"

definition entry_if :: "bool \<Rightarrow> string \<Rightarrow> json \<Rightarrow> (string \<times> json) list" where
  "entry_if b k v = (if b then [(k, v)] else [])"

definition fc :: "field_args \<Rightarrow> json" where
  "fc a =
     JObj ([(''color'', py_or (fa_color a) BY_NAME),
            (''mappings'', py_or (fa_mappings a) (JArr [])),
            (''thresholds'', JObj [(''mode'', JStr ''absolute''),
               (''steps'', py_or (fa_thresholds a) (JArr [step ''text'' JNull]))])]
           @ entry_if (json_truthy (fa_unit a)) ''unit'' (fa_unit a)
           @ entry_if (fa_mn a \<noteq> JNull) ''min'' (fa_mn a)
           @ entry_if (fa_mx a \<noteq> JNull) ''max'' (fa_mx a)
           @ entry_if (fa_dec a \<noteq> JNull) ''decimals'' (fa_dec a)
           @ entry_if (json_truthy (fa_custom a)) ''custom'' (fa_custom a)
           @ entry_if (json_truthy (fa_links a)) ''links'' (fa_links a)
           @ entry_if (json_truthy (fa_nodata a)) ''noValue'' (fa_nodata a))"

section \<open>The grid\<close>

record layout =
  ly_panels :: "json list"
  ly_y :: int
  ly_x :: int
  ly_pid :: int

definition new_layout :: layout where
  "new_layout = \<lparr>ly_panels = [], ly_y = 0, ly_x = 0, ly_pid = 0\<rparr>"

definition grid_pos :: "int \<Rightarrow> int \<Rightarrow> int \<Rightarrow> int \<Rightarrow> json" where
  "grid_pos x y w h = JObj [(''x'', JInt x), (''y'', JInt y), (''w'', JInt w), (''h'', JInt h)]"

definition newline :: "int \<Rightarrow> layout \<Rightarrow> layout" where
  "newline h L = L\<lparr>ly_y := ly_y L + h, ly_x := 0\<rparr>"

definition row_json :: "int \<Rightarrow> int \<Rightarrow> string \<Rightarrow> bool \<Rightarrow> json" where
  "row_json pid y title collapsed =
     JObj [(''id'', JInt pid), (''type'', JStr ''row''), (''title'', JStr title),
           (''collapsed'', JBool collapsed), (''panels'', JArr []),
           (''gridPos'', grid_pos 0 y 24 1)]"

definition row :: "string \<Rightarrow> bool \<Rightarrow> layout \<Rightarrow> layout" where
  "row title collapsed L =
     (let L1 = (if ly_x L \<noteq> 0 then newline 0 L else L);
          pid = ly_pid L1 + 1
      in L1\<lparr>ly_pid := pid,
            ly_panels := ly_panels L1 @ [row_json pid (ly_y L1) title collapsed],
            ly_y := ly_y L1 + 1\<rparr>)"

text \<open>The arguments of \<open>Layout.add\<close>; the optional ones are \<open>None\<close> unless given.\<close>

record panel_args =
  pa_title :: string
  pa_ptype :: string
  pa_w :: int
  pa_h :: int
  pa_targets :: json
  pa_field_config :: json
  pa_options :: json
  pa_desc :: json
  pa_transformations :: json
  pa_overrides :: json
  pa_links :: json

definition panel ::
  "string \<Rightarrow> string \<Rightarrow> int \<Rightarrow> int \<Rightarrow> json list \<Rightarrow> json \<Rightarrow> json \<Rightarrow> json \<Rightarrow> panel_args" where
  "panel title ptype w h targets field_config opts desc =
     \<lparr>pa_title = title, pa_ptype = ptype, pa_w = w, pa_h = h, pa_targets = JArr targets,
      pa_field_config = field_config, pa_options = opts, pa_desc = desc,
      pa_transformations = JNull, pa_overrides = JNull, pa_links = JNull\<rparr>"

definition panel_json :: "int \<Rightarrow> int \<Rightarrow> int \<Rightarrow> panel_args \<Rightarrow> json" where
  "panel_json pid x y a =
     JObj ([(''id'', JInt pid), (''title'', JStr (pa_title a)), (''type'', JStr (pa_ptype a)),
            (''datasource'', DS), (''gridPos'', grid_pos x y (pa_w a) (pa_h a)),
            (''targets'', pa_targets a), (''options'', py_or (pa_options a) (JObj [])),
            (''fieldConfig'', JObj [(''defaults'', pa_field_config a),
                                    (''overrides'', py_or (pa_overrides a) (JArr []))])]
           @ entry_if (json_truthy (pa_desc a)) ''description'' (pa_desc a)
           @ entry_if (json_truthy (pa_transformations a)) ''transformations'' (pa_transformations a)
           @ entry_if (json_truthy (pa_links a)) ''links'' (pa_links a))"

definition wrap :: "int \<Rightarrow> layout \<Rightarrow> layout" where
  "wrap h L = L\<lparr>ly_x := 0, ly_y := ly_y L + h\<rparr>"

definition add_panel :: "panel_args \<Rightarrow> layout \<Rightarrow> layout" where
  "add_panel a L =
     (let L1 = (if ly_x L + pa_w a > 24 then wrap (pa_h a) L else L);
          pid = ly_pid L1 + 1;
          L2 = L1\<lparr>ly_pid := pid,
                  ly_panels := ly_panels L1 @ [panel_json pid (ly_x L1) (ly_y L1) a],
                  ly_x := ly_x L1 + pa_w a\<rparr>
      in if ly_x L2 \<ge> 24 then wrap (pa_h a) L2 else L2)"

text \<open>The script builds a dashboard by a sequence of calls on one \<open>Layout\<close>.\<close>

datatype call = Row string | Add panel_args

fun run_call :: "call \<Rightarrow> layout \<Rightarrow> layout" where
  "run_call (Row title) L = row title False L"
| "run_call (Add a) L = add_panel a L"

definition run_calls :: "call list \<Rightarrow> layout" where
  "run_calls cs = fold run_call cs new_layout"

section \<open>Options shared by the panels, and dashboards\<close>

text \<open>
  The script writes the objects \<open>look\<close>, \<open>override\<close> and \<open>last_value\<close> out wherever it needs
  them.
\<close>

definition look :: "string \<Rightarrow> int \<Rightarrow> string \<Rightarrow> json" where
  "look color index shown =
     JObj [(''color'', JStr color), (''index'', JInt index), (''text'', JStr shown)]"

definition override :: "string \<Rightarrow> (string \<times> json) list \<Rightarrow> json" where
  "override name properties =
     JObj [(''matcher'', JObj [(''id'', JStr ''byName''), (''options'', JStr name)]),
           (''properties'',
            JArr (map (\<lambda>(i, v). JObj [(''id'', JStr i), (''value'', v)]) properties))]"

definition last_value :: json where
  "last_value = JObj [(''calcs'', JArr [JStr ''lastNotNull'']), (''fields'', JStr ''''),
                           (''values'', JBool False)]"

definition stat :: "string \<Rightarrow> string \<Rightarrow> json" where
  "stat mode graph =
     JObj [(''colorMode'', JStr mode), (''graphMode'', JStr graph), (''justifyMode'', JStr ''auto''),
           (''textMode'', JStr ''auto''), (''wideLayout'', JBool True),
           (''showPercentChange'', JBool False), (''reduceOptions'', last_value)]"

text \<open>The optional arguments of \<open>dashboard\<close> are all passed.\<close>

definition dashboard ::
  "string \<Rightarrow> string \<Rightarrow> string \<Rightarrow> json list \<Rightarrow> json list \<Rightarrow> string \<Rightarrow> string \<Rightarrow> json list \<Rightarrow> json" where
  "dashboard uid title desc panels variables time_from refresh links =
     JObj [(''uid'', JStr uid), (''title'', JStr title), (''description'', JStr desc),
           (''tags'', JArr [JStr ''rackphone'']), (''timezone'', JStr ''browser''),
           (''schemaVersion'', JInt 39), (''version'', JInt 1), (''refresh'', JStr refresh),
           (''editable'', JBool True), (''graphTooltip'', JInt 1),
           (''time'', JObj [(''from'', JStr time_from), (''to'', JStr ''now'')]),
           (''templating'', JObj [(''list'', JArr variables)]),
           (''links'', JArr links), (''panels'', JArr panels)]"

section \<open>Reading the grid back\<close>

type_synonym place = "int \<times> int \<times> int \<times> int"

text \<open>The place \<open>(x, y, w, h)\<close> a panel object names, if it names one.\<close>

definition int_at :: "string \<Rightarrow> (string \<times> json) list \<Rightarrow> int option" where
  "int_at k d = (case dict_get k d of Some (JInt n) \<Rightarrow> Some n | _ \<Rightarrow> None)"

definition panel_place :: "json \<Rightarrow> place option" where
  "panel_place p =
     (case p of
        JObj d \<Rightarrow>
          (case dict_get ''gridPos'' d of
             Some (JObj g) \<Rightarrow>
               (case (int_at ''x'' g, int_at ''y'' g, int_at ''w'' g, int_at ''h'' g) of
                  (Some x, Some y, Some w, Some h) \<Rightarrow> Some (x, y, w, h)
                | _ \<Rightarrow> None)
           | _ \<Rightarrow> None)
      | _ \<Rightarrow> None)"

definition panel_id :: "json \<Rightarrow> int option" where
  "panel_id p = (case p of JObj d \<Rightarrow> int_at ''id'' d | _ \<Rightarrow> None)"

fun apart :: "place \<Rightarrow> place \<Rightarrow> bool" where
  "apart (x, y, w, h) (x', y', w', h') \<longleftrightarrow>
     x + w \<le> x' \<or> x' + w' \<le> x \<or> y + h \<le> y' \<or> y' + h' \<le> y"

definition shape :: "call \<Rightarrow> (int \<times> int) option" where
  "shape c = (case c of Row _ \<Rightarrow> None | Add a \<Rightarrow> Some (pa_w a, pa_h a))"

text \<open>Where the calls put their panels, from the shapes alone.\<close>

fun places :: "int \<Rightarrow> int \<Rightarrow> (int \<times> int) option list \<Rightarrow> place list" where
  "places x y [] = []"
| "places x y (None # ss) = (0, y, 24, 1) # places 0 (y + 1) ss"
| "places x y (Some (w, h) # ss) =
     (let x1 = (if x + w > 24 then 0 else x); y1 = (if x + w > 24 then y + h else y)
      in (x1, y1, w, h) #
         (if x1 + w \<ge> 24 then places 0 (y1 + h) ss else places (x1 + w) y1 ss))"

lemma panel_place_panel [simp]: "panel_place (panel_json i x y a) = Some (x, y, pa_w a, pa_h a)"
  by (simp add: panel_place_def panel_json_def grid_pos_def int_at_def dict_get_def)

lemma panel_id_panel [simp]: "panel_id (panel_json i x y a) = Some i"
  by (simp add: panel_id_def panel_json_def int_at_def dict_get_def)

lemma panel_place_row [simp]: "panel_place (row_json i y t b) = Some (0, y, 24, 1)"
  by (simp add: panel_place_def row_json_def grid_pos_def int_at_def dict_get_def)

lemma panel_id_row [simp]: "panel_id (row_json i y t b) = Some i"
  by (simp add: panel_id_def row_json_def int_at_def dict_get_def)

lemma fold_places:
  "map panel_place (ly_panels (fold run_call cs L)) =
     map panel_place (ly_panels L) @ map Some (places (ly_x L) (ly_y L) (map shape cs))"
proof (induction cs arbitrary: L)
  case (Cons c cs)
  then show ?case
    by (cases c) (simp_all add: shape_def row_def newline_def add_panel_def wrap_def Let_def)
qed simp

lemma run_places:
  "map panel_place (ly_panels (run_calls cs)) = map Some (places 0 0 (map shape cs))"
  by (simp add: run_calls_def fold_places new_layout_def)

lemma run_call_panel:
  "\<exists>p. ly_panels (run_call c L) = ly_panels L @ [p] \<and> panel_id p = Some (ly_pid L + 1)
     \<and> ly_pid (run_call c L) = ly_pid L + 1
     \<and> (case c of Row t \<Rightarrow> \<exists>y. p = row_json (ly_pid L + 1) y t False
                | Add a \<Rightarrow> \<exists>x y. p = panel_json (ly_pid L + 1) x y a)"
  by (cases c) (auto simp: row_def newline_def add_panel_def wrap_def Let_def)

lemma fold_ids:
  "map panel_id (ly_panels (fold run_call cs L)) =
     map panel_id (ly_panels L) @ map Some [ly_pid L + 1 .. ly_pid L + int (length cs)]"
proof (induction cs arbitrary: L)
  case (Cons c cs)
  obtain p where p: "ly_panels (run_call c L) = ly_panels L @ [p]" "panel_id p = Some (ly_pid L + 1)"
      "ly_pid (run_call c L) = ly_pid L + 1"
    using run_call_panel [of c L] by blast
  have "[ly_pid L + 1 .. ly_pid L + int (length (c # cs))] =
      (ly_pid L + 1) # [ly_pid L + 2 .. ly_pid L + int (length (c # cs))]"
    by (subst upto.simps) (simp add: add.commute)
  then show ?case by (simp add: Cons.IH p algebra_simps)
qed simp

lemma run_ids: "map panel_id (ly_panels (run_calls cs)) = map Some [1 .. int (length cs)]"
  by (simp add: run_calls_def fold_ids new_layout_def)

text \<open>What a panel shows besides its place depends on its call alone.\<close>

lemma run_panels_map:
  assumes "\<And>i y t. g (row_json i y t False) = f (Row t)"
    and "\<And>i x y a. g (panel_json i x y a) = f (Add a)"
  shows "map g (ly_panels (run_calls cs)) = map f cs"
proof -
  have "map g (ly_panels (fold run_call cs L)) = map g (ly_panels L) @ map f cs" for L
  proof (induction cs arbitrary: L)
    case (Cons c cs)
    obtain p where "ly_panels (run_call c L) = ly_panels L @ [p]" "g p = f c"
      using run_call_panel [of c L] assms by (cases c) auto
    then show ?case by (simp add: Cons.IH)
  qed simp
  then show ?thesis by (simp add: run_calls_def new_layout_def)
qed

section \<open>When panels do not overlap\<close>

text \<open>
  The line under way reaches from 0 to \<open>x\<close> and its tallest panel is \<open>h\<close> high. The code
  moves down by the height of the panel that fills the line, or of the one that no longer
  fits, and a heading does not move down at all; so that panel has to be as tall as the
  line, and a heading has to start on a full line.
\<close>

fun lines_close :: "int \<Rightarrow> int \<Rightarrow> (int \<times> int) option list \<Rightarrow> bool" where
  "lines_close x h [] \<longleftrightarrow> True"
| "lines_close x h (None # ss) \<longleftrightarrow> x = 0 \<and> lines_close 0 0 ss"
| "lines_close x h (Some (w, k) # ss) \<longleftrightarrow>
     0 < w \<and> w \<le> 24 \<and> 0 < k \<and>
     (if x + w < 24 then lines_close (x + w) (max h k) ss
      else h \<le> k \<and> lines_close (if x + w = 24 \<or> w = 24 then 0 else w)
                               (if x + w = 24 \<or> w = 24 then 0 else k) ss)"

definition from_line :: "int \<Rightarrow> int \<Rightarrow> int \<Rightarrow> place \<Rightarrow> bool" where
  "from_line x y h p \<longleftrightarrow>
     (case p of (x', y', w, k) \<Rightarrow>
        0 \<le> x' \<and> x' + w \<le> 24 \<and> 0 < w \<and> 0 < k \<and> (y + h \<le> y' \<or> y' = y \<and> x \<le> x'))"

lemma from_line_next:
  assumes "from_line x' y' h' p" "y + h \<le> y'" "0 \<le> h'"
  shows "from_line x y h p"
  using assms by (auto simp: from_line_def)

lemma places_from_line:
  assumes "lines_close x h ss" "0 \<le> x" "0 \<le> h" "x = 0 \<longrightarrow> h = 0"
  shows "list_all (from_line x y h) (places x y ss) \<and> sorted_wrt apart (places x y ss)"
  using assms
proof (induction ss arbitrary: x y h)
  case (Cons s ss)
  show ?case
  proof (cases s)
    case None
    have IH: "list_all (from_line 0 (y + 1) 0) (places 0 (y + 1) ss) \<and>
        sorted_wrt apart (places 0 (y + 1) ss)"
      using Cons.prems None by (intro Cons.IH) simp_all
    have "from_line x y h p \<and> apart (0, y, 24, 1) p" if "p \<in> set (places 0 (y + 1) ss)" for p
    proof -
      have "from_line 0 (y + 1) 0 p" using IH that by (simp add: list_all_iff)
      then show ?thesis
        using Cons.prems None by (cases p) (auto simp: from_line_def)
    qed
    moreover have "from_line x y h (0, y, 24, 1)"
      using Cons.prems None by (simp add: from_line_def)
    ultimately show ?thesis
      using IH None by (simp add: list_all_iff)
  next
    case (Some wk)
    obtain w k where s: "s = Some (w, k)" using Some by (cases wk) simp
    have wk: "0 < w" "w \<le> 24" "0 < k" using Cons.prems s by (auto split: if_splits)
    let ?x = "if x + w > 24 then 0 else x" and ?y = "if x + w > 24 then y + k else y"
    let ?r = "if ?x + w \<ge> 24 then places 0 (?y + k) ss else places (?x + w) ?y ss"
    let ?a = "if ?x + w \<ge> 24 then 0 else ?x + w" and ?b = "if ?x + w \<ge> 24 then ?y + k else ?y"
    let ?h = "if ?x + w \<ge> 24 then 0 else if x + w > 24 then k else max h k"
    have r: "?r = places ?a ?b ss" by simp
    have IH: "list_all (from_line ?a ?b ?h) ?r \<and> sorted_wrt apart ?r"
      unfolding r
      using Cons.prems wk s by (intro Cons.IH) (auto split: if_splits)
    have hk: "h \<le> k" if "x + w \<ge> 24" using Cons.prems s that by (auto split: if_splits)
    have "from_line x y h p \<and> apart (?x, ?y, w, k) p" if "p \<in> set ?r" for p
    proof -
      have "from_line ?a ?b ?h p" using IH that by (simp add: list_all_iff)
      then show ?thesis
        using hk wk Cons.prems(2,3) by (cases p) (auto simp: from_line_def split: if_splits)
    qed
    moreover have "from_line x y h (?x, ?y, w, k)"
      using hk wk Cons.prems(2,3) by (auto simp: from_line_def)
    ultimately show ?thesis
      using IH s by (simp add: Let_def list_all_iff)
  qed
qed simp

text \<open>A list of panel objects that all name a place, within the columns, none over another.\<close>

definition in_columns :: "place \<Rightarrow> bool" where
  "in_columns p \<longleftrightarrow> (case p of (x, y, w, h) \<Rightarrow> 0 \<le> x \<and> x + w \<le> 24)"

definition tiled :: "json list \<Rightarrow> bool" where
  "tiled panels \<longleftrightarrow>
     list_all (\<lambda>p. panel_place p \<noteq> None) panels
     \<and> list_all in_columns (map (the \<circ> panel_place) panels)
     \<and> sorted_wrt apart (map (the \<circ> panel_place) panels)"

lemma tiled_run_calls:
  "tiled (ly_panels (run_calls cs)) \<longleftrightarrow>
     list_all in_columns (places 0 0 (map shape cs)) \<and> sorted_wrt apart (places 0 0 (map shape cs))"
proof -
  let ?ps = "ly_panels (run_calls cs)"
  have "map the (map panel_place ?ps) = places 0 0 (map shape cs)"
    unfolding run_places by simp
  then have the_places: "map (the \<circ> panel_place) ?ps = places 0 0 (map shape cs)" by simp
  have "list_all (\<lambda>r. r \<noteq> None) (map panel_place ?ps)"
    unfolding run_places by (auto simp: list_all_iff)
  then have "list_all (\<lambda>p. panel_place p \<noteq> None) ?ps" by (simp add: list_all_iff)
  then show ?thesis by (simp add: tiled_def the_places)
qed

lemma tiled_if_closed:
  assumes "lines_close 0 0 (map shape cs)"
  shows "tiled (ly_panels (run_calls cs))"
proof -
  have "list_all (from_line 0 0 0) (places 0 0 (map shape cs)) \<and>
      sorted_wrt apart (places 0 0 (map shape cs))"
    using assms by (intro places_from_line) simp_all
  then show ?thesis
    unfolding tiled_run_calls by (auto simp: list_all_iff from_line_def in_columns_def)
qed

text \<open>
  Panels never overlap, stay within the 24 columns and are numbered 1, 2, 3, \<open>\<dots>\<close> in the order
  of the calls (headings included), when every line of the layout is closed by a panel at
  least as tall as the line and headings start on a full line. This is the promise of the
  class comment, under the condition it needs.
\<close>

theorem layout_tiles_grid:
  assumes "lines_close 0 0 (map shape cs)"
  shows "tiled (ly_panels (run_calls cs))
    \<and> map panel_id (ly_panels (run_calls cs)) = map Some [1 .. int (length cs)]"
  using tiled_if_closed [OF assms] run_ids by simp

definition blank_panel :: "int \<Rightarrow> int \<Rightarrow> panel_args" where
  "blank_panel w h = panel ''Panel'' ''stat'' w h [] (fc field_defaults) JNull JNull"

lemma shape_simps [simp]:
  "shape (Row t) = None"
  "shape (Add a) = Some (pa_w a, pa_h a)"
  by (simp_all add: shape_def)

lemma panel_sizes [simp]:
  "pa_w (panel t p w h ts f opts d) = w"
  "pa_h (panel t p w h ts f opts d) = h"
  "pa_targets (panel t p w h ts f opts d) = JArr ts"
  "pa_w (blank_panel w h) = w"
  "pa_h (blank_panel w h) = h"
  by (simp_all add: panel_def blank_panel_def)

theorem layout_tiles_grid_witness:
  "tiled (ly_panels (run_calls [Row ''Delivery'', Add (blank_panel 12 7), Add (blank_panel 12 7)]))"
  using layout_tiles_grid [of "[Row ''Delivery'', Add (blank_panel 12 7), Add (blank_panel 12 7)]"]
  by simp

text \<open>
  Without the condition the promise fails. A heading after an open line covers the line,
  since \<open>row\<close> calls \<open>newline\<close> with no height, and a panel lower than its neighbour that fills
  a line lets the next line start inside the neighbour.
\<close>

theorem open_lines_overlap:
  assumes "0 < w" "w < 24" "0 < k" "k < h"
  shows "\<not> tiled (ly_panels (run_calls [Add (blank_panel w h), Row title]))
    \<and> \<not> tiled (ly_panels (run_calls
          [Add (blank_panel 12 h), Add (blank_panel 12 k), Add (blank_panel w k)]))"
  using assms by (simp add: tiled_run_calls)

theorem open_lines_overlap_witness:
  "\<not> tiled (ly_panels (run_calls [Add (blank_panel 8 5), Row ''Next'']))"
  using open_lines_overlap [of 8 4 5 "''Next''"] by simp

end
