(* ===== verification/Dashboards.thy ===== *)
theory Dashboards
  imports Layout JsonTrip
begin

text \<open>
  The four dashboards of \<open>src/monitoring/generate-dashboards.py\<close>, section by section: the
  panels with their queries, units, colours and thresholds, each loop of the script as a
  \<open>map\<close> over its tuples, and the files the script writes. The theorems show that the
  panels of the dashboards tile the grid, that they are consistent (distinct query letters
  and identifiers, overrides that name a column of the table) and that the written files
  read back as the dashboards.
\<close>

section \<open>Shared options\<close>

definition LINE :: json where
  "LINE =
     JObj [(''drawStyle'', JStr ''line''), (''lineWidth'', JInt 2), (''fillOpacity'', JInt 0),
           (''showPoints'', JStr ''never''), (''spanNulls'', JBool True),
           (''axisBorderShow'', JBool False), (''gradientMode'', JStr ''none''),
           (''lineInterpolation'', JStr ''smooth''), (''pointSize'', JInt 8),
           (''scaleDistribution'', JObj [(''type'', JStr ''linear'')]),
           (''hideFrom'',
            JObj [(''legend'', JBool False), (''tooltip'', JBool False), (''viz'', JBool False)])]"

definition AREA :: json where
  "AREA =
     (case LINE of
        JObj d \<Rightarrow> JObj (dict_set ''gradientMode'' (JStr ''opacity'')
                         (dict_set ''fillOpacity'' (JInt 10) d))
      | _ \<Rightarrow> JNull)"

definition ONLINE :: json where
  "ONLINE =
     JArr [JObj [(''type'', JStr ''value''),
                 (''options'',
                  JObj [(''0'', look ''red'' 1 ''DOWN''), (''1'', look ''green'' 0 ''UP'')])]]"

definition OKDEAD :: json where
  "OKDEAD =
     JArr [JObj [(''type'', JStr ''value''),
                 (''options'',
                  JObj [(''0'', look ''red'' 1 ''DEAD''), (''1'', look ''green'' 0 ''OK'')])]]"

definition YESNO :: json where
  "YESNO =
     JArr [JObj [(''type'', JStr ''value''),
                 (''options'',
                  JObj [(''0'', look ''dark-blue'' 0 ''no''),
                        (''1'', look ''green'' 1 ''yes'')])]]"

definition TS :: json where
  "TS =
     JObj [(''legend'',
            JObj [(''displayMode'', JStr ''list''), (''placement'', JStr ''bottom''),
                  (''showLegend'', JBool True), (''calcs'', JArr [])]),
           (''tooltip'',
            JObj [(''mode'', JStr ''multi''), (''sort'', JStr ''desc''),
                  (''hideZeros'', JBool False)])]"

definition TS_TABLE :: json where
  "TS_TABLE =
     JObj [(''legend'',
            JObj [(''displayMode'', JStr ''table''), (''placement'', JStr ''right''),
                  (''showLegend'', JBool True),
                  (''calcs'', JArr [JStr ''lastNotNull'', JStr ''min'', JStr ''max''])]),
           (''tooltip'',
            JObj [(''mode'', JStr ''multi''), (''sort'', JStr ''desc''),
                  (''hideZeros'', JBool False)])]"

definition TIMELINE :: json where
  "TIMELINE =
     JObj [(''showValue'', JStr ''never''), (''mergeValues'', JBool True),
           (''rowHeight'', JFloat ''0.85''), (''alignValue'', JStr ''center''),
           (''legend'',
            JObj [(''displayMode'', JStr ''list''), (''placement'', JStr ''bottom''),
                  (''showLegend'', JBool True)]),
           (''tooltip'', JObj [(''mode'', JStr ''single''), (''sort'', JStr ''none'')])]"

definition NAV :: "json list" where
  "NAV =
     [JObj [(''type'', JStr ''dashboards''), (''title'', JStr ''Rackphone''),
            (''tags'', JArr [JStr ''rackphone'']), (''asDropdown'', JBool True),
            (''icon'', JStr ''external link''), (''includeVars'', JBool True),
            (''keepTime'', JBool True), (''targetBlank'', JBool False)]]"

definition unit_var :: "bool \<Rightarrow> bool \<Rightarrow> json" where
  "unit_var multi all_units =
     JObj [(''name'', JStr ''unit''), (''label'', JStr ''Unit''), (''type'', JStr ''query''),
           (''datasource'', DS), (''definition'', JStr ''label_values(rackphone_up, unit)''),
           (''query'',
            JObj [(''qryType'', JInt 1), (''query'', JStr ''label_values(rackphone_up, unit)''),
                  (''refId'', JStr ''unit'')]),
           (''refresh'', JInt 1), (''includeAll'', JBool all_units), (''multi'', JBool multi),
           (''allValue'', JStr ''.*''),
           (''current'',
            JObj [(''selected'', JBool False), (''text'', JStr (if all_units then ''All'' else '''')),
                  (''value'', JStr (if all_units then ''$__all'' else ''''))]),
           (''sort'', JInt 1), (''hide'', JInt 0)]"

definition U :: string where
  "U = ''{unit=~\"$unit\"}''"

definition KEY :: string where
  "KEY = ''battery|msm-skin-therm-usr|quiet_therm|cpuss-0-usr|gpuss-0-usr|ddr-usr|'' @
         ''mdmss-0-usr|charger_therm0''"

definition UNIT_LINK :: json where
  "UNIT_LINK =
     JArr [JObj [(''title'', JStr ''Open unit dashboard''),
                 (''url'', JStr ''/d/rackphone-unit/rackphone-unit?var-unit=${__value.text}'')]]"

section \<open>Fleet: every unit at a glance\<close>

definition fleet_units :: "call list" where
  "fleet_units =
     [Row ''Fleet'',
      Add (panel ''Units up'' ''stat'' 8 5
             [target ''sum(rackphone_up)'' ''up'' ''A'' True JNull,
              target ''count(rackphone_up)'' ''total'' ''B'' True JNull]
             (fc (field_defaults\<lparr>fa_dec := JInt 0, fa_color := THRESH,
                                 fa_thresholds := steps (''red'', JNull) [(''green'', JInt 1)]\<rparr>))
             (stat ''value'' ''none'')
             (JStr ''Left number is reachable units; right is configured units.'')),
      Add (panel ''Any unit down'' ''stat'' 8 5
             [target ''count(rackphone_up == 0) or vector(0)'' ''down'' ''A'' True JNull]
             (fc (field_defaults\<lparr>fa_dec := JInt 0, fa_color := THRESH,
                                 fa_thresholds := steps (''green'', JNull) [(''red'', JInt 1)]\<rparr>))
             (stat ''background'' ''none'')
             (JStr ''Reserved status colour: red means act, not 'series 2'.'')),
      Add (panel ''Guards dead'' ''stat'' 8 5
             [target ''count(rackphone_battery_guard_up == 0) or vector(0)'' ''dead'' ''A'' True
                JNull]
             (fc (field_defaults\<lparr>fa_dec := JInt 0, fa_color := THRESH,
                                 fa_thresholds := steps (''green'', JNull) [(''red'', JInt 1)]\<rparr>))
             (stat ''background'' ''none'')
             (JStr (''A dead guard while charging is suspended means a unit is silently '' @
                    ''discharging.'')))]"

definition fleet_health :: "call list" where
  "fleet_health =
     [Row ''Fleet health'',
      Add (panel ''Weakest signal'' ''stat'' 8 5
             [target ''min(rackphone_lte_rsrp_dbm)'' ''rsrp'' ''A'' True JNull]
             (fc (field_defaults\<lparr>fa_unit := JStr ''dBm'', fa_dec := JInt 0, fa_color := THRESH,
                                 fa_thresholds := steps (''red'', JNull)
                                                    [(''orange'', JInt (-110)),
                                                     (''yellow'', JInt (-100)),
                                                     (''green'', JInt (-90))]\<rparr>))
             (stat ''background'' ''none'')
             (JStr ''Worst RSRP across the fleet. >-90 good, -100..-90 fair, <-110 poor.'')),
      Add (panel ''Hottest unit'' ''stat'' 8 5
             [target
                (''max(rackphone_temperature_celsius{zone=~\"msm-skin-therm-usr|quiet_therm\"}) by (unit)'')
                ''{{unit}}'' ''A'' True JNull]
             (fc (field_defaults\<lparr>fa_unit := JStr ''celsius'', fa_dec := JInt 1,
                                 fa_color := THRESH,
                                 fa_thresholds := steps (''green'', JNull)
                                                    [(''yellow'', JInt 45), (''orange'', JInt 55),
                                                     (''red'', JInt 65)]\<rparr>))
             (stat ''background'' ''none'')
             (JStr ''Skin temperature, which is what a rack full of phones actually heats up.'')),
      Add (panel ''Lowest health'' ''stat'' 8 5
             [target ''min(rackphone_battery_health_ratio) * 100'' ''soh'' ''A'' True JNull]
             (fc (field_defaults\<lparr>fa_unit := JStr ''percent'', fa_dec := JInt 1,
                                 fa_color := THRESH,
                                 fa_thresholds := steps (''red'', JNull)
                                                    [(''orange'', JInt 70), (''yellow'', JInt 85),
                                                     (''green'', JInt 92)]\<rparr>))
             (stat ''background'' ''none'')
             (JStr ''charge_full / charge_full_design across the fleet.''))]"

definition fleet_transformations :: json where
  "fleet_transformations =
     JArr [JObj [(''id'', JStr ''joinByField''),
                 (''options'', JObj [(''byField'', JStr ''unit''), (''mode'', JStr ''outer'')])],
           JObj [(''id'', JStr ''organize''),
                 (''options'',
                  JObj [(''excludeByName'',
                         JObj [(''Time'', JBool True), (''Time 1'', JBool True),
                               (''Time 2'', JBool True), (''Time 3'', JBool True),
                               (''Time 4'', JBool True), (''Time 5'', JBool True),
                               (''Time 6'', JBool True), (''Time 7'', JBool True),
                               (''Time 8'', JBool True), (''__name__'', JBool True),
                               (''job'', JBool True), (''instance'', JBool True),
                               (''slot'', JBool True), (''monitor'', JBool True)]),
                        (''renameByName'',
                         JObj [(''unit'', JStr ''Unit''), (''Value #A'', JStr ''State''),
                               (''Value #B'', JStr ''Charge''), (''Value #C'', JStr ''Health''),
                               (''Value #D'', JStr ''Guard''), (''Value #E'', JStr ''Skin temp''),
                               (''Value #F'', JStr ''RSRP''), (''Value #G'', JStr ''Uptime''),
                               (''Value #H'', JStr ''Suspended'')]),
                        (''indexByName'', JObj [])])]]"

definition fleet_overrides :: json where
  "fleet_overrides =
     JArr [override ''Unit'' [(''links'', UNIT_LINK), (''custom.width'', JInt 140)],
           override ''State''
             [(''mappings'', ONLINE),
              (''custom.cellOptions'', JObj [(''type'', JStr ''color-text'')]),
              (''thresholds'',
               JObj [(''mode'', JStr ''absolute''),
                     (''steps'', steps (''red'', JNull) [(''green'', JInt 1)])])],
           override ''Charge''
             [(''unit'', JStr ''percent''), (''decimals'', JInt 0), (''max'', JInt 100),
              (''min'', JInt 0),
              (''custom.cellOptions'',
               JObj [(''type'', JStr ''gauge''), (''mode'', JStr ''gradient'')]),
              (''thresholds'',
               JObj [(''mode'', JStr ''absolute''),
                     (''steps'',
                      steps (''red'', JNull)
                        [(''orange'', JInt 20), (''green'', JInt 40), (''yellow'', JInt 90)])])],
           override ''Health''
             [(''unit'', JStr ''percent''), (''decimals'', JInt 1),
              (''custom.cellOptions'', JObj [(''type'', JStr ''color-text'')]),
              (''thresholds'',
               JObj [(''mode'', JStr ''absolute''),
                     (''steps'',
                      steps (''red'', JNull)
                        [(''orange'', JInt 70), (''yellow'', JInt 85), (''green'', JInt 92)])])],
           override ''Guard''
             [(''mappings'', OKDEAD),
              (''custom.cellOptions'', JObj [(''type'', JStr ''color-text'')]),
              (''thresholds'',
               JObj [(''mode'', JStr ''absolute''),
                     (''steps'', steps (''red'', JNull) [(''green'', JInt 1)])])],
           override ''Suspended''
             [(''mappings'', YESNO),
              (''custom.cellOptions'', JObj [(''type'', JStr ''color-text'')]),
              (''thresholds'',
               JObj [(''mode'', JStr ''absolute''), (''steps'', steps (''text'', JNull) [])])],
           override ''Skin temp''
             [(''unit'', JStr ''celsius''), (''decimals'', JInt 1),
              (''custom.cellOptions'', JObj [(''type'', JStr ''color-text'')]),
              (''thresholds'',
               JObj [(''mode'', JStr ''absolute''),
                     (''steps'',
                      steps (''green'', JNull)
                        [(''yellow'', JInt 45), (''orange'', JInt 55), (''red'', JInt 65)])])],
           override ''RSRP''
             [(''unit'', JStr ''dBm''), (''decimals'', JInt 0),
              (''custom.cellOptions'', JObj [(''type'', JStr ''color-text'')]),
              (''thresholds'',
               JObj [(''mode'', JStr ''absolute''),
                     (''steps'',
                      steps (''red'', JNull)
                        [(''orange'', JInt (-110)), (''yellow'', JInt (-100)),
                         (''green'', JInt (-90))])])],
           override ''Uptime'' [(''unit'', JStr ''s''), (''decimals'', JInt 0)]]"

definition fleet_table :: "call list" where
  "fleet_table =
     [Row ''Per unit'',
      Add ((panel ''Fleet summary'' ''table'' 24 8
              [target ''rackphone_up'' '''' ''A'' True (JStr ''table''),
               target ''rackphone_battery_capacity_percent'' '''' ''B'' True (JStr ''table''),
               target ''rackphone_battery_health_ratio * 100'' '''' ''C'' True (JStr ''table''),
               target ''rackphone_battery_guard_up'' '''' ''D'' True (JStr ''table''),
               target
                 (''max(rackphone_temperature_celsius{zone=~\"msm-skin-therm-usr|quiet_therm\"}) by (unit)'')
                 '''' ''E'' True (JStr ''table''),
               target ''rackphone_lte_rsrp_dbm'' '''' ''F'' True (JStr ''table''),
               target ''rackphone_uptime_seconds'' '''' ''G'' True (JStr ''table''),
               target ''rackphone_battery_charging_suspended'' '''' ''H'' True (JStr ''table'')]
              (fc (field_defaults\<lparr>fa_color := THRESH,
                                  fa_custom := JObj [(''align'', JStr ''auto''),
                                                     (''cellOptions'',
                                                      JObj [(''type'', JStr ''auto'')]),
                                                     (''filterable'', JBool False),
                                                     (''inspect'', JBool False)]\<rparr>))
              (JObj [(''showHeader'', JBool True), (''cellHeight'', JStr ''sm''),
                     (''footer'',
                      JObj [(''show'', JBool False), (''reducer'', JArr [JStr ''sum'']),
                            (''countRows'', JBool False), (''fields'', JStr '''')])])
              (JStr ''One row per device. Click a unit name to open its detail dashboard.''))
            \<lparr>pa_transformations := fleet_transformations, pa_overrides := fleet_overrides\<rparr>)]"

definition fleet_comparison :: "call list" where
  "fleet_comparison =
     [Row ''Comparison''] @
     map (\<lambda>(title, expr, unit, dec, custom, desc).
        Add (panel title ''timeseries'' 12 7 [target expr ''{{unit}}'' ''A'' False JNull]
               (fc (field_defaults\<lparr>fa_unit := unit, fa_dec := dec, fa_custom := custom,
                                   fa_color := BY_NAME\<rparr>)) TS desc))
       [(''Charge'', ''rackphone_battery_capacity_percent'', JStr ''percent'', JInt 0, AREA,
         JStr ''Units drifting apart here usually means one is not getting enough USB current.''),
        (''Skin temperature'',
         (''max(rackphone_temperature_celsius{zone=~\"msm-skin-therm-usr|quiet_therm\"}) by '' @
          ''(unit)''), JStr ''celsius'', JInt 1, LINE,
         JStr (''Hottest of the skin sensors per unit. The individual zones are on the Unit '' @
               ''dashboard.'')),
        (''LTE RSRP'', ''min(rackphone_lte_rsrp_dbm) by (unit)'', JStr ''dBm'', JInt 0, LINE,
         JStr (''Weakest slot per unit, matching the Weakest signal tile. Per-slot detail '' @
               ''is on the Unit dashboard.'')),
        (''Collect cost'', ''rackphone_collect_duration_seconds'', JStr ''s'', JInt 3, LINE,
         JStr ''Rising toward the 10s scrape timeout means the USB link is degrading.'')]"

definition fleet_calls :: "call list" where
  "fleet_calls = fleet_units @ fleet_health @ fleet_table @ fleet_comparison"

definition fleet :: json where
  "fleet =
     dashboard ''rackphone-fleet'' ''Rackphone / Fleet''
       ''Every unit at a glance. Start here.'' (ly_panels (run_calls fleet_calls))
       [] ''now-12h'' ''30s'' NAV"
section \<open>Unit: one device in detail\<close>

definition unit_overview :: "call list" where
  "unit_overview =
     [Row ''Overview'',
      Add (panel ''State'' ''stat'' 6 5
             [target (''rackphone_up'' @ U) ''{{unit}}'' ''A'' True JNull]
             (fc (field_defaults\<lparr>fa_color := THRESH, fa_mappings := ONLINE,
                                 fa_thresholds := steps (''red'', JNull) [(''green'', JInt 1)]\<rparr>))
             (stat ''background'' ''none'') JNull),
      Add (panel ''Charge'' ''gauge'' 6 5
             [target (''rackphone_battery_capacity_percent'' @ U) ''{{unit}}'' ''A'' True JNull]
             (fc (field_defaults\<lparr>fa_unit := JStr ''percent'', fa_mn := JInt 0, fa_mx := JInt 100,
                                 fa_dec := JInt 0, fa_color := THRESH,
                                 fa_thresholds := steps (''red'', JNull)
                                                    [(''orange'', JInt 20), (''green'', JInt 40),
                                                     (''yellow'', JInt 90)]\<rparr>))
             (JObj [(''reduceOptions'', last_value), (''showThresholdMarkers'', JBool True),
                    (''showThresholdLabels'', JBool False)])
             (JStr ''Yellow above 90% is deliberate: a cabled pack should not live up there.'')),
      Add (panel ''Health'' ''stat'' 6 5
             [target (''rackphone_battery_health_ratio'' @ U @ '' * 100'') ''{{unit}}'' ''A'' True
                JNull]
             (fc (field_defaults\<lparr>fa_unit := JStr ''percent'', fa_dec := JInt 1,
                                 fa_color := THRESH,
                                 fa_thresholds := steps (''red'', JNull)
                                                    [(''orange'', JInt 70), (''yellow'', JInt 85),
                                                     (''green'', JInt 92)]\<rparr>))
             (stat ''background'' ''none'') JNull),
      Add (panel ''Guard'' ''stat'' 6 5
             [target (''rackphone_battery_guard_up'' @ U) ''{{unit}}'' ''A'' True JNull]
             (fc (field_defaults\<lparr>fa_color := THRESH, fa_mappings := OKDEAD,
                                 fa_thresholds := steps (''red'', JNull) [(''green'', JInt 1)]\<rparr>))
             (stat ''background'' ''none'') JNull)]"

definition unit_access :: "call list" where
  "unit_access =
     [Row ''Signal and access'',
      Add (panel ''Uptime'' ''stat'' 8 5
             [target (''rackphone_uptime_seconds'' @ U) ''{{unit}}'' ''A'' True JNull]
             (fc (field_defaults\<lparr>fa_unit := JStr ''s'', fa_dec := JInt 0,
                                 fa_color := FIXED ''text''\<rparr>)) (stat ''none'' ''none'') JNull),
      Add (panel ''RSRP'' ''stat'' 8 5
             [target (''rackphone_lte_rsrp_dbm'' @ U) ''slot {{slot}}'' ''A'' True JNull]
             (fc (field_defaults\<lparr>fa_unit := JStr ''dBm'', fa_dec := JInt 0, fa_color := THRESH,
                                 fa_thresholds := steps (''red'', JNull)
                                                    [(''orange'', JInt (-110)),
                                                     (''yellow'', JInt (-100)),
                                                     (''green'', JInt (-90))]\<rparr>))
             (stat ''background'' ''none'') JNull),
      Add (panel ''Root'' ''stat'' 8 5
             [target (''rackphone_root_available'' @ U) ''{{unit}}'' ''A'' True JNull]
             (fc (field_defaults\<lparr>fa_color := THRESH,
                                 fa_mappings := JArr [JObj [(''type'', JStr ''value''),
                                                            (''options'',
                                                             JObj [(''0'',
                                                                    look ''orange'' 1
                                                                      ''NO ROOT''),
                                                                   (''1'',
                                                                    look ''green'' 0
                                                                      ''ROOT'')])]],
                                 fa_thresholds := steps (''orange'', JNull)
                                                    [(''green'', JInt 1)]\<rparr>))
             (stat ''background'' ''none'')
             (JStr ''Without root the guard cannot run and several series disappear.''))]"

definition window_overrides :: json where
  "window_overrides =
     JArr [override ''stop at''
             [(''color'', FIXED ''orange''),
              (''custom.lineStyle'',
               JObj [(''fill'', JStr ''dash''), (''dash'', JArr [JInt 8, JInt 6])]),
              (''custom.fillOpacity'', JInt 0)],
           override ''resume below''
             [(''color'', FIXED ''blue''),
              (''custom.lineStyle'',
               JObj [(''fill'', JStr ''dash''), (''dash'', JArr [JInt 8, JInt 6])]),
              (''custom.fillOpacity'', JInt 0)]]"

definition unit_battery :: "call list" where
  "unit_battery =
     [Row ''Battery'',
      Add ((panel ''Charge level and window'' ''timeseries'' 12 8
              [target (''rackphone_battery_capacity_percent'' @ U) ''charge'' ''A'' False JNull,
               target ''rackphone_battery_window_percent{unit=~\"$unit\",bound=\"max\"}''
                 ''stop at'' ''B'' False JNull,
               target ''rackphone_battery_window_percent{unit=~\"$unit\",bound=\"min\"}''
                 ''resume below'' ''C'' False JNull]
              (fc (field_defaults\<lparr>fa_unit := JStr ''percent'', fa_mn := JInt 0, fa_mx := JInt 100,
                                  fa_dec := JInt 0, fa_custom := AREA\<rparr>)) TS
              (JStr (''Window bounds are plotted as series, so a config change is visible '' @
                     ''on the chart.'')))
            \<lparr>pa_overrides := window_overrides\<rparr>),
      Add (panel ''Current'' ''timeseries'' 6 8
             [target (''rackphone_battery_current_amperes'' @ U) ''current'' ''A'' False JNull]
             (fc (field_defaults\<lparr>fa_unit := JStr ''amp'', fa_dec := JInt 3, fa_custom := AREA\<rparr>))
             TS
             (JStr (''Sign convention is vendor-defined on this kernel; read direction as '' @
                    ''relative.''))),
      Add (panel ''Voltage'' ''timeseries'' 6 8
             [target (''rackphone_battery_voltage_volts'' @ U) ''voltage'' ''A'' False JNull]
             (fc (field_defaults\<lparr>fa_unit := JStr ''volt'', fa_dec := JInt 3, fa_custom := LINE\<rparr>))
             TS JNull),
      Add (panel ''Charging state'' ''state-timeline'' 12 6
             [target (''rackphone_battery_charging_suspended'' @ U) ''guard suspended'' ''A''
                False JNull,
              target (''rackphone_battery_charging'' @ U) ''charging'' ''B'' False JNull]
             (fc (field_defaults\<lparr>fa_color := THRESH, fa_mappings := YESNO,
                                 fa_thresholds := steps (''dark-blue'', JNull)
                                                    [(''green'', JInt 1)]\<rparr>)) TIMELINE
             (JStr (''State, not magnitude - a timeline reads better than two flat lines at '' @
                    ''0 and 1.''))),
      Add (panel ''Battery and connector temperature'' ''timeseries'' 12 6
             [target (''rackphone_battery_temperature_celsius'' @ U) ''battery'' ''A'' False
                JNull,
              target (''rackphone_connector_temperature_celsius'' @ U) ''connector'' ''B'' False
                JNull]
             (fc (field_defaults\<lparr>fa_unit := JStr ''celsius'', fa_dec := JInt 1,
                                 fa_custom := LINE\<rparr>)) TS
             (JStr (''Connector temperature is the one that matters for a phone left cabled '' @
                    ''for months.'')))]"

definition unit_thermal :: "call list" where
  "unit_thermal =
     [Row ''Thermal'',
      Add (panel ''Key zones'' ''timeseries'' 14 9
             [target (''rackphone_temperature_celsius{unit=~\"$unit\",zone=~\"'' @ KEY @ ''\"}'')
                ''{{zone}}'' ''A'' False JNull]
             (fc (field_defaults\<lparr>fa_unit := JStr ''celsius'', fa_dec := JInt 1,
                                 fa_custom := LINE\<rparr>)) TS_TABLE
             (JStr (''Eight zones, not all 23: past roughly eight series a line chart stops '' @
                    ''being readable.''))),
      Add (panel ''All zones, latest'' ''bargauge'' 10 9
             [target (''rackphone_temperature_celsius'' @ U) ''{{zone}}'' ''A'' True JNull]
             (fc (field_defaults\<lparr>fa_unit := JStr ''celsius'', fa_dec := JInt 1, fa_mn := JInt 20,
                                 fa_mx := JInt 60, fa_color := SEQ\<rparr>))
             (JObj [(''displayMode'', JStr ''gradient''), (''orientation'', JStr ''horizontal''),
                    (''showUnfilled'', JBool True), (''minVizWidth'', JInt 8),
                    (''minVizHeight'', JInt 10), (''valueMode'', JStr ''color''),
                    (''sizing'', JStr ''auto''), (''namePlacement'', JStr ''auto''),
                    (''maxVizHeight'', JInt 300), (''reduceOptions'', last_value)])
             (JStr (''Temperature is magnitude, so one sequential ramp rather than 23 '' @
                    ''cycled hues.'')))]"

definition unit_system :: "call list" where
  "unit_system =
     [Row ''System'',
      Add (panel ''CPU utilisation'' ''timeseries'' 8 8
             [target
                (''100 * (1 - rate(rackphone_cpu_seconds_total{unit=~\"$unit\",mode=\"idle\"}[5m]) '' @
                 ''/ ignoring(mode) sum without(mode)(rate(rackphone_cpu_seconds_total'' @ U @
                 ''[5m])))'') ''busy'' ''A'' False JNull]
             (fc (field_defaults\<lparr>fa_unit := JStr ''percent'', fa_mn := JInt 0, fa_mx := JInt 100,
                                 fa_dec := JInt 1, fa_custom := AREA,
                                 fa_color := FIXED ''green''\<rparr>)) TS JNull),
      Add (panel ''Memory'' ''timeseries'' 8 8
             [target
                (''rackphone_memory_bytes{unit=~\"$unit\",kind=\"total\"} - ignoring(kind) '' @
                 ''rackphone_memory_bytes{unit=~\"$unit\",kind=\"available\"}'') ''used'' ''A''
                False JNull,
              target ''rackphone_memory_bytes{unit=~\"$unit\",kind=\"total\"}'' ''total'' ''B''
                False JNull] (fc (field_defaults\<lparr>fa_unit := JStr ''bytes'', fa_custom := AREA\<rparr>))
             TS JNull),
      Add (panel ''Load average'' ''timeseries'' 8 8
             [target (''rackphone_load1'' @ U) ''1m'' ''A'' False JNull,
              target (''rackphone_load5'' @ U) ''5m'' ''B'' False JNull,
              target (''rackphone_load15'' @ U) ''15m'' ''C'' False JNull]
             (fc (field_defaults\<lparr>fa_dec := JInt 2, fa_mn := JInt 0, fa_custom := LINE\<rparr>)) TS
             JNull),
      Add (panel ''Storage /data'' ''timeseries'' 8 7
             [target ''rackphone_filesystem_bytes{unit=~\"$unit\",kind=\"used\"}'' ''used'' ''A''
                False JNull,
              target ''rackphone_filesystem_bytes{unit=~\"$unit\",kind=\"size\"}'' ''size'' ''B''
                False JNull] (fc (field_defaults\<lparr>fa_unit := JStr ''bytes'', fa_custom := AREA\<rparr>))
             TS JNull),
      Add (panel ''Network throughput'' ''timeseries'' 16 7
             [target
                ''rate(rackphone_network_bytes_total{unit=~\"$unit\",direction=\"rx\"}[2m]) * 8''
                ''{{interface}} rx'' ''A'' False JNull,
              target
                ''rate(rackphone_network_bytes_total{unit=~\"$unit\",direction=\"tx\"}[2m]) * 8''
                ''{{interface}} tx'' ''B'' False JNull]
             (fc (field_defaults\<lparr>fa_unit := JStr ''bps'', fa_custom := AREA\<rparr>)) TS_TABLE
             (JStr (''Counters are stored and the rate computed at query time - never store '' @
                    ''a pre-computed rate.'')))]"

definition unit_radio :: "call list" where
  "unit_radio =
     [Row ''Radio''] @
     map (\<lambda>(title, lte, nr, unit, desc).
        Add (panel title ''timeseries'' 8 7
               [target (lte @ U) ''LTE slot {{slot}}'' ''A'' False JNull,
                target (nr @ U) ''NR slot {{slot}}'' ''B'' False JNull]
               (fc (field_defaults\<lparr>fa_unit := unit, fa_dec := JInt 0, fa_custom := LINE,
                                   fa_nodata := JStr ''no reading''\<rparr>)) TS desc))
       [(''RSRP'', ''rackphone_lte_rsrp_dbm'', ''rackphone_nr_ss_rsrp_dbm'', JStr ''dBm'',
         JStr (''One measure per panel. RSRP, RSRQ and SINR have different scales, and a '' @
               ''shared axis would misrepresent all three.'')),
        (''RSRQ'', ''rackphone_lte_rsrq_db'', ''rackphone_nr_ss_rsrq_db'', JStr ''dB'', JNull),
        (''SINR'', ''rackphone_lte_sinr_db'', ''rackphone_nr_ss_sinr_db'', JStr ''dB'', JNull)] @
     [Add (panel ''Registration'' ''state-timeline'' 12 5
             [target (''rackphone_data_registered'' @ U) ''data slot {{slot}}'' ''A'' False JNull,
              target (''rackphone_voice_registered'' @ U) ''voice slot {{slot}}'' ''B'' False
                JNull]
             (fc (field_defaults\<lparr>fa_color := THRESH,
                                 fa_mappings := JArr [JObj [(''type'', JStr ''value''),
                                                            (''options'',
                                                             JObj [(''0'',
                                                                    look ''red'' 1 ''out''),
                                                                   (''1'',
                                                                    look ''green'' 0
                                                                      ''in service'')])]],
                                 fa_thresholds := steps (''red'', JNull) [(''green'', JInt 1)]\<rparr>))
             TIMELINE JNull),
      Add (panel ''Scrape cost'' ''timeseries'' 12 5
             [target (''rackphone_scrape_duration_seconds'' @ U) ''on-device'' ''A'' False JNull,
              target (''rackphone_collect_duration_seconds'' @ U) ''host round-trip'' ''B'' False
                JNull]
             (fc (field_defaults\<lparr>fa_unit := JStr ''s'', fa_dec := JInt 3, fa_mn := JInt 0,
                                 fa_custom := LINE\<rparr>)) TS
             (JStr (''If the host round-trip climbs toward the 10s scrape timeout, the USB '' @
                    ''link is degrading.'')))]"

definition unit_calls :: "call list" where
  "unit_calls = unit_overview @ unit_access @ unit_battery @ unit_thermal @ unit_system @ unit_radio"

definition unit_dash :: json where
  "unit_dash =
     dashboard ''rackphone-unit'' ''Rackphone / Unit''
       ''One device in detail. Pick a unit above.'' (ly_panels (run_calls unit_calls))
       [unit_var False False] ''now-6h'' ''30s'' NAV"
section \<open>Battery: ageing over weeks\<close>

definition battery_condition :: "call list" where
  "battery_condition =
     [Row ''Pack condition'',
      Add (panel ''Health by unit'' ''bargauge'' 8 6
             [target ''rackphone_battery_health_ratio * 100'' ''{{unit}}'' ''A'' True JNull]
             (fc (field_defaults\<lparr>fa_unit := JStr ''percent'', fa_dec := JInt 1, fa_mn := JInt 0,
                                 fa_mx := JInt 100, fa_color := THRESH,
                                 fa_thresholds := steps (''red'', JNull)
                                                    [(''orange'', JInt 70), (''yellow'', JInt 85),
                                                     (''green'', JInt 92)]\<rparr>))
             (JObj [(''displayMode'', JStr ''gradient''), (''orientation'', JStr ''horizontal''),
                    (''showUnfilled'', JBool True), (''minVizWidth'', JInt 8),
                    (''minVizHeight'', JInt 16), (''valueMode'', JStr ''color''),
                    (''sizing'', JStr ''auto''), (''reduceOptions'', last_value)])
             (JStr ''Measured capacity against design capacity.'')),
      Add (panel ''Cycles by unit'' ''bargauge'' 8 6
             [target ''rackphone_battery_cycle_count'' ''{{unit}}'' ''A'' True JNull]
             (fc (field_defaults\<lparr>fa_dec := JInt 0, fa_mn := JInt 0, fa_color := THRESH,
                                 fa_thresholds := steps (''green'', JNull)
                                                    [(''yellow'', JInt 500),
                                                     (''orange'', JInt 800),
                                                     (''red'', JInt 1200)]\<rparr>))
             (JObj [(''displayMode'', JStr ''gradient''), (''orientation'', JStr ''horizontal''),
                    (''showUnfilled'', JBool True), (''minVizWidth'', JInt 8),
                    (''minVizHeight'', JInt 16), (''valueMode'', JStr ''color''),
                    (''sizing'', JStr ''auto''), (''reduceOptions'', last_value)])
             (JStr (''Li-ion is typically specified to ~500 full cycles before noticeable '' @
                    ''fade.''))),
      Add (panel ''Capacity, measured vs design'' ''bargauge'' 8 6
             [target ''rackphone_battery_charge_full_ampere_hours * 1000'' ''{{unit}} now'' ''A''
                True JNull,
              target ''rackphone_battery_charge_design_ampere_hours * 1000'' ''{{unit}} design''
                ''B'' True JNull]
             (fc (field_defaults\<lparr>fa_unit := JStr ''mAh'', fa_dec := JInt 0, fa_mn := JInt 0,
                                 fa_color := BY_NAME\<rparr>))
             (JObj [(''displayMode'', JStr ''basic''), (''orientation'', JStr ''horizontal''),
                    (''showUnfilled'', JBool True), (''minVizWidth'', JInt 8),
                    (''minVizHeight'', JInt 16), (''valueMode'', JStr ''text''),
                    (''sizing'', JStr ''auto''), (''reduceOptions'', last_value)]) JNull)]"

definition battery_trends :: "call list" where
  "battery_trends =
     [Row ''Trends'',
      Add (panel ''Health over time'' ''timeseries'' 12 8
             [target ''rackphone_battery_health_ratio * 100'' ''{{unit}}'' ''A'' False JNull]
             (fc (field_defaults\<lparr>fa_unit := JStr ''percent'', fa_dec := JInt 2, fa_custom := LINE,
                                 fa_color := BY_NAME\<rparr>)) TS_TABLE
             (JStr (''Only meaningful over weeks. The fuel gauge re-estimates capacity '' @
                    ''slowly and in steps.''))),
      Add (panel ''Cycle count over time'' ''timeseries'' 12 8
             [target ''rackphone_battery_cycle_count'' ''{{unit}}'' ''A'' False JNull]
             (fc (field_defaults\<lparr>fa_dec := JInt 0, fa_custom := LINE, fa_color := BY_NAME\<rparr>))
             TS_TABLE
             (JStr (''Slope is the real number to watch: a wider charge window should '' @
                    ''flatten it.''))),
      Add (panel ''Charge level'' ''timeseries'' 12 8
             [target ''rackphone_battery_capacity_percent'' ''{{unit}}'' ''A'' False JNull]
             (fc (field_defaults\<lparr>fa_unit := JStr ''percent'', fa_mn := JInt 0, fa_mx := JInt 100,
                                 fa_dec := JInt 0, fa_custom := AREA, fa_color := BY_NAME\<rparr>)) TS
             (JStr (''Over a long window this shows whether the guard is actually holding '' @
                    ''the window.''))),
      Add (panel ''Time spent suspended'' ''timeseries'' 12 8
             [target ''avg_over_time(rackphone_battery_charging_suspended[1h]) * 100''
                ''{{unit}}'' ''A'' False JNull]
             (fc (field_defaults\<lparr>fa_unit := JStr ''percent'', fa_mn := JInt 0, fa_mx := JInt 100,
                                 fa_dec := JInt 0, fa_custom := AREA, fa_color := BY_NAME\<rparr>)) TS
             (JStr (''Fraction of each hour with charging held off. Near 100% means the '' @
                    ''pack sits at the ceiling.''))),
      Add (panel ''Battery temperature'' ''timeseries'' 24 7
             [target ''rackphone_battery_temperature_celsius'' ''{{unit}}'' ''A'' False JNull]
             (fc (field_defaults\<lparr>fa_unit := JStr ''celsius'', fa_dec := JInt 1, fa_custom := LINE,
                                 fa_color := BY_NAME\<rparr>)) TS_TABLE
             (JStr (''Heat ages a pack faster than cycling does. Sustained time above ~35C '' @
                    ''is the thing to fix.'')))]"

definition battery_calls :: "call list" where
  "battery_calls = battery_condition @ battery_trends"

definition battery :: json where
  "battery =
     dashboard ''rackphone-battery'' ''Rackphone / Battery''
       ''Pack ageing across the fleet. Use a 30d or 90d range.'' (ly_panels (run_calls battery_calls))
       [] ''now-30d'' ''5m'' NAV"
section \<open>Messaging: will the SIMs survive\<close>

definition messaging_sims :: "call list" where
  "messaging_sims =
     [Row ''SIM health'',
      Add (panel ''Balance'' ''stat'' 8 5
             [target ''rackphone_companion_balance'' ''{{unit}} sub {{sub_id}}'' ''A'' True JNull]
             (fc (field_defaults\<lparr>fa_unit := JStr ''currencyRUB'', fa_dec := JInt 2,
                                 fa_color := THRESH,
                                 fa_thresholds := steps (''red'', JNull)
                                                    [(''orange'', JInt 30),
                                                     (''green'', JInt 100)]\<rparr>))
             (stat ''background'' ''none'')
             (JStr (''Red below 30 is not a warning but an outage in waiting: a keepalive '' @
                    ''SMS costs a few roubles, and a SIM that cannot send one is a SIM the '' @
                    ''operator reclaims.''))),
      Add (panel ''Balance last read'' ''stat'' 8 5
             [target ''rackphone_companion_balance_age_seconds'' ''{{unit}} sub {{sub_id}}'' ''A''
                True JNull]
             (fc (field_defaults\<lparr>fa_unit := JStr ''s'', fa_dec := JInt 0, fa_color := THRESH,
                                 fa_thresholds := steps (''green'', JNull)
                                                    [(''orange'', JInt 172800),
                                                     (''red'', JInt 259200)]\<rparr>))
             (stat ''background'' ''none'')
             (JStr (''A balance that stopped being refreshed is not a balance. This is what '' @
                    ''keeps the panel to its left honest.''))),
      Add (panel ''Alarms will run'' ''stat'' 8 5
             [target ''rackphone_companion_battery_exempt'' ''{{unit}}'' ''A'' True JNull]
             (fc (field_defaults\<lparr>fa_dec := JInt 0, fa_color := THRESH, fa_mappings := YESNO,
                                 fa_thresholds := steps (''red'', JNull) [(''green'', JInt 1)]\<rparr>))
             (stat ''background'' ''none'')
             (JStr (''Android defers an unopened app's alarms by up to a year. When this is '' @
                    ''no, the keepalive below is a schedule nobody executes.''))),
      Add (panel ''Next keepalive'' ''stat'' 12 5
             [target ''rackphone_companion_keepalive_seconds_until_due'' ''{{unit}}'' ''A'' True
                JNull]
             (fc (field_defaults\<lparr>fa_unit := JStr ''s'', fa_dec := JInt 0, fa_color := THRESH,
                                 fa_thresholds := steps (''green'', JNull) [(''text'', JInt 1)]\<rparr>))
             (stat ''value'' ''none'')
             (JStr (''Time until the earliest SIM is due. Any successful send resets it, so '' @
                    ''a busy unit shows a full interval and sends nothing extra.''))),
      Add (panel ''Targets that resolve to nothing'' ''stat'' 12 5
             [target ''sum by (unit) (rackphone_companion_keepalive_targets{resolves=\"false\"})''
                ''{{unit}}'' ''A'' True JNull]
             (fc (field_defaults\<lparr>fa_dec := JInt 0, fa_color := THRESH,
                                 fa_thresholds := steps (''green'', JNull) [(''red'', JInt 1)]\<rparr>))
             (stat ''background'' ''none'')
             (JStr (''A SIM whose own number is not on the card cannot text itself. '' @
                    ''Everything else about it looks healthy, which is why it is here.'')))]"

definition messaging_balance :: "call list" where
  "messaging_balance =
     [Row ''Balance over time'',
      Add (panel ''Balance'' ''timeseries'' 24 9
             [target ''rackphone_companion_balance'' ''{{unit}} sub {{sub_id}}'' ''A'' False
                JNull]
             (fc (field_defaults\<lparr>fa_unit := JStr ''currencyRUB'', fa_dec := JInt 2,
                                 fa_custom := AREA, fa_color := BY_NAME\<rparr>)) TS_TABLE
             (JStr (''Steps down are sends; a flat line at a low value is a SIM about to '' @
                    ''stop being able to keep itself alive. Read over 30d.'')))]"

definition messaging_delivery :: "call list" where
  "messaging_delivery =
     [Row ''Delivery'',
      Add (panel ''Waiting for the host'' ''timeseries'' 12 7
             [target ''rackphone_companion_events_pending'' ''{{unit}}'' ''A'' False JNull]
             (fc (field_defaults\<lparr>fa_dec := JInt 0, fa_custom := AREA, fa_color := BY_NAME\<rparr>)) TS
             (JStr (''Events collected and not yet acked. A rising line means the gateway '' @
                    ''stopped draining, not that the phone is busy.''))),
      Add (panel ''Dropped at the cap'' ''timeseries'' 12 7
             [target ''increase(rackphone_companion_events_dropped_total[1h])'' ''{{unit}}'' ''A''
                False JNull]
             (fc (field_defaults\<lparr>fa_dec := JInt 0, fa_custom := AREA, fa_color := FIXED ''red''\<rparr>))
             TS (JStr ''Anything above zero is a message that existed and no longer does.'')),
      Add (panel ''Sends, by outcome'' ''timeseries'' 12 7
             [target ''increase(rackphone_companion_sent_total[24h])'' ''{{unit}} {{outcome}}''
                ''A'' False JNull]
             (fc (field_defaults\<lparr>fa_dec := JInt 0, fa_custom := LINE, fa_color := BY_NAME\<rparr>))
             TS_TABLE
             (JStr (''Rejected means it never reached the radio - permission, no SIM, an '' @
                    ''unusable number. Failed means the radio took it and the network did '' @
                    ''not.''))),
      Add (panel ''Companion'' ''stat'' 12 7
             [target ''rackphone_companion_up'' ''{{unit}}'' ''A'' True JNull]
             (fc (field_defaults\<lparr>fa_dec := JInt 0, fa_color := THRESH, fa_mappings := OKDEAD,
                                 fa_thresholds := steps (''red'', JNull) [(''green'', JInt 1)]\<rparr>))
             (stat ''background'' ''none'')
             (JStr (''The app installed, permitted and holding a SIM. Everything else on '' @
                    ''this dashboard is meaningless while this is DEAD.'')))]"

definition messaging_calls :: "call list" where
  "messaging_calls = messaging_sims @ messaging_balance @ messaging_delivery"

definition messaging :: json where
  "messaging =
     dashboard ''rackphone-messaging'' ''Rackphone / Messaging''
       ''SIM survival and the relay: balance, keepalive, spool.'' (ly_panels (run_calls messaging_calls))
       [unit_var True True] ''now-30d'' ''1m'' NAV"

section \<open>The files\<close>

definition dashboards :: "(string \<times> json) list" where
  "dashboards = [(''fleet'', fleet), (''unit'', unit_dash), (''battery'', battery),
                 (''messaging'', messaging)]"

definition dashboard_path :: "string \<Rightarrow> string" where
  "dashboard_path name = ''rackphone-'' @ name @ ''.json''"

definition dashboard_text :: "json \<Rightarrow> string" where
  "dashboard_text d = json_dumps_indent 0 d @ [chr_nl]"

definition dashboard_line :: "string \<Rightarrow> json \<Rightarrow> string" where
  "dashboard_line name d =
     (let ps = elements (obj_at ''panels'' d);
          n = length (filter (\<lambda>p. obj_at ''type'' p \<noteq> JStr ''row'') ps);
          r = length (filter (\<lambda>p. obj_at ''type'' p = JStr ''row'') ps)
      in ljust 28 (dashboard_path name) @ '' '' @ rjust 2 (show_nat n) @ '' panels, '' @
         show_nat r @ '' rows'')"

text \<open>The files of the output directory afterwards, and what the script prints.\<close>

definition generate :: "(string, string) dict \<Rightarrow> (string, string) dict \<times> string list" where
  "generate files =
     fold (\<lambda>(name, d) (fs, out).
             (dict_set (dashboard_path name) (dashboard_text d) fs, out @ [dashboard_line name d]))
       dashboards (files, [])"

section \<open>Properties\<close>

definition panels_of :: "json \<Rightarrow> json list" where
  "panels_of d = elements (obj_at ''panels'' d)"

lemma panels_of_dashboard [simp]: "panels_of (dashboard u t d ps vs f r ls) = ps"
  by (simp add: panels_of_def dashboard_def obj_get_simps)

lemmas boards = fleet_def unit_dash_def battery_def messaging_def

lemmas call_lists = fleet_calls_def unit_calls_def battery_calls_def messaging_calls_def

lemmas fleet_sections = fleet_units_def fleet_health_def fleet_table_def fleet_comparison_def

lemmas unit_sections = unit_overview_def unit_access_def unit_battery_def unit_thermal_def
  unit_system_def unit_radio_def

lemmas battery_sections = battery_condition_def battery_trends_def

lemmas messaging_sections = messaging_sims_def messaging_balance_def messaging_delivery_def

lemma fleet_closed: "lines_close 0 0 (map shape fleet_calls)"
  by (simp add: call_lists fleet_sections)

lemma unit_closed: "lines_close 0 0 (map shape unit_calls)"
  by (simp add: call_lists unit_sections)

lemma battery_closed: "lines_close 0 0 (map shape battery_calls)"
  by (simp add: call_lists battery_sections)

lemma messaging_closed: "lines_close 0 0 (map shape messaging_calls)"
  by (simp add: call_lists messaging_sections)

lemma numbered_panels:
  "map panel_id (ly_panels (run_calls cs)) = map Some [1 .. int (length (ly_panels (run_calls cs)))]"
proof -
  have "length (ly_panels (run_calls cs)) = length (map panel_id (ly_panels (run_calls cs)))"
    by (rule length_map [symmetric])
  also have "\<dots> = length cs" unfolding run_ids by simp
  finally show ?thesis by (simp add: run_ids)
qed

text \<open>
  In each of the four dashboards the panels tile the grid: none overlaps another, all are
  within the 24 columns, and they are numbered 1, 2, 3, \<open>\<dots>\<close>
\<close>

theorem dashboards_tile_grid:
  "list_all (\<lambda>(name, d). tiled (panels_of d)
      \<and> map panel_id (panels_of d) = map Some [1 .. int (length (panels_of d))]) dashboards"
  by (simp add: dashboards_def boards numbered_panels tiled_if_closed fleet_closed unit_closed
      battery_closed messaging_closed)

text \<open>
  What the queries and the overrides of a panel object say: the letters, expressions and
  legends of its queries, the names its overrides look for, and the names its table gives to
  renamed columns.
\<close>

definition query_parts :: "string \<Rightarrow> json \<Rightarrow> json list" where
  "query_parts k p = map (obj_at k) (elements (obj_at ''targets'' p))"

definition override_names :: "json \<Rightarrow> json list" where
  "override_names p =
     map (\<lambda>ov. obj_at ''options'' (obj_at ''matcher'' ov))
       (elements (obj_at ''overrides'' (obj_at ''fieldConfig'' p)))"

definition obj_values :: "json \<Rightarrow> json list" where
  "obj_values v = (case v of JObj ms \<Rightarrow> map snd ms | _ \<Rightarrow> [])"

definition column_names :: "json \<Rightarrow> json list" where
  "column_names p =
     concat (map (\<lambda>t. obj_values (obj_at ''renameByName'' (obj_at ''options'' t)))
       (elements (obj_at ''transformations'' p)))"

lemma target_parts [simp]:
  "obj_at ''refId'' (target e l r i f) = JStr r"
  "obj_at ''expr'' (target e l r i f) = JStr e"
  "obj_at ''legendFormat'' (target e l r i f) = JStr l"
  by (simp_all add: target_def obj_get_simps)

lemma panel_parts [simp]:
  "obj_at ''targets'' (panel_json i x y a) = pa_targets a"
  "obj_at ''overrides'' (obj_at ''fieldConfig'' (panel_json i x y a)) = py_or (pa_overrides a) (JArr [])"
  "obj_at ''transformations'' (panel_json i x y a) =
     (if json_truthy (pa_transformations a) then pa_transformations a else JNull)"
  by (simp_all add: panel_json_def obj_get_simps entry_if_def)

lemma row_parts [simp]:
  "obj_at ''targets'' (row_json i y t b) = JNull"
  "obj_at ''overrides'' (obj_at ''fieldConfig'' (row_json i y t b)) = JNull"
  "obj_at ''transformations'' (row_json i y t b) = JNull"
  by (simp_all add: row_json_def obj_get_simps)

lemma override_parts [simp]: "obj_at ''options'' (obj_at ''matcher'' (override n ps)) = JStr n"
  by (simp add: override_def obj_get_simps)

text \<open>Such a reading of all panels is one of the calls, whatever their places.\<close>

definition call_panel :: "call \<Rightarrow> json" where
  "call_panel c = (case c of Row t \<Rightarrow> row_json 0 0 t False | Add a \<Rightarrow> panel_json 0 0 0 a)"

lemma call_panel_simps [simp]:
  "call_panel (Row t) = row_json 0 0 t False"
  "call_panel (Add a) = panel_json 0 0 0 a"
  by (simp_all add: call_panel_def)

lemma all_panels:
  assumes "\<And>i y t. g (row_json i y t False) = g (row_json 0 0 t False)"
    and "\<And>i x y a. g (panel_json i x y a) = g (panel_json 0 0 0 a)"
  shows "list_all g (ly_panels (run_calls cs)) \<longleftrightarrow> list_all (g \<circ> call_panel) cs"
proof -
  have "map g (ly_panels (run_calls cs)) = map (g \<circ> call_panel) cs"
    by (rule run_panels_map) (simp, rule assms)+
  then have "list_all (\<lambda>b. b) (map g (ly_panels (run_calls cs)))
      \<longleftrightarrow> list_all (\<lambda>b. b) (map (g \<circ> call_panel) cs)"
    by simp
  then show ?thesis by (simp add: list.pred_map comp_def)
qed

definition letters_distinct :: "json \<Rightarrow> bool" where
  "letters_distinct p \<longleftrightarrow> distinct (query_parts ''refId'' p)"

definition overrides_match :: "json \<Rightarrow> bool" where
  "overrides_match p \<longleftrightarrow>
     list_all (\<lambda>n. n \<in> set (query_parts ''legendFormat'' p) \<union> set (column_names p))
       (override_names p)"

definition mentions :: "string \<Rightarrow> json \<Rightarrow> bool" where
  "mentions k v = (case v of JStr s \<Rightarrow> contains_sub k s | _ \<Rightarrow> False)"

definition queries_mention :: "string \<Rightarrow> json \<Rightarrow> bool" where
  "queries_mention k p \<longleftrightarrow> list_all (mentions k) (query_parts ''expr'' p)"

definition queries_omit :: "string \<Rightarrow> json \<Rightarrow> bool" where
  "queries_omit k p \<longleftrightarrow> list_all (\<lambda>e. \<not> mentions k e) (query_parts ''expr'' p)"

lemmas panel_checks = letters_distinct_def overrides_match_def queries_mention_def queries_omit_def
  query_parts_def override_names_def column_names_def

lemma checks_by_call:
  "list_all letters_distinct (ly_panels (run_calls cs)) = list_all (letters_distinct \<circ> call_panel) cs"
  "list_all overrides_match (ly_panels (run_calls cs)) = list_all (overrides_match \<circ> call_panel) cs"
  "list_all (queries_mention k) (ly_panels (run_calls cs)) = list_all (queries_mention k \<circ> call_panel) cs"
  "list_all (queries_omit k) (ly_panels (run_calls cs)) = list_all (queries_omit k \<circ> call_panel) cs"
  by (rule all_panels; simp add: panel_checks)+

lemma table_columns:
  "column_names (panel_json i x y (a\<lparr>pa_transformations := fleet_transformations,
     pa_overrides := v\<rparr>)) =
   map JStr [''Unit'', ''State'', ''Charge'', ''Health'', ''Guard'', ''Skin temp'', ''RSRP'',
     ''Uptime'', ''Suspended'']"
  by (simp add: column_names_def fleet_transformations_def json_truthy_def obj_get_simps
      obj_values_def)

lemma panel_untouched [simp]:
  "pa_overrides (panel t p w h ts f opts d) = JNull"
  "pa_transformations (panel t p w h ts f opts d) = JNull"
  by (simp_all add: panel_def)

lemma plain_overrides [simp]:
  "pa_overrides a = JNull \<Longrightarrow> overrides_match (panel_json i x y a)"
  by (simp add: overrides_match_def override_names_def py_or_def json_truthy_def)

lemma plain_row [simp]: "overrides_match (row_json i y t b)"
  by (simp add: overrides_match_def override_names_def)

lemma table_overrides:
  "overrides_match (panel_json i x y (a\<lparr>pa_transformations := fleet_transformations,
     pa_overrides := fleet_overrides\<rparr>))"
  by (simp add: overrides_match_def table_columns override_names_def fleet_overrides_def py_or_def
      json_truthy_def)

lemma fleet_checks:
  "list_all (letters_distinct \<circ> call_panel) fleet_calls"
  "list_all (overrides_match \<circ> call_panel) fleet_calls"
  by (simp_all add: call_lists fleet_sections letters_distinct_def table_overrides query_parts_def)

lemma unit_checks:
  "list_all (letters_distinct \<circ> call_panel) unit_calls"
  "list_all (overrides_match \<circ> call_panel) unit_calls"
  "list_all (queries_mention ''$unit'' \<circ> call_panel) unit_calls"
  by (simp_all add: call_lists unit_sections letters_distinct_def queries_mention_def query_parts_def
     mentions_def U_def overrides_match_def override_names_def window_overrides_def py_or_def json_truthy_def)

lemma battery_checks:
  "list_all (letters_distinct \<circ> call_panel) battery_calls"
  "list_all (overrides_match \<circ> call_panel) battery_calls"
  by (simp_all add: call_lists battery_sections letters_distinct_def query_parts_def)

lemma messaging_checks:
  "list_all (letters_distinct \<circ> call_panel) messaging_calls"
  "list_all (overrides_match \<circ> call_panel) messaging_calls"
  "list_all (queries_omit ''$unit'' \<circ> call_panel) messaging_calls"
  by (simp_all add: call_lists messaging_sections letters_distinct_def queries_omit_def
      query_parts_def mentions_def)

text \<open>
  In every panel of the four dashboards the queries have distinct letters, and every override
  names a series the panel has: the legend of one of its queries, or a column its table
  renames.
\<close>

theorem dashboards_consistent:
  "list_all (\<lambda>(name, d). list_all letters_distinct (panels_of d)
      \<and> list_all overrides_match (panels_of d)) dashboards"
  by (simp add: dashboards_def boards checks_by_call fleet_checks unit_checks battery_checks
      messaging_checks)

definition variables_of :: "json \<Rightarrow> json list" where
  "variables_of d = elements (obj_at ''list'' (obj_at ''templating'' d))"

lemma variables_of_dashboard [simp]: "variables_of (dashboard u t d ps vs f r ls) = vs"
  by (simp add: variables_of_def dashboard_def obj_get_simps)


text \<open>The objects the script builds have distinct keys and proper floats.\<close>

lemma ok_entry: "json_ok v \<Longrightarrow> list_all (\<lambda>(k, v). json_ok v) (entry_if b k v)"
  by (simp add: entry_if_def)

lemma ok_target [simp]: "json_ok fmt \<Longrightarrow> json_ok (target e l r i fmt)"
  by (simp add: target_def DS_def)

lemma ok_steps [simp]: "json_ok (steps f rest) \<longleftrightarrow> list_all (\<lambda>(c, v). json_ok v) rest"
  by (simp add: steps_def step_def list_all_iff case_prod_unfold)

lemma ok_or [simp]: "json_ok a \<Longrightarrow> json_ok b \<Longrightarrow> json_ok (py_or a b)"
  by (simp add: py_or_def)

lemma ok_step [simp]: "json_ok (step c v) \<longleftrightarrow> json_ok v"
  by (simp add: step_def)

lemma ok_constants [simp]:
  "json_ok DS" "json_ok BY_NAME" "json_ok THRESH" "json_ok (FIXED c)" "json_ok SEQ" "json_ok last_value"
  "json_ok (grid_pos x y w h)" "json_ok (stat m g)" "json_ok (look c i t)"
  by (simp_all add: DS_def BY_NAME_def THRESH_def FIXED_def SEQ_def last_value_def grid_pos_def
      stat_def look_def)

lemma ok_fc:
  "list_all json_ok [fa_unit a, fa_mn a, fa_mx a, fa_dec a, fa_color a, fa_custom a, fa_mappings a,
     fa_thresholds a, fa_links a, fa_nodata a] \<Longrightarrow> json_ok (fc a)"
  by (simp add: fc_def entry_if_def)

lemma ok_panel:
  "list_all json_ok [pa_targets a, pa_field_config a, pa_options a, pa_desc a, pa_transformations a,
     pa_overrides a, pa_links a] \<Longrightarrow> json_ok (panel_json i x y a)"
  by (simp add: panel_json_def entry_if_def)

lemma ok_row [simp]: "json_ok (row_json i y t b)"
  by (simp add: row_json_def)

lemma ok_float [simp]: "float_ok ''0.85''"
  by code_simp

lemma ok_options [simp]:
  "json_ok LINE" "json_ok AREA" "json_ok ONLINE" "json_ok OKDEAD" "json_ok YESNO" "json_ok TS"
  "json_ok TS_TABLE" "json_ok TIMELINE" "list_all json_ok NAV" "json_ok UNIT_LINK" "json_ok (unit_var m n)"
  by (simp_all add: LINE_def AREA_def ONLINE_def OKDEAD_def YESNO_def TS_def TS_TABLE_def TIMELINE_def
      NAV_def UNIT_LINK_def unit_var_def dict_set_def)

lemma ok_override [simp]: "json_ok (override n ps) \<longleftrightarrow> list_all (\<lambda>(k, v). json_ok v) ps"
  by (simp add: override_def list_all_iff case_prod_unfold)

definition args_ok :: "panel_args \<Rightarrow> bool" where
  "args_ok a \<longleftrightarrow> list_all json_ok [pa_targets a, pa_field_config a, pa_options a, pa_desc a,
     pa_transformations a, pa_overrides a, pa_links a]"

definition call_ok :: "call \<Rightarrow> bool" where
  "call_ok c \<longleftrightarrow> (case c of Row t \<Rightarrow> True | Add a \<Rightarrow> args_ok a)"

lemma call_ok_simps [simp]: "call_ok (Row t)" "call_ok (Add a) \<longleftrightarrow> args_ok a"
  by (simp_all add: call_ok_def)

lemma args_ok_panel [simp]:
  "args_ok (panel t p w h ts f opts d) \<longleftrightarrow> list_all json_ok ts \<and> json_ok f \<and> json_ok opts \<and> json_ok d"
  by (simp add: args_ok_def panel_def)

lemma args_ok_update [simp]:
  "args_ok (panel t p w h ts f opts d\<lparr>pa_overrides := v\<rparr>) \<longleftrightarrow>
     args_ok (panel t p w h ts f opts d) \<and> json_ok v"
  "args_ok (panel t p w h ts f opts d\<lparr>pa_transformations := x, pa_overrides := v\<rparr>) \<longleftrightarrow>
     args_ok (panel t p w h ts f opts d) \<and> json_ok x \<and> json_ok v"
  by (auto simp: args_ok_def panel_def)

lemma run_panels_ok:
  assumes "list_all call_ok cs"
  shows "list_all json_ok (ly_panels (run_calls cs))"
proof -
  have "list_all json_ok (ly_panels (fold run_call cs L))" if "list_all json_ok (ly_panels L)" for L
    using that assms
  proof (induction cs arbitrary: L)
    case (Cons c cs)
    obtain p where p: "ly_panels (run_call c L) = ly_panels L @ [p]"
      and c: "case c of Row t \<Rightarrow> \<exists>y. p = row_json (ly_pid L + 1) y t False
                | Add a \<Rightarrow> \<exists>x y. p = panel_json (ly_pid L + 1) x y a"
      using run_call_panel [of c L] by blast
    have "json_ok p"
      using c Cons.prems(2) ok_panel by (cases c) (auto simp: args_ok_def)
    then show ?case using Cons p by simp
  qed simp
  then show ?thesis by (simp add: run_calls_def new_layout_def)
qed

lemma fleet_parts_ok [simp]:
  "json_ok fleet_transformations" "json_ok fleet_overrides" "json_ok window_overrides"
  by (simp_all add: fleet_transformations_def fleet_overrides_def window_overrides_def)

lemma calls_ok:
  "list_all call_ok fleet_calls" "list_all call_ok unit_calls" "list_all call_ok battery_calls"
  "list_all call_ok messaging_calls"
  by (simp_all add: call_lists fleet_sections unit_sections battery_sections messaging_sections ok_fc
      field_defaults_def)

lemma ok_dashboard:
  "list_all json_ok ps \<Longrightarrow> list_all json_ok vs \<Longrightarrow> list_all json_ok ls \<Longrightarrow>
     json_ok (dashboard u t d ps vs f r ls)"
  by (simp add: dashboard_def)

lemma dashboards_ok: "list_all (\<lambda>(name, d). json_ok d) dashboards"
  by (simp add: dashboards_def boards ok_dashboard run_panels_ok calls_ok)

lemma dashboard_names: "distinct (map (dashboard_path \<circ> fst) dashboards)"
  by (simp add: dashboards_def dashboard_path_def)

text \<open>Files written in turn, each under a path of its own, are all there in the end.\<close>

lemma fold_files:
  assumes "distinct (map (f \<circ> fst) ds)" and "(n, d) \<in> set ds"
  shows "dict_get (f n) (fst (fold (\<lambda>(n, d) (fs, out). (dict_set (f n) (g d) fs, out @ [l n d])) ds
    (fs, out))) = Some (g d)"
  using assms
proof (induction ds arbitrary: fs out)
  case (Cons a ds)
  obtain n' d' where a: "a = (n', d')" by (cases a)
  have keep: "dict_get k (fst (fold (\<lambda>(n, d) (fs, out). (dict_set (f n) (g d) fs, out @ [l n d])) ds
      (fs, out))) = dict_get k fs" if "k \<notin> set (map (f \<circ> fst) ds)" for k fs out
    using that by (induction ds arbitrary: fs out) auto
  show ?case
  proof (cases "(n, d) \<in> set ds")
    case True
    then show ?thesis using Cons by (simp add: a)
  next
    case False
    then show ?thesis using Cons.prems keep by (auto simp: a)
  qed
qed simp

text \<open>
  C36. Each dashboard is in its file afterwards, and the text of the file, written with an indent of
  two, reads back as the dashboard.
\<close>

theorem dashboard_files_read_back:
  "list_all (\<lambda>(name, d). case dict_get (dashboard_path name) (fst (generate files)) of
      Some content \<Rightarrow> json_loads content = Some d | None \<Rightarrow> False) dashboards"
proof -
  have "dict_get (dashboard_path n) (fst (generate files)) = Some (dashboard_text d)"
    if "(n, d) \<in> set dashboards" for n d
    unfolding generate_def by (rule fold_files [OF dashboard_names that])
  moreover have "json_loads (dashboard_text d) = Some d" if "(n, d) \<in> set dashboards" for n d
    using dashboards_ok that loads_indented by (auto simp: dashboard_text_def list_all_iff)
  ultimately show ?thesis by (auto simp: list_all_iff)
qed

end
