(* ===== verification/Argparse.thy ===== *)
theory Argparse
  imports PyStr
begin

text \<open>
  Python's \<open>argparse\<close> as far as \<open>cli/parser.py\<close> uses it (the 3.13 rules): options with one value or
  none, positional arguments that take one value, an optional one that comes last, subcommands.
  A word is read once, before anything is consumed, as an argument, an option or the separator
  \<open>--\<close>; the loop then consumes positional arguments and options in turn. An abbreviated long
  option, \<open>--name=value\<close>, a value glued to a short option, a negative number and a word with a
  space are read as \<open>argparse\<close> reads them. Ending the program is \<open>Inl\<close> of its exit code: 2 for a
  usage error, 0 after the help text.
\<close>

section \<open>Declarations\<close>

datatype arg_value = ArgNone | ArgText string | ArgNumber int | ArgFlag bool | ArgList "string list"

type_synonym namespace = "(string, arg_value) dict"

datatype arg_action = Store | StoreInt | StoreTrue | Append | Help

record option_spec =
  op_strings :: "string list"
  op_action :: arg_action
  op_default :: arg_value

record positional_spec =
  po_dest :: string
  po_optional :: bool

record arg_parser =
  ap_options :: "option_spec list"
  ap_positionals :: "positional_spec list"

text \<open>The attribute an option sets: its first long name without the dashes.\<close>

definition long_name :: "string \<Rightarrow> bool" where
  "long_name s \<longleftrightarrow> starts_with ''--'' s"

definition op_dest :: "option_spec \<Rightarrow> string" where
  "op_dest o' =
     (case List.find long_name (op_strings o') of
        Some s \<Rightarrow> map (\<lambda>c. if c = CHR ''-'' then CHR ''_'' else c) (drop 2 s)
      | None \<Rightarrow> drop 1 (hd (op_strings o')))"

definition takes_value :: "option_spec \<Rightarrow> bool" where
  "takes_value o' \<longleftrightarrow> op_action o' \<in> {Store, StoreInt, Append}"

section \<open>Reading words\<close>

text \<open>A matching option: its declaration, the name it matched, and the value after \<open>=\<close> or glued to it.\<close>

type_synonym opt_match = "option_spec \<times> string \<times> bool \<times> string option"

datatype reading = Argument | Separator | Opt "opt_match list" | UnknownOption

type_synonym tokens = "(string \<times> reading) list"

definition option_named :: "option_spec list \<Rightarrow> string \<Rightarrow> option_spec option" where
  "option_named os s = List.find (\<lambda>o'. s \<in> set (op_strings o')) os"

fun partition_eq :: "string \<Rightarrow> string \<times> string option" where
  "partition_eq [] = ([], None)"
| "partition_eq (c # s) =
     (if c = CHR ''='' then ([], Some s) else (c # fst (partition_eq s), snd (partition_eq s)))"

text \<open>All the names a word may abbreviate, or the short option its first two characters name.\<close>

definition option_tuples :: "option_spec list \<Rightarrow> string \<Rightarrow> opt_match list" where
  "option_tuples os s =
     (if long_name s
      then concat (map (\<lambda>o'. map (\<lambda>n. (o', n, snd (partition_eq s) \<noteq> None, snd (partition_eq s)))
             (filter (starts_with (fst (partition_eq s))) (op_strings o'))) os)
      else concat (map (\<lambda>o'. map (\<lambda>n. (o', n, False, Some (drop 2 s)))
             (filter (\<lambda>n. n = take 2 s) (op_strings o'))) os))"

text \<open>\<open>^-[0-9]+$|^-[0-9]*[.][0-9]+$\<close>; \<open>$\<close> also holds before a final line break.\<close>

definition negative_number :: "string \<Rightarrow> bool" where
  "negative_number s =
     (let body = (if s \<noteq> [] \<and> last s = chr_nl then butlast s else s);
          whole = takeWhile is_digit (tl body); rest = dropWhile is_digit (tl body)
      in starts_with ''-'' body \<and>
         (rest = [] \<and> whole \<noteq> [] \<or>
          starts_with ''.'' rest \<and> tl rest \<noteq> [] \<and> list_all is_digit (tl rest)))"

definition parse_optional :: "option_spec list \<Rightarrow> string \<Rightarrow> reading" where
  "parse_optional os s =
     (if \<not> starts_with ''-'' s then Argument
      else case option_named os s of
        Some o' \<Rightarrow> Opt [(o', s, False, None)]
      | None \<Rightarrow>
          if length s = 1 then Argument
          else case (if snd (partition_eq s) = None then None else option_named os (fst (partition_eq s))) of
            Some o' \<Rightarrow> Opt [(o', fst (partition_eq s), True, snd (partition_eq s))]
          | None \<Rightarrow>
              if option_tuples os s \<noteq> [] then Opt (option_tuples os s)
              else if negative_number s \<or> CHR '' '' \<in> set s then Argument
              else UnknownOption)"

fun read_words :: "option_spec list \<Rightarrow> string list \<Rightarrow> tokens" where
  "read_words os [] = []"
| "read_words os (w # ws) =
     (if w = ''--'' then (w, Separator) # map (\<lambda>v. (v, Argument)) ws
      else (w, parse_optional os w) # read_words os ws)"

definition is_option :: "string \<times> reading \<Rightarrow> bool" where
  "is_option t = (case snd t of Opt ms \<Rightarrow> True | UnknownOption \<Rightarrow> True | _ \<Rightarrow> False)"

definition is_separator :: "string \<times> reading \<Rightarrow> bool" where
  "is_separator t \<longleftrightarrow> snd t = Separator"

fun next_argument :: "tokens \<Rightarrow> (string \<times> tokens) option" where
  "next_argument ((w, Argument) # ts) = Some (w, ts)"
| "next_argument ts = None"

section \<open>Consuming\<close>

definition append_value :: "string \<Rightarrow> arg_value option \<Rightarrow> arg_value" where
  "append_value v old = (case old of Some (ArgList vs) \<Rightarrow> ArgList (vs @ [v]) | _ \<Rightarrow> ArgList [v])"

definition take_value :: "option_spec \<Rightarrow> string \<Rightarrow> namespace \<Rightarrow> int + namespace" where
  "take_value o' v ns =
     (case op_action o' of
        StoreInt \<Rightarrow> (case parse_int v of Some n \<Rightarrow> Inr (dict_set (op_dest o') (ArgNumber n) ns) | None \<Rightarrow> Inl 2)
      | Append \<Rightarrow> Inr (dict_set (op_dest o') (append_value v (dict_get (op_dest o') ns)) ns)
      | _ \<Rightarrow> Inr (dict_set (op_dest o') (ArgText v) ns))"

definition take_flag :: "option_spec \<Rightarrow> namespace \<Rightarrow> int + namespace" where
  "take_flag o' ns =
     (if op_action o' = Help then Inl 0 else Inr (dict_set (op_dest o') (ArgFlag True) ns))"

text \<open>
  The characters after a short option without a value are further short options. The only such
  option is \<open>-h\<close>, which ends the program once the whole word is read; the value says whether it is
  read without an error.
\<close>

fun bundle_ok :: "option_spec list \<Rightarrow> tokens \<Rightarrow> string \<Rightarrow> bool" where
  "bundle_ok os ts [] = True"
| "bundle_ok os ts (c # s) =
     (if c = CHR ''-'' then False
      else case option_named os [CHR ''-'', c] of
        None \<Rightarrow> True
      | Some o' \<Rightarrow>
          if takes_value o' then s \<noteq> [] \<or> next_argument ts \<noteq> None
          else \<not> starts_with ''='' s \<and> bundle_ok os ts s)"

definition consume_optional :: "option_spec list \<Rightarrow> opt_match list \<Rightarrow> tokens \<Rightarrow> namespace
     \<Rightarrow> int + tokens \<times> namespace" where
  "consume_optional os ms ts ns =
     (case ms of
        [(o', name, eq, explicit)] \<Rightarrow>
          (if takes_value o'
           then case explicit of
               Some v \<Rightarrow> map_sum id (\<lambda>ns'. (ts, ns')) (take_value o' v ns)
             | None \<Rightarrow>
                 (case next_argument ts of
                    Some (v, ts') \<Rightarrow> map_sum id (\<lambda>ns'. (ts', ns')) (take_value o' v ns)
                  | None \<Rightarrow> Inl 2)
           else case explicit of
               None \<Rightarrow> map_sum id (\<lambda>ns'. (ts, ns')) (take_flag o' ns)
             | Some v \<Rightarrow>
                 if long_name name \<or> v = [] \<or> eq \<or> \<not> bundle_ok os ts v then Inl 2
                 else map_sum id (\<lambda>ns'. (ts, ns')) (take_flag o' ns))
      | _ \<Rightarrow> Inl 2)"

text \<open>
  Positional arguments take the words they match, separators around them included. An optional one
  matches nothing at all only when no option follows.
\<close>

definition match_positional :: "positional_spec \<Rightarrow> tokens \<Rightarrow> (string option \<times> tokens) option" where
  "match_positional q ts =
     (case next_argument (dropWhile is_separator ts) of
        Some (w, ts') \<Rightarrow> Some (Some w, dropWhile is_separator ts')
      | None \<Rightarrow> if po_optional q then Some (None, dropWhile is_separator ts) else None)"

fun consume_positionals :: "positional_spec list \<Rightarrow> tokens \<Rightarrow> namespace
     \<Rightarrow> positional_spec list \<times> tokens \<times> namespace" where
  "consume_positionals [] ts ns = ([], ts, ns)"
| "consume_positionals (q # qs) ts ns =
     (case match_positional q ts of
        None \<Rightarrow> (q # qs, ts, ns)
      | Some (Some w, ts') \<Rightarrow> consume_positionals qs ts' (dict_set (po_dest q) (ArgText w) ns)
      | Some (None, ts') \<Rightarrow>
          if ts' = ts \<and> ts \<noteq> [] \<and> is_option (hd ts) then (q # qs, ts, ns)
          else consume_positionals qs ts' (dict_set (po_dest q) ArgNone ns))"

lemma map_sum_Inr: "map_sum id f r = Inr y \<longleftrightarrow> (\<exists>x. r = Inr x \<and> y = f x)"
  by (cases r) auto

lemma consume_optional_length: "consume_optional os ms ts ns = Inr r \<Longrightarrow> length (fst r) \<le> length ts"
  by (auto simp: consume_optional_def map_sum_Inr split: list.splits prod.splits if_splits option.splits
      elim!: next_argument.elims)

lemma consume_optional_shorter:
  "consume_optional os ms ts ns = Inr (ts', ns') \<Longrightarrow> length ts' \<le> length ts"
  by (drule consume_optional_length) simp

text \<open>The namespace, the words nobody took, and the required arguments that were not found.\<close>

function parse_loop :: "arg_parser \<Rightarrow> positional_spec list \<Rightarrow> tokens \<Rightarrow> namespace \<Rightarrow> string list
     \<Rightarrow> int + namespace \<times> string list" where
  "parse_loop p qs ts ns extras =
     (if \<not> list_ex is_option ts
      then (case consume_positionals qs ts ns of (qs', ts', ns') \<Rightarrow>
        if list_all po_optional qs' then Inr (ns', extras @ map fst ts') else Inl 2)
      else case ts of
        [] \<Rightarrow> Inl 2
      | (w, r) # rest \<Rightarrow>
          (case r of
             UnknownOption \<Rightarrow> parse_loop p qs rest ns (extras @ [w])
           | Opt ms \<Rightarrow>
               (case consume_optional (ap_options p) ms rest ns of
                  Inl e \<Rightarrow> Inl e
                | Inr (ts', ns') \<Rightarrow> parse_loop p qs ts' ns' extras)
           | _ \<Rightarrow>
               (case consume_positionals qs ts ns of (qs', ts', ns') \<Rightarrow>
                  if length ts' < length ts then parse_loop p qs' ts' ns' extras
                  else parse_loop p qs' (dropWhile (\<lambda>t. \<not> is_option t) ts) ns'
                    (extras @ map fst (takeWhile (\<lambda>t. \<not> is_option t) ts)))))"
  by pat_completeness auto
termination
  by (relation "measure (\<lambda>(p, qs, ts, ns, ex). length ts)")
     (auto simp: is_option_def le_imp_less_Suc dest: consume_optional_shorter
       intro: le_imp_less_Suc length_dropWhile_le split: reading.splits)

declare parse_loop.simps [simp del]

definition defaults :: "arg_parser \<Rightarrow> namespace" where
  "defaults p = fold (\<lambda>(k, v) ns. if dict_get k ns = None then dict_set k v ns else ns)
     (map (\<lambda>o'. (op_dest o', op_default o')) (filter (\<lambda>o'. op_action o' \<noteq> Help) (ap_options p)) @
      map (\<lambda>q. (po_dest q, ArgNone)) (ap_positionals p)) []"

definition parse_known_args :: "arg_parser \<Rightarrow> string list \<Rightarrow> int + namespace \<times> string list" where
  "parse_known_args p ws =
     parse_loop p (ap_positionals p) (read_words (ap_options p) ws) (defaults p) []"

section \<open>Subcommands\<close>

text \<open>
  The first argument names the subcommand; every word after it, options included, is the
  subcommand's. Its attributes are read into a namespace of their own, defaults included, which is
  then written over the outer one.
\<close>

function parse_subcommand :: "option_spec list \<Rightarrow> (string \<times> 'h \<times> arg_parser) list \<Rightarrow> tokens
     \<Rightarrow> namespace \<Rightarrow> string list \<Rightarrow> int + 'h \<times> namespace" where
  "parse_subcommand os subs ts ns extras =
     (case dropWhile is_separator ts of
        [] \<Rightarrow> Inl 2
      | (w, r) # rest \<Rightarrow>
          (case r of
             UnknownOption \<Rightarrow> parse_subcommand os subs rest ns (extras @ [w])
           | Opt ms \<Rightarrow>
               (case consume_optional os ms rest ns of
                  Inl e \<Rightarrow> Inl e
                | Inr (ts', ns') \<Rightarrow> parse_subcommand os subs ts' ns' extras)
           | _ \<Rightarrow>
               (case dict_get w subs of
                  None \<Rightarrow> Inl 2
                | Some (h, p) \<Rightarrow>
                    (case parse_known_args p (map fst rest) of
                       Inl e \<Rightarrow> Inl e
                     | Inr (sub, unknown) \<Rightarrow>
                         if extras @ unknown \<noteq> [] then Inl 2
                         else Inr (h, fold (\<lambda>(k, v). dict_set k v) sub (dict_set ''command'' (ArgText w) ns))))))"
  by pat_completeness auto
termination
proof (relation "measure (\<lambda>(os, subs, ts, ns, ex). length ts)", goal_cases)
  case 1 show ?case by simp
next
  case (2 os subs ts)
  then show ?case
    using length_dropWhile_le [of is_separator ts] by (auto dest!: consume_optional_length)
next
  case (3 os subs ts)
  then show ?case
    using length_dropWhile_le [of is_separator ts] by (auto dest!: consume_optional_length)
qed

declare parse_subcommand.simps [simp del]

end
