(* ===== verification/CommandLine.thy ===== *)
theory CommandLine
  imports Argparse
begin

text \<open>
  The command tree of \<open>cli/parser.py\<close>: one parser per subcommand as data, each with its handler,
  the top-level parser with its \<open>--serial\<close>, and what each handler reads of the parsed arguments.
\<close>

section \<open>The command tree\<close>

datatype handler =
    Handle_list_devices | Handle_list_units | Handle_adopt_unit
  | Handle_show_config | Handle_get_setting | Handle_show_origin | Handle_set_setting
  | Handle_unset_setting | Handle_run_action
  | Handle_list_plugins | Handle_set_plugin_state
  | Handle_deploy_unit | Handle_pull_unit | Handle_install_modules | Handle_reboot_unit
  | Handle_show_status | Handle_print_metrics | Handle_run_doctor | Handle_serve_metrics
  | Handle_run_gateway | Handle_show_gateway_config

type_synonym command = "string \<times> handler \<times> arg_parser"

definition DEFAULT_METRICS_HOST :: string where "DEFAULT_METRICS_HOST = ''0.0.0.0''"
definition DEFAULT_METRICS_PORT :: int where "DEFAULT_METRICS_PORT = 9105"

definition add_option :: "string list \<Rightarrow> arg_action \<Rightarrow> arg_value \<Rightarrow> option_spec" where
  "add_option names act d = \<lparr>op_strings = names, op_action = act, op_default = d\<rparr>"

definition add_positional :: "string \<Rightarrow> positional_spec" where
  "add_positional dest = \<lparr>po_dest = dest, po_optional = False\<rparr>"

definition help_option :: option_spec where
  "help_option = add_option [''-h'', ''--help''] Help ArgNone"

definition unit_option :: option_spec where
  "unit_option = add_option [''-u'', ''--unit''] Store ArgNone"

definition add_command :: "string \<Rightarrow> handler \<Rightarrow> bool \<Rightarrow> option_spec list \<Rightarrow> positional_spec list \<Rightarrow> command" where
  "add_command name hd' with_unit options positionals =
     (name, hd', \<lparr>ap_options = help_option # (if with_unit then [unit_option] else []) @ options,
                  ap_positionals = positionals\<rparr>)"

definition inventory_commands :: "command list" where
  "inventory_commands =
     [add_command ''devices'' Handle_list_devices False [] [],
      add_command ''units'' Handle_list_units False [] [],
      add_command ''adopt'' Handle_adopt_unit False
        [add_option [''--serial''] Store ArgNone, add_option [''--label''] Store (ArgText [])]
        [add_positional ''name'']]"

definition settings_commands :: "command list" where
  "settings_commands =
     [add_command ''config'' Handle_show_config True [] [\<lparr>po_dest = ''plugin'', po_optional = True\<rparr>],
      add_command ''get'' Handle_get_setting True [] [add_positional ''key''],
      add_command ''origin'' Handle_show_origin True [] [add_positional ''key''],
      add_command ''set'' Handle_set_setting True [] [add_positional ''key'', add_positional ''value''],
      add_command ''unset'' Handle_unset_setting True [] [add_positional ''key''],
      add_command ''action'' Handle_run_action True [] [add_positional ''plugin'', add_positional ''action'']]"

definition plugin_commands :: "command list" where
  "plugin_commands =
     [add_command ''plugins'' Handle_list_plugins True [] [],
      add_command ''enable'' Handle_set_plugin_state True [] [add_positional ''plugin''],
      add_command ''disable'' Handle_set_plugin_state True [] [add_positional ''plugin'']]"

definition deployment_commands :: "command list" where
  "deployment_commands =
     [add_command ''deploy'' Handle_deploy_unit False
        [add_option [''--dry-run''] StoreTrue (ArgFlag False)] [add_positional ''unit''],
      add_command ''pull'' Handle_pull_unit False [] [add_positional ''unit''],
      add_command ''install'' Handle_install_modules True
        [add_option [''-m'', ''--module''] Append ArgNone,
         add_option [''--no-build''] StoreTrue (ArgFlag False),
         add_option [''--reboot''] StoreTrue (ArgFlag False)] [],
      add_command ''reboot'' Handle_reboot_unit True [] []]"

definition monitoring_commands :: "command list" where
  "monitoring_commands =
     [add_command ''status'' Handle_show_status True [] [],
      add_command ''metrics'' Handle_print_metrics True [] [],
      add_command ''doctor'' Handle_run_doctor True [] [],
      add_command ''serve'' Handle_serve_metrics False
        [add_option [''--host''] Store (ArgText DEFAULT_METRICS_HOST),
         add_option [''--port''] StoreInt (ArgNumber DEFAULT_METRICS_PORT),
         add_option [''-u'', ''--unit''] Append ArgNone] []]"

definition gateway_commands :: "command list" where
  "gateway_commands =
     [add_command ''gateway'' Handle_run_gateway False
        [add_option [''--host''] Store ArgNone,
         add_option [''--port''] StoreInt ArgNone,
         add_option [''--once''] StoreTrue (ArgFlag False)] [],
      add_command ''gwconfig'' Handle_show_gateway_config False [] []]"

definition top_options :: "option_spec list" where
  "top_options = [help_option, add_option [''--serial''] Store ArgNone]"

definition subcommands :: "command list" where
  "subcommands = inventory_commands @ settings_commands @ plugin_commands @ deployment_commands @
     monitoring_commands @ gateway_commands"

text \<open>\<open>build_parser().parse_args(argv)\<close>: the handler and its arguments, or the exit code.\<close>

definition parse_args :: "string list \<Rightarrow> int + handler \<times> namespace" where
  "parse_args argv =
     parse_subcommand top_options subcommands (read_words top_options argv)
       [(''serial'', ArgNone), (''command'', ArgNone)] []"

section \<open>What a handler reads\<close>

text \<open>
  \<open>getattr(args, name, None)\<close> of an argument that holds a text, a number, a flag or a list. An
  absent list and an empty one are the same to the handlers.
\<close>

definition text_arg :: "string \<Rightarrow> namespace \<Rightarrow> string option" where
  "text_arg k ns = (case dict_get k ns of Some (ArgText s) \<Rightarrow> Some s | _ \<Rightarrow> None)"

definition number_arg :: "string \<Rightarrow> namespace \<Rightarrow> int option" where
  "number_arg k ns = (case dict_get k ns of Some (ArgNumber n) \<Rightarrow> Some n | _ \<Rightarrow> None)"

definition flag_arg :: "string \<Rightarrow> namespace \<Rightarrow> bool" where
  "flag_arg k ns \<longleftrightarrow> dict_get k ns = Some (ArgFlag True)"

definition list_arg :: "string \<Rightarrow> namespace \<Rightarrow> string list" where
  "list_arg k ns = (case dict_get k ns of Some (ArgList vs) \<Rightarrow> vs | _ \<Rightarrow> [])"

text \<open>The device selection of \<open>resolve_target\<close>: \<open>--unit\<close> and \<open>--serial\<close>.\<close>

type_synonym selection = "string option \<times> string option"

datatype invocation =
    Devices
  | Units
  | Adopt string "string option" string
  | Config selection "string option"
  | Get selection string
  | Origin selection string
  | Set_value selection string string
  | Unset selection string
  | Action selection string string
  | Plugins selection
  | Plugin_state selection bool string
  | Deploy string bool
  | Pull string
  | Install selection "string list" bool bool
  | Reboot selection
  | Status selection
  | Metrics selection
  | Doctor selection
  | Serve string int "string list"
  | Gateway "string option" "int option" bool
  | Gwconfig

definition selected :: "namespace \<Rightarrow> selection" where
  "selected ns = (text_arg ''unit'' ns, text_arg ''serial'' ns)"

definition the_text :: "string \<Rightarrow> namespace \<Rightarrow> string" where
  "the_text k ns = (case text_arg k ns of Some s \<Rightarrow> s | None \<Rightarrow> [])"

fun invocation_of :: "handler \<Rightarrow> namespace \<Rightarrow> invocation" where
  "invocation_of Handle_list_devices ns = Devices"
| "invocation_of Handle_list_units ns = Units"
| "invocation_of Handle_adopt_unit ns = Adopt (the_text ''name'' ns) (text_arg ''serial'' ns) (the_text ''label'' ns)"
| "invocation_of Handle_show_config ns = Config (selected ns) (text_arg ''plugin'' ns)"
| "invocation_of Handle_get_setting ns = Get (selected ns) (the_text ''key'' ns)"
| "invocation_of Handle_show_origin ns = Origin (selected ns) (the_text ''key'' ns)"
| "invocation_of Handle_set_setting ns = Set_value (selected ns) (the_text ''key'' ns) (the_text ''value'' ns)"
| "invocation_of Handle_unset_setting ns = Unset (selected ns) (the_text ''key'' ns)"
| "invocation_of Handle_run_action ns = Action (selected ns) (the_text ''plugin'' ns) (the_text ''action'' ns)"
| "invocation_of Handle_list_plugins ns = Plugins (selected ns)"
| "invocation_of Handle_set_plugin_state ns =
     Plugin_state (selected ns) (text_arg ''command'' ns = Some ''enable'') (the_text ''plugin'' ns)"
| "invocation_of Handle_deploy_unit ns = Deploy (the_text ''unit'' ns) (flag_arg ''dry_run'' ns)"
| "invocation_of Handle_pull_unit ns = Pull (the_text ''unit'' ns)"
| "invocation_of Handle_install_modules ns =
     Install (selected ns) (list_arg ''module'' ns) (flag_arg ''no_build'' ns) (flag_arg ''reboot'' ns)"
| "invocation_of Handle_reboot_unit ns = Reboot (selected ns)"
| "invocation_of Handle_show_status ns = Status (selected ns)"
| "invocation_of Handle_print_metrics ns = Metrics (selected ns)"
| "invocation_of Handle_run_doctor ns = Doctor (selected ns)"
| "invocation_of Handle_serve_metrics ns =
     Serve (the_text ''host'' ns) (case number_arg ''port'' ns of Some n \<Rightarrow> n | None \<Rightarrow> 0) (list_arg ''unit'' ns)"
| "invocation_of Handle_run_gateway ns =
     Gateway (text_arg ''host'' ns) (number_arg ''port'' ns) (flag_arg ''once'' ns)"
| "invocation_of Handle_show_gateway_config ns = Gwconfig"

definition read_command_line :: "string list \<Rightarrow> int + invocation" where
  "read_command_line argv = map_sum id (\<lambda>(hd', ns). invocation_of hd' ns) (parse_args argv)"

section \<open>Writing an invocation down\<close>

text \<open>
  A command line for every invocation: options as \<open>--name=value\<close>, positional arguments after
  \<open>--\<close>, so that no text is mistaken for an option.
\<close>

definition option_word :: "string \<Rightarrow> string option \<Rightarrow> string list" where
  "option_word name v = (case v of Some x \<Rightarrow> [''--'' @ name @ ''='' @ x] | None \<Rightarrow> [])"

definition flag_word :: "string \<Rightarrow> bool \<Rightarrow> string list" where
  "flag_word name b = (if b then [''--'' @ name] else [])"

definition many_words :: "string \<Rightarrow> string list \<Rightarrow> string list" where
  "many_words name vs = map (\<lambda>v. ''--'' @ name @ ''='' @ v) vs"

definition on_unit :: "selection \<Rightarrow> string \<Rightarrow> string list \<Rightarrow> string list" where
  "on_unit sel name ws = option_word ''serial'' (snd sel) @ name # option_word ''unit'' (fst sel) @ ws"

fun arguments :: "invocation \<Rightarrow> string list" where
  "arguments Devices = [''devices'']"
| "arguments Units = [''units'']"
| "arguments (Adopt name serial label) =
     ''adopt'' # option_word ''serial'' serial @ [''--label='' @ label, ''--'', name]"
| "arguments (Config sel plugin) =
     on_unit sel ''config'' (case plugin of Some p \<Rightarrow> [''--'', p] | None \<Rightarrow> [])"
| "arguments (Get sel key) = on_unit sel ''get'' [''--'', key]"
| "arguments (Origin sel key) = on_unit sel ''origin'' [''--'', key]"
| "arguments (Set_value sel key v) = on_unit sel ''set'' [''--'', key, v]"
| "arguments (Unset sel key) = on_unit sel ''unset'' [''--'', key]"
| "arguments (Action sel plugin act) = on_unit sel ''action'' [''--'', plugin, act]"
| "arguments (Plugins sel) = on_unit sel ''plugins'' []"
| "arguments (Plugin_state sel on plugin) =
     on_unit sel (if on then ''enable'' else ''disable'') [''--'', plugin]"
| "arguments (Deploy u dry) = ''deploy'' # flag_word ''dry-run'' dry @ [''--'', u]"
| "arguments (Pull u) = [''pull'', ''--'', u]"
| "arguments (Install sel ms no_build reboot) =
     on_unit sel ''install'' (flag_word ''no-build'' no_build @ flag_word ''reboot'' reboot @ many_words ''module'' ms)"
| "arguments (Reboot sel) = on_unit sel ''reboot'' []"
| "arguments (Status sel) = on_unit sel ''status'' []"
| "arguments (Metrics sel) = on_unit sel ''metrics'' []"
| "arguments (Doctor sel) = on_unit sel ''doctor'' []"
| "arguments (Serve host port us) =
     ''serve'' # [''--host='' @ host, ''--port='' @ show_int port] @ many_words ''unit'' us"
| "arguments (Gateway host port once) =
     ''gateway'' # option_word ''host'' host @ option_word ''port'' (map_option show_int port) @ flag_word ''once'' once"
| "arguments Gwconfig = [''gwconfig'']"

section \<open>Lemmas\<close>

lemma map_fst_read_words [simp]: "map fst (read_words os ws) = ws"
  by (induction ws) (auto simp: comp_def)

lemma loop_option:
  "parse_loop p qs ((w, Opt ms) # ts) ns ex =
     (case consume_optional (ap_options p) ms ts ns of
        Inl e \<Rightarrow> Inl e
      | Inr (ts', ns') \<Rightarrow> parse_loop p qs ts' ns' ex)"
  by (simp add: parse_loop.simps [of p qs "(w, Opt ms) # ts"] is_option_def)

lemma loop_arguments:
  "\<not> list_ex is_option ts \<Longrightarrow> parse_loop p qs ts ns ex =
     (case consume_positionals qs ts ns of (qs', ts', ns') \<Rightarrow>
        if list_all po_optional qs' then Inr (ns', ex @ map fst ts') else Inl 2)"
  by (simp add: parse_loop.simps [of p qs ts])

lemma dict_get_overwrite:
  "dict_ok sub \<Longrightarrow> dict_get k (fold (\<lambda>(j, v). dict_set j v) sub ns) =
     (case dict_get k sub of Some v \<Rightarrow> Some v | None \<Rightarrow> dict_get k ns)"
proof (induction sub arbitrary: ns)
  case (Cons e sub)
  obtain j v where e: "e = (j, v)" by (cases e)
  have ok: "dict_ok sub" and j: "dict_get j sub = None"
    using Cons.prems by (auto simp: e dict_ok_def dict_get_def map_of_eq_None_iff)
  show ?case by (simp add: e Cons.IH [OF ok] j split: option.split)
qed simp

text \<open>The top level: an optional \<open>--serial\<close>, the command's name, and the command's own words.\<close>

definition opt_text :: "string option \<Rightarrow> arg_value" where
  "opt_text v = (case v of Some s \<Rightarrow> ArgText s | None \<Rightarrow> ArgNone)"

definition run_subparser :: "string option \<Rightarrow> string \<Rightarrow> handler \<times> arg_parser \<Rightarrow> string list
     \<Rightarrow> int + handler \<times> namespace" where
  "run_subparser serial name c ws =
     (case parse_known_args (snd c) ws of
        Inl e \<Rightarrow> Inl e
      | Inr (sub, unknown) \<Rightarrow>
          if unknown \<noteq> [] then Inl 2
          else Inr (fst c, fold (\<lambda>(k, v). dict_set k v) sub
            [(''serial'', opt_text serial), (''command'', ArgText name)]))"

lemma serial_word: "option_word ''serial'' (Some s) = [''--serial='' @ s]"
  by (simp add: option_word_def)

lemma top_serial:
  "parse_optional top_options (''--serial='' @ s) =
     Opt [(add_option [''--serial''] Store ArgNone, ''--serial'', True, Some s)]"
  by (simp add: parse_optional_def top_options_def option_named_def help_option_def add_option_def)

lemma top_name: "\<not> starts_with ''-'' name \<Longrightarrow> parse_optional os name = Argument"
  by (simp add: parse_optional_def)

lemma take_serial:
  "take_value (add_option [''--serial''] Store ArgNone) s ns = Inr (dict_set ''serial'' (ArgText s) ns)"
  by (simp add: take_value_def add_option_def op_dest_def long_name_def)

lemma parse_args_command:
  assumes "\<not> starts_with ''-'' name" "dict_get name subcommands = Some c"
  shows "parse_args (option_word ''serial'' serial @ name # ws) = run_subparser serial name c ws"
proof -
  obtain h p where c: "c = (h, p)" by (cases c)
  have name: "name \<noteq> ''--''" using assms(1) by auto
  let ?rest = "read_words top_options ws"
  have sub: "parse_subcommand top_options subcommands ((name, Argument) # ?rest)
      [(''serial'', opt_text v), (''command'', ArgNone)] [] = run_subparser v name c ws" for v
    using assms(2)
    by (simp add: parse_subcommand.simps [of _ _ "_ # _"] is_separator_def c run_subparser_def dict_set_def
        split: sum.split prod.split)
  show ?thesis
  proof (cases serial)
    case None
    then show ?thesis
      using sub [of None] name by (simp add: parse_args_def option_word_def top_name assms(1) opt_text_def)
  next
    case (Some s)
    have top: "read_words top_options ((''--serial='' @ s) # name # ws) =
        (''--serial='' @ s, Opt [(add_option [''--serial''] Store ArgNone, ''--serial'', True, Some s)]) #
          (name, Argument) # ?rest"
      using name by (simp only: read_words.simps top_serial) (simp add: top_name assms(1))
    have "parse_args (option_word ''serial'' serial @ name # ws) =
        parse_subcommand top_options subcommands ((name, Argument) # ?rest)
          [(''serial'', ArgText s), (''command'', ArgNone)] []"
      unfolding parse_args_def Some serial_word append_Cons [of _ "[]"] append_Nil top
      by (simp add: parse_subcommand.simps [of _ _ "(_, Opt _) # _"] is_separator_def consume_optional_def
          take_serial takes_value_def) (simp add: add_option_def dict_set_def)
    then show ?thesis using sub [of "Some s"] by (simp add: Some opt_text_def)
  qed
qed

lemma command_no_dash:
  "dict_get name subcommands = Some c \<Longrightarrow> \<not> starts_with ''-'' name"
  by (auto simp: subcommands_def inventory_commands_def settings_commands_def plugin_commands_def
      deployment_commands_def monitoring_commands_def gateway_commands_def add_command_def split: if_splits)

lemma read_command:
  "dict_get name subcommands = Some c \<Longrightarrow>
     read_command_line (option_word ''serial'' serial @ name # ws) =
       map_sum id (\<lambda>(hd', ns). invocation_of hd' ns) (run_subparser serial name c ws)"
  by (simp add: read_command_line_def parse_args_command command_no_dash)

text \<open>What parsing keeps: an attribute with a value still has one.\<close>

definition keeps :: "namespace \<Rightarrow> namespace \<Rightarrow> bool" where
  "keeps ns ns' \<longleftrightarrow> (\<forall>k. dict_get k ns \<noteq> None \<longrightarrow> dict_get k ns' \<noteq> None)"

lemma keeps_refl [simp]: "keeps ns ns" by (simp add: keeps_def)

lemma keeps_trans: "keeps a b \<Longrightarrow> keeps b c \<Longrightarrow> keeps a c" by (simp add: keeps_def)

lemma keeps_set [simp]: "keeps ns (dict_set k v ns)" by (simp add: keeps_def)

lemma take_value_keeps: "take_value o' v ns = Inr ns' \<Longrightarrow> keeps ns ns'"
  by (auto simp: take_value_def split: arg_action.splits option.splits)

lemma take_flag_keeps: "take_flag o' ns = Inr ns' \<Longrightarrow> keeps ns ns'"
  by (auto simp: take_flag_def split: if_splits)

lemma consume_optional_keeps: "consume_optional os ms ts ns = Inr (ts', ns') \<Longrightarrow> keeps ns ns'"
  by (auto simp: consume_optional_def map_sum_Inr split: list.splits prod.splits if_splits option.splits
      dest: take_value_keeps take_flag_keeps)

lemma keeps_set_trans: "keeps (dict_set k v ns) ns' \<Longrightarrow> keeps ns ns'"
  by (rule keeps_trans [OF keeps_set])

lemma consume_positionals_keeps: "consume_positionals qs ts ns = (qs', ts', ns') \<Longrightarrow> keeps ns ns'"
proof (induction qs arbitrary: ts ns)
  case (Cons q qs)
  from Cons.prems show ?case
    by (auto split: option.splits prod.splits if_splits dest!: Cons.IH dest: keeps_set_trans)
qed simp

lemma parse_loop_keeps: "parse_loop p qs ts ns ex = Inr r \<Longrightarrow> keeps ns (fst r)"
proof (induction p qs ts ns ex rule: parse_loop.induct)
  case (1 p qs ts ns ex)
  obtain qs' ts' ns' where pos: "consume_positionals qs ts ns = (qs', ts', ns')" by (metis prod_cases3)
  note step = parse_loop.simps [of p qs ts ns ex] and keep = consume_positionals_keeps [OF pos]
  show ?case
  proof (cases "list_ex is_option ts")
    case False
    then show ?thesis using "1.prems" keep by (auto simp: step pos split: if_splits)
  next
    case True
    then obtain w r' rest where ts: "ts = (w, r') # rest" by (cases ts) auto
    show ?thesis
    proof (cases r')
      case UnknownOption
      then show ?thesis
        using "1.prems" "1.IH"(6) [of "(w, r')" rest w r'] True by (simp add: ts parse_loop.simps [of p qs "_ # rest"] is_option_def)
    next
      case (Opt ms)
      obtain ts2 ns2 where co: "consume_optional (ap_options p) ms rest ns = Inr (ts2, ns2)"
        using "1.prems" True by (auto simp: ts parse_loop.simps [of p qs "_ # rest"] Opt split: sum.splits)
      then show ?thesis
        using "1.prems" "1.IH"(5) [of "(w, r')" rest w r' ms "(ts2, ns2)" ts2 ns2] True
          consume_optional_keeps [OF co]
        by (auto simp: ts parse_loop.simps [of p qs "_ # rest"] Opt is_option_def intro: keeps_trans)
    next
      case Argument
      then show ?thesis
        using "1.prems" "1.IH"(1) [of "(w, r')" rest w r' qs' "(ts', ns')" ts' ns']
          "1.IH"(2) [of "(w, r')" rest w r' qs' "(ts', ns')" ts' ns'] True pos keep
        by (auto simp: ts parse_loop.simps [of p qs "_ # rest"] is_option_def split: if_splits intro: keeps_trans)
    next
      case Separator
      then show ?thesis
        using "1.prems" "1.IH"(3) [of "(w, r')" rest w r' qs' "(ts', ns')" ts' ns']
          "1.IH"(4) [of "(w, r')" rest w r' qs' "(ts', ns')" ts' ns'] True pos keep
        by (auto simp: ts parse_loop.simps [of p qs "_ # rest"] is_option_def split: if_splits intro: keeps_trans)
    qed
  qed
qed

section \<open>Reading an invocation back\<close>

lemma option_word_simps:
  "option_word name None = []" "option_word name (Some x) = [''--'' @ name @ ''='' @ x]"
  by (simp_all add: option_word_def)

lemmas parser_defs = subcommands_def inventory_commands_def settings_commands_def plugin_commands_def
  deployment_commands_def monitoring_commands_def gateway_commands_def add_command_def

lemmas option_defs = add_option_def help_option_def unit_option_def add_positional_def option_named_def
  op_dest_def long_name_def takes_value_def is_option_def is_separator_def

lemmas consume_defs = consume_optional_def take_value_def take_flag_def match_positional_def append_value_def

lemmas reading_defs = parse_known_args_def parse_optional_def defaults_def option_word_simps flag_word_def
  option_defs consume_defs loop_option loop_arguments

lemmas read_defs = selected_def text_arg_def the_text_def number_arg_def flag_arg_def list_arg_def opt_text_def

lemma dict_ok_small [simp]: "dict_ok [(k, v)]" by (simp add: dict_ok_def)

lemma plain_arguments [simp]: "\<not> list_ex is_option (map (\<lambda>v. (v, Argument)) ws)"
  by (induction ws) (simp_all add: is_option_def)

lemma lookup_command:
  "dict_get ''devices'' subcommands =
     Some (snd (add_command ''devices'' Handle_list_devices False
       [] []))"
  "dict_get ''units'' subcommands =
     Some (snd (add_command ''units'' Handle_list_units False
       [] []))"
  "dict_get ''adopt'' subcommands =
     Some (snd (add_command ''adopt'' Handle_adopt_unit False
       [add_option [''--serial''] Store ArgNone, add_option [''--label''] Store (ArgText [])] [add_positional ''name'']))"
  "dict_get ''config'' subcommands =
     Some (snd (add_command ''config'' Handle_show_config True
       [] [\<lparr>po_dest = ''plugin'', po_optional = True\<rparr>]))"
  "dict_get ''get'' subcommands =
     Some (snd (add_command ''get'' Handle_get_setting True
       [] [add_positional ''key'']))"
  "dict_get ''origin'' subcommands =
     Some (snd (add_command ''origin'' Handle_show_origin True
       [] [add_positional ''key'']))"
  "dict_get ''set'' subcommands =
     Some (snd (add_command ''set'' Handle_set_setting True
       [] [add_positional ''key'', add_positional ''value'']))"
  "dict_get ''unset'' subcommands =
     Some (snd (add_command ''unset'' Handle_unset_setting True
       [] [add_positional ''key'']))"
  "dict_get ''action'' subcommands =
     Some (snd (add_command ''action'' Handle_run_action True
       [] [add_positional ''plugin'', add_positional ''action'']))"
  "dict_get ''plugins'' subcommands =
     Some (snd (add_command ''plugins'' Handle_list_plugins True
       [] []))"
  "dict_get ''enable'' subcommands =
     Some (snd (add_command ''enable'' Handle_set_plugin_state True
       [] [add_positional ''plugin'']))"
  "dict_get ''disable'' subcommands =
     Some (snd (add_command ''disable'' Handle_set_plugin_state True
       [] [add_positional ''plugin'']))"
  "dict_get ''deploy'' subcommands =
     Some (snd (add_command ''deploy'' Handle_deploy_unit False
       [add_option [''--dry-run''] StoreTrue (ArgFlag False)] [add_positional ''unit'']))"
  "dict_get ''pull'' subcommands =
     Some (snd (add_command ''pull'' Handle_pull_unit False
       [] [add_positional ''unit'']))"
  "dict_get ''install'' subcommands =
     Some (snd (add_command ''install'' Handle_install_modules True
       [add_option [''-m'', ''--module''] Append ArgNone, add_option [''--no-build''] StoreTrue (ArgFlag False), add_option [''--reboot''] StoreTrue (ArgFlag False)] []))"
  "dict_get ''reboot'' subcommands =
     Some (snd (add_command ''reboot'' Handle_reboot_unit True
       [] []))"
  "dict_get ''status'' subcommands =
     Some (snd (add_command ''status'' Handle_show_status True
       [] []))"
  "dict_get ''metrics'' subcommands =
     Some (snd (add_command ''metrics'' Handle_print_metrics True
       [] []))"
  "dict_get ''doctor'' subcommands =
     Some (snd (add_command ''doctor'' Handle_run_doctor True
       [] []))"
  "dict_get ''serve'' subcommands =
     Some (snd (add_command ''serve'' Handle_serve_metrics False
       [add_option [''--host''] Store (ArgText DEFAULT_METRICS_HOST), add_option [''--port''] StoreInt (ArgNumber DEFAULT_METRICS_PORT), add_option [''-u'', ''--unit''] Append ArgNone] []))"
  "dict_get ''gateway'' subcommands =
     Some (snd (add_command ''gateway'' Handle_run_gateway False
       [add_option [''--host''] Store ArgNone, add_option [''--port''] StoreInt ArgNone, add_option [''--once''] StoreTrue (ArgFlag False)] []))"
  "dict_get ''gwconfig'' subcommands =
     Some (snd (add_command ''gwconfig'' Handle_show_gateway_config False
       [] []))"
  by (simp_all add: parser_defs)

lemma read_plain:
  "dict_get name subcommands = Some c \<Longrightarrow>
     read_command_line (name # ws) = map_sum id (\<lambda>(hd', ns). invocation_of hd' ns) (run_subparser None name c ws)"
  using read_command [of name c None ws] by (simp add: option_word_def)

lemmas read_on_unit = lookup_command [THEN read_command]
lemmas read_at_top = lookup_command [THEN read_plain]

lemmas run_defs = run_subparser_def add_command_def reading_defs read_defs dict_get_overwrite

text \<open>An option given any number of times collects its values in order.\<close>

definition collected :: "string \<Rightarrow> string list \<Rightarrow> namespace \<Rightarrow> namespace" where
  "collected k vs ns = fold (\<lambda>v ns. dict_set k (append_value v (dict_get k ns)) ns) vs ns"

lemma loop_many:
  "op_action o' = Append \<Longrightarrow>
     parse_loop p qs (map (\<lambda>v. (f v, Opt [(o', n, eq, Some v)])) vs) ns ex =
     parse_loop p qs [] (collected (op_dest o') vs ns) ex"
  by (induction vs arbitrary: ns)
     (simp_all add: collected_def loop_option consume_optional_def takes_value_def take_value_def)

lemma read_many:
  assumes "\<And>v. parse_optional os (''--'' @ name @ ''='' @ v) = Opt (m v)"
  shows "read_words os (many_words name vs) = map (\<lambda>v. (''--'' @ name @ ''='' @ v, Opt (m v))) vs"
  using assms by (induction vs) (simp_all add: many_words_def)

lemma collected_other: "j \<noteq> k \<Longrightarrow> dict_get j (collected k vs ns) = dict_get j ns"
  by (induction vs arbitrary: ns) (simp_all add: collected_def)

lemma collected_ok: "dict_ok ns \<Longrightarrow> dict_ok (collected k vs ns)"
  by (induction vs arbitrary: ns) (simp_all add: collected_def)

lemma collected_list:
  "dict_get k ns = Some (ArgList us) \<Longrightarrow> dict_get k (collected k vs ns) = Some (ArgList (us @ vs))"
  by (induction vs arbitrary: ns us) (simp_all add: collected_def append_value_def)

lemma collected_none:
  "dict_get k ns = Some ArgNone \<Longrightarrow>
     dict_get k (collected k vs ns) = Some (if vs = [] then ArgNone else ArgList vs)"
proof (cases vs)
  case (Cons v us)
  assume "dict_get k ns = Some ArgNone"
  then show ?thesis
    using collected_list [of k "dict_set k (ArgList [v]) ns" "[v]" us]
    by (simp add: Cons collected_def append_value_def)
qed (simp add: collected_def)

lemmas collected_simps = collected_other collected_ok collected_none

lemma read_modules:
  "read_words (ap_options (snd (snd (add_command ''install'' Handle_install_modules True
       [add_option [''-m'', ''--module''] Append ArgNone, add_option [''--no-build''] StoreTrue (ArgFlag False),
        add_option [''--reboot''] StoreTrue (ArgFlag False)] [])))) (many_words ''module'' vs) =
     map (\<lambda>v. (''--module='' @ v, Opt [(add_option [''-m'', ''--module''] Append ArgNone, ''--module'', True, Some v)])) vs"
  by (subst read_many [where m = "\<lambda>v. [(add_option [''-m'', ''--module''] Append ArgNone, ''--module'', True, Some v)]"]) (simp_all add: parse_optional_def option_defs add_command_def)

lemma read_units:
  "read_words (ap_options (snd (snd (add_command ''serve'' Handle_serve_metrics False
        [add_option [''--host''] Store (ArgText DEFAULT_METRICS_HOST),
         add_option [''--port''] StoreInt (ArgNumber DEFAULT_METRICS_PORT),
         add_option [''-u'', ''--unit''] Append ArgNone] [])))) (many_words ''unit'' vs) =
     map (\<lambda>v. (''--unit='' @ v, Opt [(add_option [''-u'', ''--unit''] Append ArgNone, ''--unit'', True, Some v)])) vs"
  by (subst read_many [where m = "\<lambda>v. [(add_option [''-u'', ''--unit''] Append ArgNone, ''--unit'', True, Some v)]"]) (simp_all add: parse_optional_def option_defs add_command_def)

lemma read_install:
  "read_command_line (arguments (Install sel ms no_build reboot)) = Inr (Install sel ms no_build reboot)"
  unfolding arguments.simps on_unit_def read_on_unit
  by (cases sel; cases "fst sel"; cases "snd sel"; cases no_build; cases reboot)
     (simp_all add: run_defs read_modules [unfolded option_defs add_command_def, simplified]
        loop_many collected_simps)

lemma read_serve: "read_command_line (arguments (Serve host port us)) = Inr (Serve host port us)"
  unfolding arguments.simps read_at_top
  by (simp add: run_defs read_units [unfolded option_defs add_command_def, simplified] loop_many collected_simps)

lemma read_gateway: "read_command_line (arguments (Gateway host port once)) = Inr (Gateway host port once)"
  unfolding arguments.simps read_at_top
  by (cases host; cases port; cases once) (simp_all add: run_defs)

lemma read_adopt: "read_command_line (arguments (Adopt name serial label)) = Inr (Adopt name serial label)"
  unfolding arguments.simps read_at_top
  by (cases serial) (simp_all add: run_defs)

lemma read_config: "read_command_line (arguments (Config sel plugin)) = Inr (Config sel plugin)"
  unfolding arguments.simps on_unit_def read_on_unit
  by (cases sel; cases "fst sel"; cases "snd sel"; cases plugin) (simp_all add: run_defs)

lemma read_plugin_state:
  "read_command_line (arguments (Plugin_state sel on plugin)) = Inr (Plugin_state sel on plugin)"
proof (cases on)
  case True
  then show ?thesis
    by (simp only: arguments.simps on_unit_def if_True read_on_unit)
       (cases sel; cases "fst sel"; cases "snd sel"; simp add: run_defs)
next
  case False
  then show ?thesis
    by (simp only: arguments.simps on_unit_def if_False read_on_unit)
       (cases sel; cases "fst sel"; cases "snd sel"; simp add: run_defs)
qed

lemma read_settings:
  "read_command_line (arguments (Get sel key)) = Inr (Get sel key)"
  "read_command_line (arguments (Origin sel key)) = Inr (Origin sel key)"
  "read_command_line (arguments (Set_value sel key v)) = Inr (Set_value sel key v)"
  "read_command_line (arguments (Unset sel key)) = Inr (Unset sel key)"
  "read_command_line (arguments (Action sel plugin act)) = Inr (Action sel plugin act)"
  unfolding arguments.simps on_unit_def read_on_unit
  by (cases sel; cases "fst sel"; cases "snd sel"; simp add: run_defs)+

lemma read_reports:
  "read_command_line (arguments (Plugins sel)) = Inr (Plugins sel)"
  "read_command_line (arguments (Reboot sel)) = Inr (Reboot sel)"
  "read_command_line (arguments (Status sel)) = Inr (Status sel)"
  "read_command_line (arguments (Metrics sel)) = Inr (Metrics sel)"
  "read_command_line (arguments (Doctor sel)) = Inr (Doctor sel)"
  unfolding arguments.simps on_unit_def read_on_unit
  by (cases sel; cases "fst sel"; cases "snd sel"; simp add: run_defs)+

lemma read_files:
  "read_command_line (arguments Devices) = Inr Devices"
  "read_command_line (arguments Units) = Inr Units"
  "read_command_line (arguments (Deploy u dry)) = Inr (Deploy u dry)"
  "read_command_line (arguments (Pull u)) = Inr (Pull u)"
  "read_command_line (arguments Gwconfig) = Inr Gwconfig"
  unfolding arguments.simps read_at_top
  by (cases dry; simp add: run_defs)+

lemma arguments_read_back: "read_command_line (arguments i) = Inr i"
  by (cases i) (simp_all only: read_settings read_reports read_files read_install read_serve read_gateway
      read_adopt read_config read_plugin_state)

text \<open>What a subcommand read of its own is not replaced by the outer namespace.\<close>

lemma dict_get_fold_set:
  "dict_get k (fold (\<lambda>(j, v). dict_set j v) sub ns) =
     (case dict_get k (rev sub) of Some v \<Rightarrow> Some v | None \<Rightarrow> dict_get k ns)"
  by (induction sub arbitrary: ns)
     (auto simp: dict_get_def dict_set_def update_conv' map_add_def map_of_append split: option.splits)

lemma dict_get_rev: "dict_get k (rev d) = None \<longleftrightarrow> dict_get k d = None"
  by (auto simp: dict_get_def map_of_eq_None_iff)

section \<open>Properties\<close>

text \<open>
  C18. Every invocation can be written as a command line, whatever its texts are (empty, starting with
  dashes, looking like numbers or options), and the parser reads exactly that invocation back: the
  texts reach the handler unchanged.
\<close>

theorem invocations_read_back: "read_command_line (arguments i) = Inr i"
  by (rule arguments_read_back)

text \<open>
  C39. \<open>rackphone --serial S adopt NAME\<close> forgets the serial: the subcommand declares its own \<open>--serial\<close>,
  whose default is written over the global one. Every \<open>adopt\<close> command line means the same with and
  without a global serial.
\<close>

theorem adopt_forgets_global_serial:
  "read_command_line ((''--serial='' @ s) # ''adopt'' # ws) = read_command_line (''adopt'' # ws)"
proof -
  obtain c where c: "dict_get ''adopt'' subcommands = Some c" and c_def: "c = snd (add_command ''adopt''
      Handle_adopt_unit False
      [add_option [''--serial''] Store ArgNone, add_option [''--label''] Store (ArgText [])]
      [add_positional ''name''])"
    using lookup_command(3) by blast
  have reads: "invocation_of (fst c) ns =
      Adopt (the_text ''name'' ns) (text_arg ''serial'' ns) (the_text ''label'' ns)" for ns
    by (simp add: c_def add_command_def)
  have start: "dict_get k (defaults (snd c)) \<noteq> None" if "k \<in> {''serial'', ''label'', ''name''}" for k
    using that by (auto simp: c_def defaults_def add_command_def option_defs)
  have same: "text_arg k (fold (\<lambda>(k, v). dict_set k v) sub ns) = text_arg k (fold (\<lambda>(k, v). dict_set k v) sub ns')"
    if "parse_known_args (snd c) ws = Inr (sub, u)" and "k \<in> {''serial'', ''label'', ''name''}" for sub u ns ns' k
  proof -
    have "keeps (defaults (snd c)) sub"
      using parse_loop_keeps that(1) by (fastforce simp: parse_known_args_def)
    then have "dict_get k (rev sub) \<noteq> None"
      using start [OF that(2)] unfolding keeps_def dict_get_rev by blast
    then show ?thesis
      by (simp only: text_arg_def dict_get_fold_set) (auto split: option.split)
  qed
  have "map_sum id (\<lambda>(hd', ns). invocation_of hd' ns) (run_subparser (Some s) ''adopt'' c ws) =
      map_sum id (\<lambda>(hd', ns). invocation_of hd' ns) (run_subparser None ''adopt'' c ws)"
  proof (cases "parse_known_args (snd c) ws")
    case (Inr r)
    obtain sub u where r: "r = (sub, u)" by (cases r)
    have "invocation_of (fst c) (fold (\<lambda>(k, v). dict_set k v) sub ns) =
        invocation_of (fst c) (fold (\<lambda>(k, v). dict_set k v) sub ns')" for ns ns'
      unfolding reads the_text_def using same [OF Inr [unfolded r], of _ ns ns'] by simp
    then show ?thesis by (simp add: run_subparser_def Inr r)
  qed (simp add: run_subparser_def)
  then show ?thesis
    using read_command [OF c, of "Some s" ws] read_command [OF c, of None ws]
    by (simp add: option_word_simps)
qed

end
