(* ===== verification/Console.thy ===== *)
theory Console
  imports Commands Exposition Complex_Main
begin

text \<open>
  What the operator sees: \<open>render.py\<close> as values, and the commands that print reports,
  \<open>show_config\<close>, \<open>list_plugins\<close>, \<open>show_status\<close>, \<open>show_gateway_config\<close>, \<open>list_devices\<close> and
  \<open>list_units\<close>. A command runs in a world that also holds what was printed so far, so that the
  output before an error is kept. Styled text is a list of styled pieces; a plain string given to the
  console is markup, which the rich library interprets.
\<close>

section \<open>Output\<close>

type_synonym styled = "(string \<times> string) list"

datatype cell = Markup string | Styled styled

datatype printed =
    Print styled
  | PrintMarkup string
  | PrintError styled
  | PrintPanel styled string string
  | PrintTable "string option" "(string \<times> string option) list" "cell list list"
  | PrintLine
  | Stdout string

type_synonym 'w screen = "'w \<times> printed list"

definition say :: "printed list \<Rightarrow> ('w screen, unit) io" where
  "say ps = (\<lambda>(w, out). (Inr (), (w, out @ ps)))"

text \<open>An action of the host, which prints nothing.\<close>

definition quietly :: "('w, 'a) io \<Rightarrow> ('w screen, 'a) io" where
  "quietly m = (\<lambda>(w, out). case m w of (r, w') \<Rightarrow> (r, (w', out)))"

definition styled :: "string \<Rightarrow> string \<Rightarrow> styled" where
  "styled style s = [(s, style)]"

definition heading :: "string \<Rightarrow> printed list" where
  "heading s = [Print (styled ''bold cyan'' s)]"

definition info :: "string \<Rightarrow> printed list" where
  "info s = [PrintMarkup s]"

definition dim :: "string \<Rightarrow> printed list" where
  "dim s = [Print (styled ''dim'' s)]"

definition ok_line :: "string \<Rightarrow> printed list" where
  "ok_line s = [Print (styled ''green'' s)]"

definition warn :: "string \<Rightarrow> printed list" where
  "warn s = [Print (styled ''yellow'' s)]"

definition error_line :: "string \<Rightarrow> printed list" where
  "error_line s = [PrintError (styled ''bold red'' s)]"

definition panel :: "styled \<Rightarrow> string \<Rightarrow> string \<Rightarrow> printed list" where
  "panel body title style = [PrintPanel body title style]"

definition table :: "string option \<Rightarrow> (string \<times> string option) list \<Rightarrow> cell list list \<Rightarrow> printed list" where
  "table title columns rows =
     (if rows = [] then dim ''  (nothing to show)'' else [PrintTable title columns rows])"

definition headers :: "string list \<Rightarrow> (string \<times> string option) list" where
  "headers names = map (\<lambda>n. (n, None)) names"

definition ORIGIN_STYLES :: "(string, string) dict" where
  "ORIGIN_STYLES = [(''prop'', ''bold yellow''), (''config'', ''cyan''), (''default'', ''dim'')]"

definition origin_text :: "string \<Rightarrow> styled" where
  "origin_text origin =
     styled (case dict_get origin ORIGIN_STYLES of Some style \<Rightarrow> style | None \<Rightarrow> ''dim'') origin"

section \<open>The gauge\<close>

definition GAUGE_WIDTH :: int where "GAUGE_WIDTH = 20"
definition GAUGE_FULL_RATIO :: rat where "GAUGE_FULL_RATIO = 9 / 10"
definition GAUGE_HEALTHY_RATIO :: rat where "GAUGE_HEALTHY_RATIO = 1 / 2"
definition GAUGE_LOW_RATIO :: rat where "GAUGE_LOW_RATIO = 1 / 4"

text \<open>
  A float that is a number is the exact value of its literal. The battery levels a phone reports
  have few digits; there the quotients and roundings of doubles agree with the exact ones.
\<close>

datatype py_float = Finite rat | NegativeZero | PlusInfinity | MinusInfinity | NotANumber

text \<open>\<open>round\<close>: to the nearest integer, halves to the even one.\<close>

definition round_half_even :: "rat \<Rightarrow> int" where
  "round_half_even x =
     (let n = \<lfloor>x\<rfloor>; rest = x - of_int n
      in if rest < 1 / 2 then n else if 1 / 2 < rest then n + 1 else if even n then n else n + 1)"

text \<open>\<open>max(0.0, min(1.0, q))\<close>; with \<open>nan\<close> the comparisons are false, and \<open>min\<close> keeps its first argument.\<close>

definition gauge_ratio :: "py_float \<Rightarrow> rat \<Rightarrow> rat \<Rightarrow> rat" where
  "gauge_ratio v low high =
     (let span = (if high > low then high - low else 1)
      in case v of
           Finite x \<Rightarrow> max 0 (min 1 ((x - low) / span))
         | NegativeZero \<Rightarrow> max 0 (min 1 ((0 - low) / span))
         | PlusInfinity \<Rightarrow> 1
         | MinusInfinity \<Rightarrow> 0
         | NotANumber \<Rightarrow> 1)"

text \<open>The full and the light block, U+2588 and U+2591, in UTF-8.\<close>

definition FULL_BLOCK :: string where "FULL_BLOCK = [CHR 0xE2, CHR 0x96, CHR 0x88]"
definition LIGHT_BLOCK :: string where "LIGHT_BLOCK = [CHR 0xE2, CHR 0x96, CHR 0x91]"

definition repeat :: "int \<Rightarrow> string \<Rightarrow> string" where
  "repeat n s = concat (replicate (nat n) s)"

definition gauge_filled :: "py_float \<Rightarrow> rat \<Rightarrow> rat \<Rightarrow> int \<Rightarrow> int" where
  "gauge_filled v low high width = round_half_even (gauge_ratio v low high * of_int width)"

definition gauge_style :: "rat \<Rightarrow> string" where
  "gauge_style ratio =
     (if ratio \<ge> GAUGE_FULL_RATIO then ''yellow''
      else if ratio \<ge> GAUGE_HEALTHY_RATIO then ''green''
      else if ratio \<ge> GAUGE_LOW_RATIO then ''cyan''
      else ''red'')"

definition gauge :: "py_float \<Rightarrow> rat \<Rightarrow> rat \<Rightarrow> int \<Rightarrow> styled" where
  "gauge v low high width =
     (let filled = gauge_filled v low high width
      in styled (gauge_style (gauge_ratio v low high))
           (repeat filled FULL_BLOCK @ repeat (width - filled) LIGHT_BLOCK))"

section \<open>Settings\<close>

text \<open>\<open>Text(v)\<close> of a decoded value that is not a text is not followed.\<close>

definition text_of :: "json \<Rightarrow> string result" where
  "text_of v = (case v of JStr s \<Rightarrow> Inr s | _ \<Rightarrow> Inl (Unmodelled ''styled text of a value that is not a text''))"

definition format_value :: "setting \<Rightarrow> json \<Rightarrow> styled result" where
  "format_value st v =
     (if st_type st = JStr ''bool''
      then Inr (if v = JStr ''1'' then styled ''green'' ''on'' else styled ''dim'' ''off'')
      else if json_truthy (st_unit_suffix st)
      then Inr (styled [] (json_str v @ json_str (st_unit_suffix st)))
      else if json_truthy v then rbind (text_of v) (\<lambda>s. Inr (styled [] s))
      else Inr (styled [] ''-''))"

definition format_constraint :: "setting \<Rightarrow> string" where
  "format_constraint st =
     (if st_type st = JStr ''int'' \<and> st_minimum st \<noteq> JNull
      then json_str (st_minimum st) @ ''..'' @ json_str (st_maximum st)
      else if st_type st = JStr ''enum'' then join ''|'' (st_allowed st)
      else [])"

text \<open>A setting's key indexes the reported values, so a key that is not a text finds none of them.\<close>

definition reported_field :: "(plugin \<Rightarrow> string \<Rightarrow> json result) \<Rightarrow> plugin \<Rightarrow> setting \<Rightarrow> json result" where
  "reported_field read p st =
     (case st_key st of
        JStr key \<Rightarrow> read p key
      | _ \<Rightarrow> Inl (Unmodelled ''a key that is not a text''))"

definition config_row :: "plugin \<Rightarrow> setting \<Rightarrow> cell list result" where
  "config_row p st =
     rbind (reported_field get_value p st) (\<lambda>v.
     rbind (format_value st v) (\<lambda>shown.
     rbind (reported_field get_origin p st) (\<lambda>origin.
     rbind (text_of origin) (\<lambda>o'.
     rbind (text_of (st_label st)) (\<lambda>label.
     Inr [Markup (json_str (pl_id p) @ ''.'' @ json_str (st_key st)), Styled shown,
          Styled (origin_text o'), Styled (styled ''dim'' (format_constraint st)),
          Styled (styled ''dim'' label)])))))"

definition config_table :: "plugin \<Rightarrow> cell list list \<Rightarrow> printed list" where
  "config_table p rows =
     table (Some (json_str (pl_name p) @ ''  ('' @ json_str (pl_id p) @ '')''))
       (headers [''KEY'', ''VALUE'', ''ORIGIN'', ''RANGE'', ''LABEL'']) rows @ [PrintLine]"

definition wanted_plugin :: "string option \<Rightarrow> plugin \<Rightarrow> bool" where
  "wanted_plugin only p \<longleftrightarrow> (case only of Some i \<Rightarrow> i = [] \<or> pl_id p = JStr i | None \<Rightarrow> True)"

fun show_plugins :: "string option \<Rightarrow> plugin list \<Rightarrow> ('w screen, unit) io" where
  "show_plugins only [] = io_ret ()"
| "show_plugins only (p # ps) =
     (if wanted_plugin only p
      then io_bind (io_lift (rmap (config_row p) (pl_settings p))) (\<lambda>rows.
           io_bind (say (config_table p rows)) (\<lambda>u. show_plugins only ps))
      else show_plugins only ps)"

definition cmd_show_config :: "'w host \<Rightarrow> string \<Rightarrow> string \<Rightarrow> string option \<Rightarrow> ('w screen, int) io" where
  "cmd_show_config h u serial only =
     io_bind (quietly (resolve_target h u serial)) (\<lambda>tg.
     io_bind (quietly (fetch_schema h (tg_serial tg))) (\<lambda>sc.
     io_bind (show_plugins only (us_plugins sc)) (\<lambda>x.
     io_bind (say (dim ''origin:  prop = live override   config = deployed   default = built-in'')) (\<lambda>y.
     io_ret EXIT_OK))))"

section \<open>Plugins\<close>

definition PLUGIN_LISTING_FIELDS :: nat where "PLUGIN_LISTING_FIELDS = 2"

text \<open>\<open>line.split(None, 2)\<close>: at most three fields, the last one the rest of the line.\<close>

definition split_two :: "string \<Rightarrow> string list" where
  "split_two l =
     (let field = (\<lambda>s. takeWhile (\<lambda>c. \<not> is_space c) s);
          after = (\<lambda>s. lstrip (drop (length (takeWhile (\<lambda>c. \<not> is_space c) s)) s));
          a = lstrip l; b = after a; c = after b
      in (if a = [] then [] else if b = [] then [field a] else if c = [] then [field a, field b]
          else [field a, field b, c]))"

text \<open>\<open>len\<close> of the declared actions.\<close>

definition json_len :: "json \<Rightarrow> nat result" where
  "json_len v = (case json_iter v of Inl e \<Rightarrow> Inl (TypeError ''object has no len()'') | Inr vs \<Rightarrow> Inr (length vs))"

definition count_cell :: "nat result option \<Rightarrow> cell result" where
  "count_cell n =
     (case n of
        None \<Rightarrow> Inr (Styled (styled ''dim'' ''-''))
      | Some r \<Rightarrow> rbind r (\<lambda>k. Inr (Markup (show_nat k))))"

text \<open>
  The last plugin with an id, as the dictionary comprehension keeps it; ids are taken to be hashable.
\<close>

definition enabled_plugin :: "unit_schema \<Rightarrow> string \<Rightarrow> plugin option" where
  "enabled_plugin sc i = List.find (\<lambda>p. pl_id p = JStr i) (rev (us_plugins sc))"

definition plugin_row :: "unit_schema \<Rightarrow> string \<Rightarrow> cell list option result" where
  "plugin_row sc l =
     (case split_two l of
        i # state # rest \<Rightarrow>
          (let found = enabled_plugin sc i
           in rbind (count_cell (map_option (\<lambda>p. Inr (length (pl_settings p))) found)) (\<lambda>settings.
              rbind (count_cell (map_option (\<lambda>p. json_len (pl_actions p)) found)) (\<lambda>actions.
              Inr (Some [Markup i, Styled (styled (if state = ''enabled'' then ''green'' else ''red'') state),
                Markup (case rest of [] \<Rightarrow> i | name # x \<Rightarrow> name), settings, actions]))))
      | _ \<Rightarrow> Inr None)"

definition cmd_list_plugins :: "'w host \<Rightarrow> string \<Rightarrow> string \<Rightarrow> ('w screen, int) io" where
  "cmd_list_plugins h u serial =
     io_bind (quietly (resolve_target h u serial)) (\<lambda>tg.
     io_bind (quietly (fetch_schema h (tg_serial tg))) (\<lambda>sc.
     io_bind (quietly (io_catch
         (io_bind (run_device_cli h (tg_serial tg) [''plugins''] DEFAULT_TIMEOUT_SECONDS)
           (\<lambda>out. io_ret (splitlines out)))
         (\<lambda>e. if is_adb_error e
              then io_ret (map (\<lambda>p. json_str (pl_id p) @ '' enabled '' @ json_str (pl_name p)) (us_plugins sc))
              else io_raise e))) (\<lambda>listing.
     io_bind (io_lift (rmap (plugin_row sc) listing)) (\<lambda>rows.
     io_bind (say (table (Some ''Plugins'') (headers [''ID'', ''STATE'', ''NAME'', ''SETTINGS'', ''ACTIONS''])
         (List.map_filter id rows) @ dim ''  rackphone enable <id> / disable <id>'')) (\<lambda>x.
     io_ret EXIT_OK)))))"

section \<open>Status\<close>

definition CAPACITY_KEY :: string where "CAPACITY_KEY = ''capacity''"
definition HEALTHY_VALUES :: "string list" where "HEALTHY_VALUES = [''running'', ''yes'', ''1'']"
definition FAULTED_VALUES :: "string list" where "FAULTED_VALUES = [''stopped'', ''none'']"

text \<open>\<open>float(s)\<close> of a text, surrounding blanks dropped.\<close>

definition decimal_value :: "int \<times> int \<Rightarrow> rat" where
  "decimal_value v = (case v of (m, e) \<Rightarrow>
     if e \<ge> 0 then of_int (m * 10 ^ nat e) else of_int m / of_int (10 ^ nat (- e)))"

definition py_float_of :: "string \<Rightarrow> py_float option" where
  "py_float_of s =
     (let t = strip s; neg = starts_with ''-'' t;
          body = lower (if neg \<or> starts_with ''+'' t then tl t else t);
          infinite = (if neg then MinusInfinity else PlusInfinity)
      in if body = ''inf'' \<or> body = ''infinity'' then Some infinite
         else if body = ''nan'' then Some NotANumber
         else case unsigned_float body of
             None \<Rightarrow> None
           | Some v \<Rightarrow>
               if \<not> fits_double v then Some infinite
               else if neg \<and> fst v = 0 then Some NegativeZero
               else Some (Finite ((if neg then - 1 else 1) * decimal_value v)))"

definition status_level :: "json \<Rightarrow> py_float option result" where
  "status_level v =
     (case v of
        JStr s \<Rightarrow> Inr (py_float_of s)
      | JInt n \<Rightarrow> Inr (Some (Finite (of_int n)))
      | JBool b \<Rightarrow> Inr (Some (Finite (if b then 1 else 0)))
      | JFloat f \<Rightarrow> Inr (py_float_of f)
      | _ \<Rightarrow> Inl (TypeError ''float() argument must be a string or a real number''))"

text \<open>The format \<open>.0f\<close>.\<close>

definition format_level :: "py_float \<Rightarrow> string" where
  "format_level v =
     (case v of
        Finite x \<Rightarrow> (if x < 0 \<and> round_half_even x = 0 then ''-0'' else show_int (round_half_even x))
      | NegativeZero \<Rightarrow> ''-0''
      | PlusInfinity \<Rightarrow> ''inf''
      | MinusInfinity \<Rightarrow> ''-inf''
      | NotANumber \<Rightarrow> ''nan'')"

definition hashable :: "json \<Rightarrow> bool" where
  "hashable v = (case v of JArr vs \<Rightarrow> False | JObj ms \<Rightarrow> False | _ \<Rightarrow> True)"

definition format_status_value :: "string \<Rightarrow> json \<Rightarrow> styled result" where
  "format_status_value key v =
     (if key = CAPACITY_KEY
      then rbind (status_level v) (\<lambda>level. case level of
          None \<Rightarrow> rbind (text_of v) (\<lambda>s. Inr (styled [] s))
        | Some x \<Rightarrow> Inr (styled [] (format_level x @ ''%  '') @ gauge x 0 100 GAUGE_WIDTH))
      else if \<not> hashable v then Inl (TypeError ''unhashable type'')
      else rbind (text_of v) (\<lambda>s.
        Inr (styled (if s \<in> set HEALTHY_VALUES then ''green''
                     else if s \<in> set FAULTED_VALUES then ''red'' else []) s)))"

text \<open>The values one plugin reported; a report that is not an object is not followed.\<close>

definition plugin_status :: "json \<Rightarrow> plugin \<Rightarrow> json result" where
  "plugin_status live p =
     rbind (json_members live) (\<lambda>ms. case pl_id p of
         JStr i \<Rightarrow> Inr (get_or i (JObj []) ms)
       | i \<Rightarrow> if hashable i then Inr (JObj []) else Inl (TypeError ''unhashable type''))"

definition status_row :: "json \<Rightarrow> json \<Rightarrow> cell list option result" where
  "status_row values key =
     (case values of
        JObj ms \<Rightarrow>
          (case key of
             JStr k \<Rightarrow>
               (case dict_get k ms of
                  Some v \<Rightarrow> rbind (format_status_value k v) (\<lambda>t. Inr (Some [Markup k, Styled t]))
                | None \<Rightarrow> Inr None)
           | _ \<Rightarrow> if hashable key then Inr None else Inl (TypeError ''unhashable type''))
      | _ \<Rightarrow> Inl (Unmodelled ''status values that are not an object''))"

definition status_block :: "json \<Rightarrow> plugin \<Rightarrow> printed list result" where
  "status_block live p =
     rbind (plugin_status live p) (\<lambda>values.
       if \<not> json_truthy values then Inr (dim (json_str (pl_name p) @ '': no status reported''))
       else rbind (json_iter (pl_status_keys p)) (\<lambda>keys.
            rbind (rmap (status_row values) keys) (\<lambda>rows.
            Inr (table (Some (json_str (pl_name p))) (headers [[], []]) (List.map_filter id rows) @ [PrintLine]))))"

fun show_blocks :: "json \<Rightarrow> plugin list \<Rightarrow> ('w screen, unit) io" where
  "show_blocks live [] = io_ret ()"
| "show_blocks live (p # ps) =
     io_bind (io_lift (status_block live p)) (\<lambda>out.
     io_bind (say out) (\<lambda>u. show_blocks live ps))"

definition status_header :: "device_target \<Rightarrow> unit_schema \<Rightarrow> styled" where
  "status_header tg sc =
     [(tg_unit_name tg, ''bold''), (''  '' @ json_str (us_model sc) @ ''  '', ''dim''),
      (json_str (us_lineage sc) @ [chr_nl], ''cyan''), (''serial '' @ tg_serial tg, ''dim'')]"

definition cmd_show_status :: "'w host \<Rightarrow> string \<Rightarrow> string \<Rightarrow> ('w screen, int) io" where
  "cmd_show_status h u serial =
     io_bind (quietly (resolve_target h u serial)) (\<lambda>tg.
     io_bind (quietly (fetch_schema h (tg_serial tg))) (\<lambda>sc.
     io_bind (quietly (fetch_status h (tg_serial tg))) (\<lambda>live.
     io_bind (say (panel (status_header tg sc) ''Unit'' ''cyan'')) (\<lambda>x.
     io_bind (show_blocks live (us_plugins sc)) (\<lambda>y. io_ret EXIT_OK)))))"

section \<open>Inventory and gateway configuration\<close>

definition device_row :: "(string, string) dict \<Rightarrow> device \<Rightarrow> cell list" where
  "device_row adopted d =
     [Markup (dv_serial d), Styled (styled (if is_usable d then ''green'' else ''yellow'') (dv_state d)),
      (case dict_get (dv_serial d) adopted of Some name \<Rightarrow> Markup name | None \<Rightarrow> Styled (styled ''dim'' ''-''))]"

definition cmd_list_devices :: "'w host \<Rightarrow> ('w screen, int) io" where
  "cmd_list_devices h =
     io_bind (quietly (load_all_units h)) (\<lambda>us.
     io_bind (quietly (list_devices h)) (\<lambda>ds.
     io_bind (say (table (Some ''Connected devices'') (headers [''SERIAL'', ''STATE'', ''UNIT''])
       (map (device_row (adopted_names us)) ds))) (\<lambda>x. io_ret EXIT_OK)))"

definition or_dim :: "string \<Rightarrow> string \<Rightarrow> cell" where
  "or_dim s d = (if s = [] then Styled (styled ''dim'' d) else Markup s)"

definition unit_row :: "device list \<Rightarrow> unit_file \<Rightarrow> cell list" where
  "unit_row ds u =
     [Markup (un_name u), or_dim (case un_serial u of Some s \<Rightarrow> s | None \<Rightarrow> []) ''auto'', or_dim (un_label u) ''-'',
      Styled (if unit_online ds u then styled ''green'' ''online'' else styled ''red'' ''offline''),
      Markup (show_nat (length (un_settings u)))]"

definition cmd_list_units :: "'w host \<Rightarrow> ('w screen, int) io" where
  "cmd_list_units h =
     io_bind (quietly (list_devices h)) (\<lambda>ds.
     io_bind (quietly (load_all_units h)) (\<lambda>us.
     io_bind (say (table (Some ''Units'') (headers [''NAME'', ''SERIAL'', ''LABEL'', ''STATE'', ''SETTINGS''])
       (map (unit_row ds) us))) (\<lambda>x. io_ret EXIT_OK)))"

definition load_command_config :: "(string \<Rightarrow> string option) \<Rightarrow> environ \<Rightarrow> (string \<times> json) list option
     \<Rightarrow> ('w screen, gateway_config option) io" where
  "load_command_config bad env file =
     (case load_config bad env file of
        Inr c \<Rightarrow> io_ret (Some c)
      | Inl e \<Rightarrow> (case e of
            FilterConfigError m \<Rightarrow>
              io_bind (say (error_line (get_config_path env @ '': '' @ m))) (\<lambda>u. io_ret None)
          | _ \<Rightarrow> io_raise e))"

definition filter_row :: "filter_rule \<Rightarrow> cell list" where
  "filter_row r =
     [Markup (fr_name r), Markup (if fr_enabled r then ''on'' else ''off''), Markup (describe r)]"

definition config_report :: "environ \<Rightarrow> gateway_config \<Rightarrow> printed list" where
  "config_report env c =
     table (Some ''Gateway configuration'') (headers [''KEY'', ''VALUE''])
       (map (\<lambda>(key, v). [Markup key, Markup v]) (as_redacted_dict env c)) @
     (if gc_filters c = [] then []
      else table (Some ''Notification filters'') (headers [''RULE'', ''STATE'', ''MATCHES''])
        (map filter_row (gc_filters c)))"

definition cmd_show_gateway_config :: "(string \<Rightarrow> string option) \<Rightarrow> environ
     \<Rightarrow> (string \<times> json) list option \<Rightarrow> ('w screen, int) io" where
  "cmd_show_gateway_config bad env file =
     io_bind (load_command_config bad env file) (\<lambda>c. case c of
         None \<Rightarrow> io_ret EXIT_FAILURE
       | Some c' \<Rightarrow> io_bind (say (config_report env c')) (\<lambda>x. io_ret EXIT_OK))"

section \<open>Reported failures\<close>

text \<open>The text of a \<open>KeyError\<close> is the \<open>repr\<close> of its message.\<close>

definition failure_text :: "exn \<Rightarrow> string" where
  "failure_text e =
     (case e of
        AdbError m \<Rightarrow> ''adb: '' @ m
      | KeyError m \<Rightarrow> py_repr m
      | FileNotFoundError m \<Rightarrow> m
      | _ \<Rightarrow> [])"

definition main_screen :: "('w screen, int) io \<Rightarrow> ('w screen, int) io" where
  "main_screen handler =
     io_catch handler (\<lambda>e.
       if reported e then io_bind (say (error_line (failure_text e))) (\<lambda>u. io_ret EXIT_FAILURE)
       else io_raise e)"

section \<open>Lemmas\<close>

lemma say_app [io_simps]: "say ps (w, out) = (Inr (), (w, out @ ps))"
  by (simp add: say_def)

lemma quietly_app: "quietly m (w, out) = (fst (m w), (snd (m w), out))"
  by (simp add: quietly_def case_prod_unfold)

lemma round_half_even_mono: "x \<le> y \<Longrightarrow> round_half_even x \<le> round_half_even y"
proof -
  assume le: "x \<le> y"
  have fl: "\<lfloor>x\<rfloor> \<le> \<lfloor>y\<rfloor>" using le by (rule floor_mono)
  have low: "round_half_even z \<ge> \<lfloor>z\<rfloor>" and up: "round_half_even z \<le> \<lfloor>z\<rfloor> + 1" for z
    by (simp_all add: round_half_even_def Let_def)
  show ?thesis
  proof (cases "\<lfloor>x\<rfloor> = \<lfloor>y\<rfloor>")
    case True
    then show ?thesis using le by (auto simp: round_half_even_def Let_def)
  next
    case False
    then have "\<lfloor>x\<rfloor> + 1 \<le> \<lfloor>y\<rfloor>" using fl by linarith
    then show ?thesis using low [of y] up [of x] by linarith
  qed
qed

lemma round_half_even_int [simp]: "round_half_even (of_int n) = n"
  by (simp add: round_half_even_def)

lemma round_half_even_0 [simp]: "round_half_even 0 = 0"
  using round_half_even_int [of 0] by simp

lemma gauge_ratio_bounds: "0 \<le> gauge_ratio v low high" "gauge_ratio v low high \<le> 1"
  by (simp_all add: gauge_ratio_def Let_def split: py_float.split)

lemma gauge_filled_bounds:
  assumes "0 \<le> width"
  shows "0 \<le> gauge_filled v low high width" "gauge_filled v low high width \<le> width"
proof -
  let ?x = "gauge_ratio v low high * of_int width"
  have "0 \<le> ?x" "?x \<le> of_int width"
    using assms gauge_ratio_bounds [of v low high] by (simp_all add: mult_left_le_one_le)
  then show "0 \<le> gauge_filled v low high width" "gauge_filled v low high width \<le> width"
    using round_half_even_mono [of "of_int 0" ?x] round_half_even_mono [of ?x "of_int width"]
    by (simp_all only: gauge_filled_def round_half_even_int of_int_0 round_half_even_0)
qed

lemma gauge_filled_mono:
  assumes "0 \<le> width" "x \<le> y"
  shows "gauge_filled (Finite x) low high width \<le> gauge_filled (Finite y) low high width"
proof -
  let ?span = "if high > low then high - low else 1"
  have "(x - low) / ?span \<le> (y - low) / ?span" using assms(2) by (intro divide_right_mono) simp_all
  then have "gauge_ratio (Finite x) low high \<le> gauge_ratio (Finite y) low high"
    by (simp only: gauge_ratio_def Let_def py_float.case max.mono min.mono order.refl)
  then show ?thesis
    unfolding gauge_filled_def using assms(1) by (intro round_half_even_mono mult_right_mono) simp_all
qed

lemma gauge_filled_ends:
  assumes "low < high"
  shows "x \<le> low \<Longrightarrow> gauge_filled (Finite x) low high width = 0"
    and "high \<le> x \<Longrightarrow> gauge_filled (Finite x) low high width = width"
proof -
  assume "x \<le> low"
  then have "(x - low) / (high - low) \<le> 0" using assms by (simp add: divide_nonpos_pos)
  then have "gauge_ratio (Finite x) low high = 0" using assms by (simp add: gauge_ratio_def Let_def)
  then show "gauge_filled (Finite x) low high width = 0"
    by (simp add: gauge_filled_def)
next
  assume "high \<le> x"
  then have "1 \<le> (x - low) / (high - low)" using assms by simp
  then have "gauge_ratio (Finite x) low high = 1" using assms by (simp add: gauge_ratio_def Let_def)
  then show "gauge_filled (Finite x) low high width = width" by (simp add: gauge_filled_def)
qed

lemma repeat_length: "length (repeat n s) = nat n * length s"
  by (simp add: repeat_def length_concat sum_list_replicate)

text \<open>The tables of a list of plugins, as far as their rows can be made.\<close>

fun tables_until :: "string option \<Rightarrow> plugin list \<Rightarrow> printed list \<times> unit result" where
  "tables_until only [] = ([], Inr ())"
| "tables_until only (p # ps) =
     (if \<not> wanted_plugin only p then tables_until only ps
      else case rmap (config_row p) (pl_settings p) of
        Inl e \<Rightarrow> ([], Inl e)
      | Inr rows \<Rightarrow> (config_table p rows @ fst (tables_until only ps), snd (tables_until only ps)))"

lemma show_plugins_run:
  "show_plugins only ps (w, out) = (snd (tables_until only ps), (w, out @ fst (tables_until only ps)))"
  by (induction ps arbitrary: out)
     (auto simp: io_ret_def io_bind_def io_lift_def say_app split: sum.split)

text \<open>The first cells of a printed table's rows.\<close>

definition table_keys :: "printed \<Rightarrow> cell list" where
  "table_keys x = (case x of PrintTable title columns rows \<Rightarrow> map hd rows | _ \<Rightarrow> [])"

definition setting_cell :: "plugin \<Rightarrow> setting \<Rightarrow> cell" where
  "setting_cell p st = Markup (json_str (pl_id p) @ ''.'' @ json_str (st_key st))"

lemma config_row_key: "config_row p st = Inr row \<Longrightarrow> hd row = setting_cell p st"
  by (auto simp: config_row_def rbind_eq_Inr setting_cell_def)

lemma config_rows_keys:
  "rmap (config_row p) sts = Inr rows \<Longrightarrow> map hd rows = map (setting_cell p) sts"
  by (induction sts arbitrary: rows) (auto simp: rbind_eq_Inr config_row_key)

lemma config_table_keys: "concat (map table_keys (config_table p rows)) = map hd rows"
  by (simp add: config_table_def table_def table_keys_def dim_def)

lemma tables_keys:
  "snd (tables_until only ps) = Inr () \<Longrightarrow>
     concat (map table_keys (fst (tables_until only ps))) =
     concat (map (\<lambda>p. map (setting_cell p) (pl_settings p)) (filter (wanted_plugin only) ps))"
  by (induction ps) (auto simp: config_table_keys config_rows_keys split: sum.splits if_splits)

section \<open>Properties\<close>

text \<open>
  A configuration listing that ends without an error has one row for every setting that each
  selected plugin declares, in the declared order, and leaves the world alone.
\<close>

theorem config_lists_every_setting:
  assumes "show_plugins only ps (w, []) = (Inr (), (w', out))"
  shows "w' = w \<and> concat (map table_keys out) =
    concat (map (\<lambda>p. map (setting_cell p) (pl_settings p)) (filter (wanted_plugin only) ps))"
  using assms tables_keys [of only ps] by (simp add: show_plugins_run)

theorem config_lists_every_setting_witness:
  "concat (map table_keys (snd (snd (show_plugins None [power_plugin] ((), []))))) =
     [setting_cell power_plugin power_limit]"
proof -
  have "show_plugins None [power_plugin] ((), []) =
      (Inr (), ((), snd (snd (show_plugins None [power_plugin] ((), [])))))"
    by (simp add: show_plugins_run prod_eq_iff power_plugin_def power_limit_def wanted_plugin_def config_row_def
        reported_field_def get_value_def get_origin_def value_field_def json_members_def get_or_def format_value_def
        json_truthy_def text_of_def io_bind_def say_app io_lift_def io_ret_def)
  from config_lists_every_setting [OF this] show ?thesis
    by (simp add: wanted_plugin_def power_plugin_def)
qed

text \<open>
  The gauge is a bar of exactly the given number of cells, the full ones first; it is empty up to
  the lower value, full from the upper one, and never shorter for a larger value.
\<close>

theorem gauge_is_a_bar:
  assumes "low < high"
  shows "(let n = gauge_filled v low high (int width) in
      0 \<le> n \<and> n \<le> int width \<and>
      gauge v low high (int width) = [(repeat n FULL_BLOCK @ repeat (int width - n) LIGHT_BLOCK,
        gauge_style (gauge_ratio v low high))] \<and>
      length (fst (hd (gauge v low high (int width)))) = 3 * width) \<and>
    (x \<le> low \<longrightarrow> gauge_filled (Finite x) low high (int width) = 0) \<and>
    (high \<le> x \<longrightarrow> gauge_filled (Finite x) low high (int width) = int width) \<and>
    (x \<le> y \<longrightarrow> gauge_filled (Finite x) low high (int width) \<le> gauge_filled (Finite y) low high (int width))"
proof -
  have b: "0 \<le> gauge_filled v low high (int width)" "gauge_filled v low high (int width) \<le> int width"
    by (rule gauge_filled_bounds; simp)+
  have "nat (gauge_filled v low high (int width)) * 3 + nat (int width - gauge_filled v low high (int width)) * 3 =
      3 * width"
    using b by (simp add: nat_diff_distrib flip: add_mult_distrib)
  then show ?thesis
    using b gauge_filled_ends [OF assms, of x] gauge_filled_mono [of "int width" x y]
    by (simp add: Let_def gauge_def styled_def repeat_length FULL_BLOCK_def LIGHT_BLOCK_def)
qed

theorem gauge_is_a_bar_witness:
  "gauge_filled (Finite 15) 0 100 (int 20) \<le> gauge_filled (Finite 87) 0 100 (int 20) \<and>
   gauge_filled (Finite 120) 0 100 (int 20) = 20 \<and> gauge_filled (Finite (- 3)) 0 100 (int 20) = 0"
  using gauge_is_a_bar [of 0 100 NotANumber 20 15 87] gauge_is_a_bar [of 0 100 NotANumber 20 120 120]
    gauge_is_a_bar [of 0 100 NotANumber 20 "- 3" "- 3"] by simp

text \<open>
  The dispatcher prints exactly one line for a failure it reports, none otherwise, and the exit code
  and the effects are those of the command alone.
\<close>

theorem failures_are_printed_once:
  "main_screen (quietly m) (w, out) =
     (fst (main_exit m w), (snd (main_exit m w), out @
        (case fst (m w) of
           Inl e \<Rightarrow> if reported e then error_line (failure_text e) else []
         | Inr status \<Rightarrow> [])))"
  by (auto simp: main_screen_def main_exit_def io_catch_def quietly_app io_bind_def io_ret_def io_raise_def
      say_app split: sum.split prod.split)

end
