(* ===== verification/Screens.thy ===== *)
theory Screens
  imports Console
begin

text \<open>
  The commands of \<open>cli/commands\<close> that act on a device or on unit files, with everything they print.
  Each one shows its counterpart in the theories Cli and Commands: same result, same effects, some
  lines added to the screen.
\<close>

section \<open>Showing\<close>

definition displays :: "('w screen, 'a) io \<Rightarrow> ('w, 'a) io \<Rightarrow> bool" where
  "displays sm m \<longleftrightarrow> (\<forall>w out. \<exists>ps. sm (w, out) = (fst (m w), (snd (m w), out @ ps)))"

named_theorems showing \<open>rules for commands that print\<close>

lemma displaysI: "(\<And>w out. \<exists>ps. sm (w, out) = (fst (m w), (snd (m w), out @ ps))) \<Longrightarrow> displays sm m"
  by (simp add: displays_def)

lemma displaysE:
  assumes "displays sm m"
  obtains ps where "sm (w, out) = (fst (m w), (snd (m w), out @ ps))"
  using assms by (auto simp: displays_def)

lemma displays_quietly [showing]: "displays (quietly m) m"
  by (simp add: displays_def quietly_app)

lemma displays_ret [showing]: "displays (io_ret x) (io_ret x)"
  by (simp add: displays_def)

lemma displays_raise [showing]: "displays (io_raise e) (io_raise e)"
  by (simp add: displays_def)

lemma displays_lift [showing]: "displays (io_lift r) (io_lift r)"
  by (simp add: displays_def)

lemma displays_say [showing]:
  assumes "displays sm m"
  shows "displays (io_bind (say ps) (\<lambda>u. sm)) m"
proof (rule displaysI)
  fix w out
  obtain qs where "sm (w, out @ ps) = (fst (m w), (snd (m w), (out @ ps) @ qs))" using assms by (rule displaysE)
  then show "\<exists>qs. io_bind (say ps) (\<lambda>u. sm) (w, out) = (fst (m w), (snd (m w), out @ qs))"
    by (simp add: io_bind_def say_app)
qed

lemma displays_bind [showing]:
  assumes "displays sm m" and "\<And>x. displays (sf x) (f x)"
  shows "displays (io_bind sm sf) (io_bind m f)"
proof (rule displaysI)
  fix w out
  obtain ps where sm: "sm (w, out) = (fst (m w), (snd (m w), out @ ps))" using assms(1) by (rule displaysE)
  show "\<exists>qs. io_bind sm sf (w, out) = (fst (io_bind m f w), (snd (io_bind m f w), out @ qs))"
  proof (cases "fst (m w)")
    case (Inl e)
    then show ?thesis by (simp add: io_bind_def sm case_prod_unfold)
  next
    case (Inr x)
    obtain qs where "sf x (snd (m w), out @ ps) = (fst (f x (snd (m w))), (snd (f x (snd (m w))), (out @ ps) @ qs))"
      using assms(2) by (rule displaysE)
    then show ?thesis by (simp add: io_bind_def sm Inr case_prod_unfold)
  qed
qed

lemma displays_catch [showing]:
  assumes "displays sm m" and "\<And>e. displays (sh e) (h e)"
  shows "displays (io_catch sm sh) (io_catch m h)"
proof (rule displaysI)
  fix w out
  obtain ps where sm: "sm (w, out) = (fst (m w), (snd (m w), out @ ps))" using assms(1) by (rule displaysE)
  show "\<exists>qs. io_catch sm sh (w, out) = (fst (io_catch m h w), (snd (io_catch m h w), out @ qs))"
  proof (cases "fst (m w)")
    case (Inr x)
    then show ?thesis by (simp add: io_catch_def sm case_prod_unfold)
  next
    case (Inl e)
    obtain qs where "sh e (snd (m w), out @ ps) = (fst (h e (snd (m w))), (snd (h e (snd (m w))), (out @ ps) @ qs))"
      using assms(2) by (rule displaysE)
    then show ?thesis by (simp add: io_catch_def sm Inl case_prod_unfold)
  qed
qed

lemma displays_finally [showing]:
  assumes "displays sm m" and "displays sc c"
  shows "displays (io_finally sm sc) (io_finally m c)"
proof (rule displaysI)
  fix w out
  obtain ps where sm: "sm (w, out) = (fst (m w), (snd (m w), out @ ps))" using assms(1) by (rule displaysE)
  obtain qs where "sc (snd (m w), out @ ps) = (fst (c (snd (m w))), (snd (c (snd (m w))), (out @ ps) @ qs))"
    using assms(2) by (rule displaysE)
  then show "\<exists>qs. io_finally sm sc (w, out) = (fst (io_finally m c w), (snd (io_finally m c w), out @ qs))"
    by (auto simp: io_finally_def sm case_prod_unfold split: sum.split)
qed

lemma displays_if [showing]:
  "(b \<Longrightarrow> displays sm m) \<Longrightarrow> (\<not> b \<Longrightarrow> displays sm' m') \<Longrightarrow> displays (if b then sm else sm') (if b then m else m')"
  by simp

lemma displays_prod [showing]:
  "(\<And>a b. displays (sf a b) (f a b)) \<Longrightarrow> displays (case p of (a, b) \<Rightarrow> sf a b) (case p of (a, b) \<Rightarrow> f a b)"
  by (cases p) simp

lemma displays_sum [showing]:
  "(\<And>a. displays (sf a) (f a)) \<Longrightarrow> (\<And>b. displays (sg b) (g b)) \<Longrightarrow>
     displays (case x of Inl a \<Rightarrow> sf a | Inr b \<Rightarrow> sg b) (case x of Inl a \<Rightarrow> f a | Inr b \<Rightarrow> g b)"
  by (cases x) simp_all

text \<open>An action that prints and returns nothing else, before the rest.\<close>

lemma say_then: "displays (io_bind (say ps) (\<lambda>u. io_ret x)) (io_ret x)"
  by (rule displays_say, rule displays_ret)

section \<open>Settings\<close>

definition message_of :: "exn \<Rightarrow> string" where
  "message_of e =
     (case e of
        ValueError m \<Rightarrow> m | OSError m \<Rightarrow> m | FileNotFoundError m \<Rightarrow> m | AdbError m \<Rightarrow> m | _ \<Rightarrow> [])"

definition not_recorded :: "string \<Rightarrow> exn \<Rightarrow> ('w screen, int) io" where
  "not_recorded u e =
     io_bind (say (warn (''  the change is live, but '' @ u @ ''.env could not be written: '' @ message_of e) @
         dim ''  the next deploy will revert it until the unit file is writable''))
       (\<lambda>x. io_ret EXIT_FAILURE)"

definition recorded_lines :: "string \<Rightarrow> bool \<Rightarrow> printed list" where
  "recorded_lines u recorded =
     (if recorded then dim (''  recorded in '' @ u @ ''.env'')
      else dim ''  (unit not adopted; change is live but not tracked in the repo)'')"

definition rejected_lines :: "exn \<Rightarrow> setting \<Rightarrow> printed list" where
  "rejected_lines e st =
     error_line (message_of e) @
     (if json_truthy (st_help st) then dim (''  '' @ json_str (st_help st)) else [])"

definition screen_write :: "'w host \<Rightarrow> device_target \<Rightarrow> setting \<Rightarrow> string \<Rightarrow> string result \<Rightarrow> ('w screen, int) io" where
  "screen_write h tg st dotted r =
     (case r of
        Inl e \<Rightarrow>
          if is_value_error e then io_bind (say (rejected_lines e st)) (\<lambda>x. io_ret EXIT_FAILURE)
          else io_raise e
      | Inr v \<Rightarrow>
          io_bind (quietly (run_device_cli h (tg_serial tg) [''set'', dotted, v] DEFAULT_TIMEOUT_SECONDS)) (\<lambda>out.
          io_bind (say (ok_line (dotted @ '' = '' @ v))) (\<lambda>x.
          io_catch
            (io_bind (quietly (record_setting h (tg_unit_name tg) dotted v)) (\<lambda>recorded.
             io_bind (say (recorded_lines (tg_unit_name tg) recorded)) (\<lambda>y. io_ret EXIT_OK)))
            (\<lambda>e. if os_error e then not_recorded (tg_unit_name tg) e else io_raise e))))"

definition screen_set_setting :: "'w host \<Rightarrow> string \<Rightarrow> string \<Rightarrow> string \<Rightarrow> string \<Rightarrow> ('w screen, int) io" where
  "screen_set_setting h u serial dotted text =
     io_bind (quietly (resolve_target h u serial)) (\<lambda>tg.
     io_bind (io_lift (split_setting_key dotted)) (\<lambda>(plugin_id, key).
     io_bind (quietly (fetch_schema h (tg_serial tg))) (\<lambda>sc.
     io_bind (io_lift (get_plugin sc plugin_id)) (\<lambda>p.
     io_bind (io_lift (get_setting p key)) (\<lambda>st.
     screen_write h tg st (dotted_name plugin_id key) (setting_validate st text))))))"

definition screen_unset_setting :: "'w host \<Rightarrow> string \<Rightarrow> string \<Rightarrow> string \<Rightarrow> ('w screen, int) io" where
  "screen_unset_setting h u serial dotted =
     io_bind (quietly (resolve_target h u serial)) (\<lambda>tg.
     io_bind (io_lift (split_setting_key dotted)) (\<lambda>(plugin_id, key).
     io_bind (quietly (run_device_cli h (tg_serial tg) [''unset'', dotted_name plugin_id key]
       DEFAULT_TIMEOUT_SECONDS)) (\<lambda>out.
     io_bind (say (ok_line (''cleared '' @ dotted_name plugin_id key))) (\<lambda>x.
     io_catch
       (io_bind (quietly (forget_setting h (tg_unit_name tg) (dotted_name plugin_id key))) (\<lambda>b. io_ret EXIT_OK))
       (\<lambda>e. if os_error e then not_recorded (tg_unit_name tg) e else io_raise e)))))"

definition screen_get :: "('w, string) io \<Rightarrow> ('w screen, int) io" where
  "screen_get m = io_bind (quietly m) (\<lambda>out. io_bind (say [Stdout out]) (\<lambda>x. io_ret EXIT_OK))"

text \<open>\<open>', '.join(known_actions) or 'none'\<close>, after the error line; ids that are not texts cannot be joined.\<close>

definition screen_run_action :: "'w host \<Rightarrow> string \<Rightarrow> string \<Rightarrow> string \<Rightarrow> string \<Rightarrow> ('w screen, int) io" where
  "screen_run_action h u serial plugin_id act =
     io_bind (quietly (resolve_target h u serial)) (\<lambda>tg.
     io_bind (quietly (fetch_schema h (tg_serial tg))) (\<lambda>sc.
     io_bind (io_lift (get_plugin sc plugin_id)) (\<lambda>p.
     io_bind (io_lift (action_ids p)) (\<lambda>known.
       if JStr act \<notin> set known
       then io_bind (say (error_line (''plugin '' @ json_str (pl_id p) @ '' has no action '' @ py_repr act))) (\<lambda>x.
            if list_all is_text known
            then io_bind (say (dim (''  available: '' @
                     (if join '', '' (map json_str known) = [] then ''none'' else join '', '' (map json_str known)))))
                   (\<lambda>y. io_ret EXIT_FAILURE)
            else io_raise (TypeError ''sequence item: expected str instance''))
       else io_bind (quietly (run_device_cli h (tg_serial tg) [''action'', plugin_id, act] ACTION_TIMEOUT_SECONDS))
         (\<lambda>out. io_bind (say (info (rstrip out))) (\<lambda>x. io_ret EXIT_OK))))))"

section \<open>Deployment\<close>

definition screen_deploy_unit :: "'w host \<Rightarrow> string \<Rightarrow> bool \<Rightarrow> ('w screen, int) io" where
  "screen_deploy_unit h u dry_run =
     io_bind (quietly (load_unit h u)) (\<lambda>x.
     io_bind (quietly (resolve_serial h (un_serial x))) (\<lambda>serial.
     if dry_run
     then io_bind (say (heading (''would push to '' @ DEVICE_CONFIG_PATH @ '':'') @ info (to_device_config x)))
       (\<lambda>y. io_ret EXIT_OK)
     else io_bind (quietly (run_as_root h serial (deploy_script x) ROOT_TIMEOUT_SECONDS)) (\<lambda>out.
       io_bind (say (ok_line (''deployed '' @ show_nat (length (un_settings x)) @ '' setting(s) to '' @ un_name x) @
           dim ''  a live `set` override still wins; use `unset` to fall back to this file''))
         (\<lambda>y. io_ret EXIT_OK))))"

text \<open>A change of \<open>pull\<close> with the value the file had before it.\<close>

fun pulled_rows :: "(string, string) dict \<Rightarrow> (string \<times> string) list \<Rightarrow> cell list list" where
  "pulled_rows before [] = []"
| "pulled_rows before ((key, v) # rest) =
     [Markup key,
      Styled (styled ''dim'' (case dict_get key before of Some b \<Rightarrow> if b = [] then ''-'' else b | None \<Rightarrow> ''-'')),
      Styled (styled ''green'' v)] # pulled_rows (dict_set key v before) rest"

definition screen_pull_unit :: "'w host \<Rightarrow> string \<Rightarrow> ('w screen, int) io" where
  "screen_pull_unit h u =
     io_bind (quietly (load_unit h u)) (\<lambda>x.
     io_bind (quietly (resolve_serial h (un_serial x))) (\<lambda>serial.
     io_bind (quietly (fetch_schema h serial)) (\<lambda>sc.
     io_bind (io_lift (pull_settings (declared_settings sc) ([], x))) (\<lambda>(changes, y).
       if changes = []
       then io_bind (say (dim ''no drift; unit file already matches the device'')) (\<lambda>z. io_ret EXIT_OK)
       else io_bind (quietly (save_unit h y)) (\<lambda>z.
         io_bind (say (table (Some (''pulled into '' @ un_name x @ ''.env'')) (headers [''KEY'', ''WAS'', ''NOW''])
             (pulled_rows (un_settings x) changes))) (\<lambda>a. io_ret EXIT_OK))))))"

section \<open>Plugins, modules and inventory\<close>

definition screen_set_plugin_state :: "'w host \<Rightarrow> string \<Rightarrow> string \<Rightarrow> string \<Rightarrow> string \<Rightarrow> ('w screen, int) io" where
  "screen_set_plugin_state h u serial command plugin_id =
     io_bind (quietly (resolve_target h u serial)) (\<lambda>tg.
     (let verb = (if command = ''enable'' then ''enable'' else ''disable'')
      in io_bind (quietly (run_as_root h (tg_serial tg) (''rackphone '' @ verb @ '' '' @ plugin_id)
           ROOT_TIMEOUT_SECONDS)) (\<lambda>out.
         io_bind (say (ok_line (if strip out = [] then plugin_id @ '' '' @ verb @ ''d'' else strip out) @
             dim ''  a disabled plugin also disappears from `config` and `status`'')) (\<lambda>x. io_ret EXIT_OK))))"

definition screen_reboot_unit :: "'w host \<Rightarrow> string \<Rightarrow> string \<Rightarrow> ('w screen, int) io" where
  "screen_reboot_unit h u serial =
     io_bind (quietly (resolve_target h u serial)) (\<lambda>tg.
     io_bind (quietly (run_exec_out h (tg_serial tg) [''reboot''] DEFAULT_TIMEOUT_SECONDS)) (\<lambda>out.
     io_bind (say (ok_line (tg_unit_name tg @ '' rebooting''))) (\<lambda>x. io_ret EXIT_OK)))"

definition BUILD_SCRIPT :: string where "BUILD_SCRIPT = ''scripts/build-modules.sh''"
definition DIST_DIR :: string where "DIST_DIR = ''dist''"

text \<open>The build script's exit code and what it wrote to its error stream.\<close>

definition build_module_zips :: "('w, int \<times> string) io \<Rightarrow> ('w, bool) io" where
  "build_module_zips script = io_bind script (\<lambda>(status, err). io_ret (status = 0))"

definition screen_build :: "('w, int \<times> string) io \<Rightarrow> ('w screen, bool) io" where
  "screen_build script =
     io_bind (say (dim ''building module zips'')) (\<lambda>x.
     io_bind (quietly script) (\<lambda>(status, err).
       if status \<noteq> 0
       then io_bind (say (error_line (if strip err = [] then BUILD_SCRIPT @ '' failed'' else strip err)))
         (\<lambda>y. io_ret (status = 0))
       else io_ret (status = 0)))"

definition last_line :: "string \<Rightarrow> string" where
  "last_line out =
     (case filter (\<lambda>l. l \<noteq> []) (map strip (rev (splitlines out))) of l # ls \<Rightarrow> l | [] \<Rightarrow> [])"

definition screen_install_zip :: "'w host \<Rightarrow> string \<Rightarrow> string \<Rightarrow> string \<Rightarrow> ('w screen, bool) io" where
  "screen_install_zip h serial dir name =
     io_bind (say (dim (''pushing '' @ name))) (\<lambda>a.
     (let remote = REMOTE_DIR @ ''/'' @ name
      in io_bind (quietly (push_file h serial (dir @ ''/'' @ name) remote)) (\<lambda>x.
         io_bind (io_finally
           (io_catch (io_bind (quietly (run_as_root h serial (''magisk --install-module '' @ remote)
                MODULE_INSTALL_TIMEOUT_SECONDS)) (\<lambda>out. io_ret (Some out)))
              (\<lambda>e. if is_adb_error e
                   then io_bind (say (error_line (name @ '': '' @ message_of e))) (\<lambda>b. io_ret None)
                   else io_raise e))
           (io_catch (io_bind (quietly (run_exec_out h serial [''rm'', ''-f'', remote] DEFAULT_TIMEOUT_SECONDS))
                (\<lambda>out. io_ret ()))
              (\<lambda>e. if is_adb_error e
                   then io_bind (say (dim (''  could not remove '' @ remote))) (\<lambda>b. io_ret ())
                   else io_raise e))) (\<lambda>done'.
         io_bind (say (case done' of
             Some out \<Rightarrow> ok_line (''installed '' @ name @ ''  '' @ last_line out) | None \<Rightarrow> []))
           (\<lambda>b. io_ret (done' \<noteq> None))))))"

fun screen_install_each :: "'w host \<Rightarrow> string \<Rightarrow> string \<Rightarrow> string list \<Rightarrow> ('w screen, bool) io" where
  "screen_install_each h serial dir [] = io_ret True"
| "screen_install_each h serial dir (z # zs) =
     io_bind (screen_install_zip h serial dir z) (\<lambda>ok.
     if ok then screen_install_each h serial dir zs else io_ret False)"

definition no_zips_text :: "string list \<Rightarrow> string" where
  "no_zips_text patterns =
     (if patterns \<noteq> []
      then ''no module zip matched ['' @ join '', '' (map py_repr patterns) @ '']''
      else ''no module zips in '' @ DIST_DIR @ ''/; run '' @ BUILD_SCRIPT)"

definition screen_install_modules :: "'w host \<Rightarrow> ('w, int \<times> string) io \<Rightarrow> ('w, string list) io \<Rightarrow> string
     \<Rightarrow> string \<Rightarrow> string \<Rightarrow> string list \<Rightarrow> bool \<Rightarrow> bool \<Rightarrow> ('w screen, int) io" where
  "screen_install_modules h script zips dir u serial patterns no_build reboot =
     io_bind (quietly (resolve_target h u serial)) (\<lambda>tg.
     io_bind (if no_build then io_ret True else screen_build script) (\<lambda>built.
     if \<not> built then io_ret EXIT_FAILURE
     else io_bind (quietly zips) (\<lambda>found.
       if select_module_zips found patterns = []
       then io_bind (say (error_line (no_zips_text patterns))) (\<lambda>x. io_ret EXIT_FAILURE)
       else io_bind (say (warn (''Magisk shows a grant prompt on the phone the first time this asks for '' @
              ''root. Watch the screen and tap Grant.''))) (\<lambda>x.
         io_bind (screen_install_each h (tg_serial tg) dir (select_module_zips found patterns)) (\<lambda>ok.
         if \<not> ok then io_ret EXIT_FAILURE
         else io_bind (say ([PrintLine] @ warn ''modules take effect after a reboot'')) (\<lambda>y.
           if reboot
           then io_bind (say (dim ''rebooting'')) (\<lambda>z.
                io_bind (quietly (run_exec_out h (tg_serial tg) [''reboot''] DEFAULT_TIMEOUT_SECONDS))
                  (\<lambda>out. io_ret EXIT_OK))
           else io_bind (say (dim ''  reboot with: rackphone reboot   (or pass --reboot)''))
                  (\<lambda>z. io_ret EXIT_OK)))))))"

definition screen_adopt_unit :: "'w host \<Rightarrow> string \<Rightarrow> string \<Rightarrow> string option \<Rightarrow> string \<Rightarrow> ('w screen, int) io" where
  "screen_adopt_unit h dir name serial label =
     io_bind (quietly (resolve_serial h serial)) (\<lambda>s.
     io_bind (quietly (create_unit h name s label)) (\<lambda>u.
     io_bind (say (ok_line (''adopted '' @ s @ '' as unit '' @ name) @
         dim (''  wrote '' @ dir @ ''/'' @ name @ ''.env''))) (\<lambda>x. io_ret EXIT_OK)))"

definition screen_run_doctor :: "'w host \<Rightarrow> string \<Rightarrow> string \<Rightarrow> ('w screen, int) io" where
  "screen_run_doctor h u serial =
     io_bind (quietly (resolve_target h u serial)) (\<lambda>tg.
     io_bind (say (heading (''unit '' @ tg_unit_name tg @ '' ('' @ tg_serial tg @ '')''))) (\<lambda>x.
     io_bind (quietly (run_device_cli h (tg_serial tg) [''doctor''] STATUS_TIMEOUT_SECONDS)) (\<lambda>out.
     io_bind (say (info (rstrip out))) (\<lambda>y. io_ret EXIT_OK))))"

section \<open>A single drain\<close>

definition screen_drain_once :: "'w host \<Rightarrow> gateway_config \<Rightarrow> int \<Rightarrow> ('w gateway screen, int) io" where
  "screen_drain_once h c now =
     io_bind (quietly (run_once h c now)) (\<lambda>stored.
     io_bind (quietly (io_read gw_stats)) (\<lambda>stats.
     io_bind (say (ok_line (''drained '' @ show_nat (gs_drained stats) @ '' event(s), '' @ show_nat stored @ '' new'')))
       (\<lambda>x. io_ret (if gs_errors stats \<noteq> 0 then EXIT_FAILURE else EXIT_OK))))"

definition screen_gateway_once :: "'w host \<Rightarrow> (string \<Rightarrow> string option) \<Rightarrow> environ \<Rightarrow> (string \<times> json) list option
     \<Rightarrow> string \<Rightarrow> int \<Rightarrow> int \<Rightarrow> ('w gateway screen, int) io" where
  "screen_gateway_once h bad env file host port now =
     io_bind (load_command_config bad env file) (\<lambda>found. case found of
         None \<Rightarrow> io_ret EXIT_FAILURE
       | Some c0 \<Rightarrow>
           (let c = bound_config host port c0
            in io_bind (say (if gc_filters c = [] then []
                 else dim (''  '' @ show_nat (length (gc_filters c)) @ '' filter rule(s) applied to the stream'')))
                 (\<lambda>x. screen_drain_once h c now)))"

definition log_alert :: "string \<Rightarrow> string \<Rightarrow> printed list" where
  "log_alert reason message = warn (''security alert ('' @ reason @ ''): '' @ message)"

section \<open>Starting the metrics bridge\<close>

text \<open>What \<open>serve_metrics\<close> does before its server loop: it resolves the units once and lists them.\<close>

definition serving_lines :: "string \<Rightarrow> int \<Rightarrow> unit_file list \<Rightarrow> printed list" where
  "serving_lines host port us =
     (let url = ''http://'' @ host @ '':'' @ show_int port @ ''/metrics''
      in if us \<noteq> []
         then ok_line (''serving '' @ show_nat (length us) @ '' unit(s) on '' @ url) @
           concat (map (\<lambda>u. dim (''  '' @ un_name u @ ''  serial='' @
             (case un_serial u of Some (c # s) \<Rightarrow> c # s | _ \<Rightarrow> ''auto''))) us)
         else warn ''no units configured yet; run `rackphone adopt <name>`'' @ ok_line (''serving on '' @ url))"

definition serve_start :: "'w host \<Rightarrow> string \<Rightarrow> int \<Rightarrow> string list \<Rightarrow> ('w screen, unit) io" where
  "serve_start h host port names =
     io_bind (quietly (resolve_units h names)) (\<lambda>us. say (serving_lines host port us))"

section \<open>Printing changes nothing\<close>

lemma displays_not_recorded [showing]: "displays (not_recorded u e) (io_ret EXIT_FAILURE)"
  unfolding not_recorded_def by (rule say_then)

lemmas screen_rules = displays_say displays_bind displays_catch displays_finally displays_quietly
  displays_ret displays_raise displays_lift displays_if displays_prod displays_sum displays_not_recorded

lemma set_displays: "displays (screen_set_setting h u serial dotted text) (cmd_set_setting h u serial dotted text)"
  unfolding screen_set_setting_def cmd_set_setting_def screen_write_def write_validated_def or_not_recorded_def
  by (rule screen_rules)+

lemma unset_displays: "displays (screen_unset_setting h u serial dotted) (cmd_unset_setting h u serial dotted)"
  unfolding screen_unset_setting_def cmd_unset_setting_def or_not_recorded_def
  by (rule screen_rules)+

lemma action_displays: "displays (screen_run_action h u serial p act) (cmd_run_action h u serial p act)"
  unfolding screen_run_action_def cmd_run_action_def
  by (rule screen_rules)+

lemma deploy_displays: "displays (screen_deploy_unit h u dry) (cmd_deploy_unit h u dry)"
  unfolding screen_deploy_unit_def cmd_deploy_unit_def
  by (rule screen_rules)+

lemma pull_displays: "displays (screen_pull_unit h u) (cmd_pull_unit h u)"
  unfolding screen_pull_unit_def cmd_pull_unit_def
  by (rule screen_rules)+

lemma plugin_state_displays:
  "displays (screen_set_plugin_state h u serial command p) (cmd_set_plugin_state h u serial command p)"
  unfolding screen_set_plugin_state_def cmd_set_plugin_state_def Let_def
  by (rule screen_rules)+

lemma reboot_displays: "displays (screen_reboot_unit h u serial) (cmd_reboot_unit h u serial)"
  unfolding screen_reboot_unit_def cmd_reboot_unit_def
  by (rule screen_rules)+

lemma adopt_displays: "displays (screen_adopt_unit h dir name serial label) (cmd_adopt_unit h name serial label)"
  unfolding screen_adopt_unit_def cmd_adopt_unit_def
  by (rule screen_rules)+

text \<open>Installing one zip: the outcome carries the installer's output until the line is printed.\<close>

lemma install_zip_outcome:
  "install_module_zip h serial dir name =
     (let remote = REMOTE_DIR @ ''/'' @ name
      in io_bind (push_file h serial (dir @ ''/'' @ name) remote) (\<lambda>x.
         io_bind (io_finally
           (io_catch (io_bind (run_as_root h serial (''magisk --install-module '' @ remote)
                MODULE_INSTALL_TIMEOUT_SECONDS) (\<lambda>out. io_ret (Some out)))
              (\<lambda>e. if is_adb_error e then io_ret None else io_raise e))
           (io_catch (io_bind (run_exec_out h serial [''rm'', ''-f'', remote] DEFAULT_TIMEOUT_SECONDS)
                (\<lambda>out. io_ret ()))
              (\<lambda>e. if is_adb_error e then io_ret () else io_raise e))) (\<lambda>done'. io_ret (done' \<noteq> None))))"
  unfolding install_module_zip_def Let_def
  by (rule arg_cong [where f = "io_bind _"])
     (auto simp: fun_eq_iff io_bind_def io_finally_def io_catch_def split: prod.split sum.split)

lemma install_zip_displays: "displays (screen_install_zip h serial dir name) (install_module_zip h serial dir name)"
  unfolding screen_install_zip_def install_zip_outcome Let_def
  by (rule screen_rules)+

lemma install_each_displays: "displays (screen_install_each h serial dir zs) (install_each h serial dir zs)"
proof (induction zs)
  case (Cons z zs)
  show ?case
    unfolding screen_install_each.simps install_each.simps
    by (rule screen_rules install_zip_displays Cons.IH)+
qed (simp only: screen_install_each.simps install_each.simps displays_ret)

lemma build_displays: "displays (screen_build script) (build_module_zips script)"
proof -
  have same: "build_module_zips script = io_bind script (\<lambda>(status, err).
      if status \<noteq> 0 then io_ret (status = 0) else io_ret (status = 0))"
    by (simp add: build_module_zips_def)
  show ?thesis unfolding screen_build_def same by (rule screen_rules)+
qed

lemma install_displays:
  "displays (screen_install_modules h script zips dir u serial patterns no_build reboot)
     (cmd_install_modules h (build_module_zips script) zips dir u serial patterns no_build reboot)"
  unfolding screen_install_modules_def cmd_install_modules_def
  by (rule screen_rules build_displays install_each_displays)+

lemma drain_displays: "displays (screen_drain_once h c now) (drain_once h c now)"
proof -
  have same: "drain_once h c now = io_bind (run_once h c now) (\<lambda>stored. io_bind (io_read gw_stats)
      (\<lambda>stats. io_ret (if gs_errors stats \<noteq> 0 then EXIT_FAILURE else EXIT_OK)))"
    by (auto simp: drain_once_def io_bind_def io_read_def fun_eq_iff split: prod.split sum.split)
  show ?thesis unfolding screen_drain_once_def same by (rule screen_rules)+
qed

end
