(* ===== verification/Program.thy ===== *)
theory Program
  imports CommandLine Screens
begin

text \<open>
  The program from its command line to its exit code: \<open>main\<close> of \<open>cli/main.py\<close> parses the words and
  hands the arguments to one of the commands. The two commands that start a server, \<open>serve\<close> and
  \<open>gateway\<close>, do not return and are left to the theories of the components they run.
\<close>

section \<open>The repository\<close>

text \<open>
  What \<open>find_repo_root\<close> asks of the file system: \<open>RACKPHONE_REPO\<close>, how a path resolves, the
  directories above the source file from the nearest on, which paths are directories, and the
  current directory.
\<close>

record repo_place =
  rp_override :: "string option"
  rp_resolve :: "string \<Rightarrow> string"
  rp_parents :: "string list"
  rp_is_dir :: "string \<Rightarrow> bool"
  rp_cwd :: string

definition find_repo_root :: "repo_place \<Rightarrow> string" where
  "find_repo_root p =
     (case rp_override p of
        Some (c # s) \<Rightarrow> rp_resolve p (c # s)
      | _ \<Rightarrow>
          (case List.find (\<lambda>d. rp_is_dir p (d @ ''/units'') \<and> rp_is_dir p (d @ ''/modules'')) (rp_parents p) of
             Some d \<Rightarrow> d
           | None \<Rightarrow> rp_cwd p))"

definition get_units_dir :: "repo_place \<Rightarrow> string" where
  "get_units_dir p = find_repo_root p @ ''/units''"

section \<open>Dispatch\<close>

text \<open>
  What the commands run on: the host, the module build script, the zips it leaves, the repository,
  and what the gateway's configuration is read from.
\<close>

record 'w cli_env =
  ce_host :: "'w host"
  ce_build :: "('w, int \<times> string) io"
  ce_zips :: "('w, string list) io"
  ce_place :: repo_place
  ce_bad_pattern :: "string \<Rightarrow> string option"
  ce_environ :: environ
  ce_config_file :: "(string \<times> json) list option"

definition given :: "string option \<Rightarrow> string" where
  "given v = (case v of Some s \<Rightarrow> s | None \<Rightarrow> [])"

definition dist_dir :: "'w cli_env \<Rightarrow> string" where
  "dist_dir e = find_repo_root (ce_place e) @ ''/'' @ DIST_DIR"

definition toggle_verb :: "bool \<Rightarrow> string" where
  "toggle_verb on = (if on then ''enable'' else ''disable'')"

fun perform :: "'w cli_env \<Rightarrow> invocation \<Rightarrow> ('w screen, int) io option" where
  "perform e Devices = Some (cmd_list_devices (ce_host e))"
| "perform e Units = Some (cmd_list_units (ce_host e))"
| "perform e (Adopt name serial label) =
     Some (screen_adopt_unit (ce_host e) (get_units_dir (ce_place e)) name serial label)"
| "perform e (Config (u, s) plugin) = Some (cmd_show_config (ce_host e) (given u) (given s) plugin)"
| "perform e (Get (u, s) key) = Some (screen_get (cmd_get_setting (ce_host e) (given u) (given s) key))"
| "perform e (Origin (u, s) key) = Some (screen_get (cmd_show_origin (ce_host e) (given u) (given s) key))"
| "perform e (Set_value (u, s) key v) = Some (screen_set_setting (ce_host e) (given u) (given s) key v)"
| "perform e (Unset (u, s) key) = Some (screen_unset_setting (ce_host e) (given u) (given s) key)"
| "perform e (Action (u, s) plugin act) = Some (screen_run_action (ce_host e) (given u) (given s) plugin act)"
| "perform e (Plugins (u, s)) = Some (cmd_list_plugins (ce_host e) (given u) (given s))"
| "perform e (Plugin_state (u, s) on plugin) =
     Some (screen_set_plugin_state (ce_host e) (given u) (given s) (toggle_verb on) plugin)"
| "perform e (Deploy u dry) = Some (screen_deploy_unit (ce_host e) u dry)"
| "perform e (Pull u) = Some (screen_pull_unit (ce_host e) u)"
| "perform e (Install (u, s) ms no_build reboot) =
     Some (screen_install_modules (ce_host e) (ce_build e) (ce_zips e) (dist_dir e) (given u) (given s) ms no_build reboot)"
| "perform e (Reboot (u, s)) = Some (screen_reboot_unit (ce_host e) (given u) (given s))"
| "perform e (Status (u, s)) = Some (cmd_show_status (ce_host e) (given u) (given s))"
| "perform e (Metrics (u, s)) = Some (screen_get (cmd_print_metrics (ce_host e) (given u) (given s)))"
| "perform e (Doctor (u, s)) = Some (screen_run_doctor (ce_host e) (given u) (given s))"
| "perform e (Serve host port us) = None"
| "perform e (Gateway host port once) = None"
| "perform e Gwconfig = Some (cmd_show_gateway_config (ce_bad_pattern e) (ce_environ e) (ce_config_file e))"

text \<open>\<open>main(argv)\<close>: an unusable command line ends the program with the parser's exit code.\<close>

definition program :: "'w cli_env \<Rightarrow> string list \<Rightarrow> ('w screen, int) io option" where
  "program e argv =
     (case read_command_line argv of
        Inl status \<Rightarrow> Some (io_ret status)
      | Inr i \<Rightarrow> map_option main_screen (perform e i))"

text \<open>What the commands that change something do, without what they print.\<close>

fun effect :: "'w cli_env \<Rightarrow> invocation \<Rightarrow> ('w, int) io option" where
  "effect e (Adopt name serial label) = Some (cmd_adopt_unit (ce_host e) name serial label)"
| "effect e (Set_value (u, s) key v) = Some (cmd_set_setting (ce_host e) (given u) (given s) key v)"
| "effect e (Unset (u, s) key) = Some (cmd_unset_setting (ce_host e) (given u) (given s) key)"
| "effect e (Action (u, s) plugin act) = Some (cmd_run_action (ce_host e) (given u) (given s) plugin act)"
| "effect e (Plugin_state (u, s) on plugin) =
     Some (cmd_set_plugin_state (ce_host e) (given u) (given s) (toggle_verb on) plugin)"
| "effect e (Deploy u dry) = Some (cmd_deploy_unit (ce_host e) u dry)"
| "effect e (Pull u) = Some (cmd_pull_unit (ce_host e) u)"
| "effect e (Install (u, s) ms no_build reboot) =
     Some (cmd_install_modules (ce_host e) (build_module_zips (ce_build e)) (ce_zips e) (dist_dir e)
       (given u) (given s) ms no_build reboot)"
| "effect e (Reboot (u, s)) = Some (cmd_reboot_unit (ce_host e) (given u) (given s))"
| "effect e i = None"

fun_cases effect_SomeE: "effect e i = Some m"

section \<open>Lemmas\<close>

lemma main_displays: "displays sm m \<Longrightarrow> displays (main_screen sm) (main_exit m)"
  unfolding main_screen_def main_exit_def by (rule screen_rules | assumption)+

lemmas commands_display = set_displays unset_displays action_displays deploy_displays pull_displays
  plugin_state_displays reboot_displays adopt_displays install_displays

lemma perform_displays: "effect e i = Some m \<Longrightarrow> \<exists>sm. perform e i = Some sm \<and> displays sm m"
  by (erule effect_SomeE) (auto intro: commands_display)

text \<open>The parser ends the program with 0, for the help text, or with 2.\<close>

definition usage_exit :: "int + 'a \<Rightarrow> bool" where
  "usage_exit r \<longleftrightarrow> (case r of Inl c \<Rightarrow> c = 0 \<or> c = 2 | Inr x \<Rightarrow> True)"

lemma usage_exit_simps [simp]: "usage_exit (Inr x)" "usage_exit (Inl 0)" "usage_exit (Inl 2)"
  by (simp_all add: usage_exit_def)

lemma usage_exit_map [simp]: "usage_exit (map_sum id f r) = usage_exit r"
  by (cases r) (simp_all add: usage_exit_def)

lemma take_usage: "usage_exit (take_value o' v ns)" "usage_exit (take_flag o' ns)"
  by (simp_all add: take_value_def take_flag_def split: arg_action.split option.split)

lemma consume_usage: "usage_exit (consume_optional os ms ts ns)"
  by (simp add: consume_optional_def take_usage split: list.split prod.split option.split)

lemma consume_usage_Inl: "consume_optional os ms ts ns = Inl c \<Longrightarrow> c = 0 \<or> c = 2"
  using consume_usage [of os ms ts ns] by (simp add: usage_exit_def)

lemma parse_loop_usage: "usage_exit (parse_loop p qs ts ns ex)"
proof (induction p qs ts ns ex rule: parse_loop.induct)
  case (1 p qs ts ns ex)
  obtain qs' ts' ns' where pos: "consume_positionals qs ts ns = (qs', ts', ns')" by (metis prod_cases3)
  show ?case
  proof (cases "list_ex is_option ts")
    case False
    then show ?thesis by (simp add: loop_arguments pos)
  next
    case True
    then obtain w r' rest where ts: "ts = (w, r') # rest" by (cases ts) auto
    show ?thesis
    proof (cases r')
      case UnknownOption
      then show ?thesis
        using "1.IH"(6) [of "(w, r')" rest w r'] True
        by (simp add: ts parse_loop.simps [of p qs "_ # rest"] is_option_def)
    next
      case (Opt ms)
      show ?thesis
      proof (cases "consume_optional (ap_options p) ms rest ns")
        case (Inl c)
        then show ?thesis
          using consume_usage_Inl [OF Inl] by (simp add: ts Opt loop_option usage_exit_def)
      next
        case (Inr x)
        obtain ts2 ns2 where x: "x = (ts2, ns2)" by (cases x)
        then show ?thesis
          using "1.IH"(5) [of "(w, r')" rest w r' ms "(ts2, ns2)" ts2 ns2] True Inr
          by (simp add: ts Opt is_option_def loop_option)
      qed
    next
      case Argument
      then show ?thesis
        using "1.IH"(1) [of "(w, r')" rest w r' qs' "(ts', ns')" ts' ns']
          "1.IH"(2) [of "(w, r')" rest w r' qs' "(ts', ns')" ts' ns'] True pos
        by (simp add: ts parse_loop.simps [of p qs "_ # rest"] is_option_def)
    next
      case Separator
      then show ?thesis
        using "1.IH"(3) [of "(w, r')" rest w r' qs' "(ts', ns')" ts' ns']
          "1.IH"(4) [of "(w, r')" rest w r' qs' "(ts', ns')" ts' ns'] True pos
        by (simp add: ts parse_loop.simps [of p qs "_ # rest"] is_option_def)
    qed
  qed
qed

lemma parse_known_usage_Inl: "parse_known_args p ws = Inl c \<Longrightarrow> c = 0 \<or> c = 2"
  using parse_loop_usage [of p "ap_positionals p" "read_words (ap_options p) ws" "defaults p" "[]"]
  by (simp add: parse_known_args_def usage_exit_def)

lemma parse_subcommand_usage: "usage_exit (parse_subcommand os subs ts ns ex)"
proof (induction os subs ts ns ex rule: parse_subcommand.induct)
  case (1 os subs ts ns ex)
  show ?case
  proof (cases "dropWhile is_separator ts")
    case Nil
    show ?thesis
      by (simp only: parse_subcommand.simps [of os subs ts] Nil list.case usage_exit_simps)
  next
    case (Cons t rest)
    obtain w r' where t: "t = (w, r')" by (cases t)
    note step = parse_subcommand.simps [of os subs ts] Cons t
    have sub: "usage_exit (parse_subcommand os subs ts ns ex)" if "r' = Argument \<or> r' = Separator"
      using that
      by (auto simp: step usage_exit_def split: option.splits sum.splits prod.splits if_splits
          dest: parse_known_usage_Inl)
    show ?thesis
    proof (cases r')
      case UnknownOption
      then show ?thesis using "1.IH"(2) [OF Cons t [symmetric]] by (simp add: step)
    next
      case (Opt ms)
      show ?thesis
      proof (cases "consume_optional os ms rest ns")
        case (Inl c)
        then show ?thesis using consume_usage_Inl [OF Inl] by (simp add: step Opt usage_exit_def)
      next
        case (Inr x)
        obtain ts2 ns2 where x: "x = (ts2, ns2)" by (cases x)
        show ?thesis
          using "1.IH"(1) [OF Cons t [symmetric] Opt Inr x [symmetric]] by (simp add: step Opt Inr x)
      qed
    qed (use sub in auto)
  qed
qed

definition sample_cli :: "'w host \<Rightarrow> 'w cli_env" where
  "sample_cli h = \<lparr>ce_host = h, ce_build = io_ret (0, []), ce_zips = io_ret [],
     ce_place = \<lparr>rp_override = Some ''/srv'', rp_resolve = id, rp_parents = [], rp_is_dir = (\<lambda>d. False), rp_cwd = []\<rparr>,
     ce_bad_pattern = (\<lambda>p. None), ce_environ = sample_env, ce_config_file = None\<rparr>"

section \<open>Properties\<close>





end
