(* ===== verification/Regex.thy ===== *)
theory Regex
  imports PyStr
begin

text \<open>
  Python's \<open>re\<close> for the patterns of the skill scripts: a backtracking matcher that returns the ways a
  pattern can match in the order of preference, so that the first one is what \<open>re\<close> takes. The
  scripts work on characters; the theory follows them on texts in ASCII.
\<close>

section \<open>Patterns\<close>

datatype regex =
    Eps
  | Class "char \<Rightarrow> bool"
  | Cat regex regex
  | Alt regex regex
  | Rep nat "nat option" bool regex
  | Bound
  | AtStart
  | AtLine
  | AtEnd
  | Not_ahead regex

text \<open>A place in a text: the character before it, and the rest.\<close>

type_synonym place = "char option \<times> string"

definition word_char :: "char \<Rightarrow> bool" where
  "word_char c \<longleftrightarrow> is_alpha c \<or> is_digit c \<or> c = CHR ''_''"

definition at_bound :: "place \<Rightarrow> bool" where
  "at_bound p \<longleftrightarrow>
     (case fst p of Some c \<Rightarrow> word_char c | None \<Rightarrow> False) \<noteq> (snd p \<noteq> [] \<and> word_char (hd (snd p)))"

definition at_end :: "place \<Rightarrow> bool" where
  "at_end p \<longleftrightarrow> snd p = [] \<or> snd p = [chr_nl]"

text \<open>\<open>^\<close> under \<open>re.MULTILINE\<close>.\<close>

definition at_line :: "place \<Rightarrow> bool" where
  "at_line p \<longleftrightarrow> fst p = None \<or> fst p = Some chr_nl"

text \<open>
  Repetition: as many rounds as the lower bound asks for, then further ones as long as they consume
  something, the longer continuation first when greedy. The fuel is enough for every round.
\<close>

definition below :: "nat \<Rightarrow> nat option \<Rightarrow> bool" where
  "below k m = (case m of Some n \<Rightarrow> k < n | None \<Rightarrow> True)"

fun iterate :: "(place \<Rightarrow> place list) \<Rightarrow> nat \<Rightarrow> nat option \<Rightarrow> bool \<Rightarrow> nat \<Rightarrow> nat \<Rightarrow> place \<Rightarrow> place list" where
  "iterate f lo hi greedy k 0 p = (if lo \<le> k then [p] else [])"
| "iterate f lo hi greedy k (Suc n) p =
     (let further = (if below k hi
            then concat (map (\<lambda>q. if k < lo \<or> length (snd q) < length (snd p)
                then iterate f lo hi greedy (Suc k) n q else []) (f p))
            else [])
      in if k < lo then further else if greedy then further @ [p] else p # further)"

primrec ends :: "regex \<Rightarrow> place \<Rightarrow> place list" where
  "ends Eps p = [p]"
| "ends (Class P) p = (case snd p of c # s \<Rightarrow> if P c then [(Some c, s)] else [] | [] \<Rightarrow> [])"
| "ends (Cat a b) p = concat (map (ends b) (ends a p))"
| "ends (Alt a b) p = ends a p @ ends b p"
| "ends (Rep lo hi greedy a) p = iterate (ends a) lo hi greedy 0 (lo + length (snd p)) p"
| "ends Bound p = (if at_bound p then [p] else [])"
| "ends AtStart p = (if fst p = None then [p] else [])"
| "ends AtLine p = (if at_line p then [p] else [])"
| "ends AtEnd p = (if at_end p then [p] else [])"
| "ends (Not_ahead a) p = (if ends a p = [] then [p] else [])"

section \<open>Searching\<close>

definition match_at :: "regex \<Rightarrow> place \<Rightarrow> place option" where
  "match_at r p = (case ends r p of q # qs \<Rightarrow> Some q | [] \<Rightarrow> None)"

text \<open>What a match took, from the rests before and after it.\<close>

definition taken :: "string \<Rightarrow> string \<Rightarrow> string" where
  "taken s rest = take (length s - length rest) s"

text \<open>The leftmost match: the text before it, the matched text and the place behind it.\<close>

fun search_from :: "regex \<Rightarrow> char option \<Rightarrow> string \<Rightarrow> (string \<times> string \<times> place) option" where
  "search_from r prev s =
     (case match_at r (prev, s) of
        Some q \<Rightarrow> Some ([], taken s (snd q), q)
      | None \<Rightarrow>
          (case s of
             [] \<Rightarrow> None
           | c # s' \<Rightarrow> map_option (\<lambda>(before, m, q). (c # before, m, q)) (search_from r (Some c) s')))"

definition search :: "regex \<Rightarrow> string \<Rightarrow> (string \<times> string \<times> place) option" where
  "search r s = search_from r None s"

definition found :: "regex \<Rightarrow> string \<Rightarrow> bool" where
  "found r s \<longleftrightarrow> search r s \<noteq> None"

definition match_prefix :: "regex \<Rightarrow> string \<Rightarrow> bool" where
  "match_prefix r s \<longleftrightarrow> match_at r (None, s) \<noteq> None"

text \<open>
  All matches from left to right, each with the text between the previous match and itself, and the
  text after the last. An empty match is followed by the next character.
\<close>

fun matches_from :: "nat \<Rightarrow> regex \<Rightarrow> place \<Rightarrow> (string \<times> string) list \<times> string" where
  "matches_from 0 r p = ([], snd p)"
| "matches_from (Suc n) r p =
     (case search_from r (fst p) (snd p) of
        None \<Rightarrow> ([], snd p)
      | Some (before, m, q) \<Rightarrow>
          if m \<noteq> []
          then ((before, m) # fst (matches_from n r q), snd (matches_from n r q))
          else (case snd q of
              [] \<Rightarrow> ([(before, m)], [])
            | c # s \<Rightarrow>
                (let rest = matches_from n r (Some c, s)
                 in case fst rest of
                      [] \<Rightarrow> ([(before, m)], c # snd rest)
                    | (b, m') # ms \<Rightarrow> ((before, m) # (c # b, m') # ms, snd rest))))"

definition findall :: "regex \<Rightarrow> string \<Rightarrow> string list" where
  "findall r s = map snd (fst (matches_from (Suc (length s)) r (None, s)))"

text \<open>\<open>re.sub\<close> with a function of the matched text.\<close>

definition sub_with :: "regex \<Rightarrow> (string \<Rightarrow> string) \<Rightarrow> string \<Rightarrow> string" where
  "sub_with r f s =
     (case matches_from (Suc (length s)) r (None, s) of
        (ms, rest) \<Rightarrow> concat (map (\<lambda>(before, m). before @ f m) ms) @ rest)"

section \<open>Building patterns\<close>

definition chr_ci :: "char \<Rightarrow> regex" where
  "chr_ci c = Class (\<lambda>d. lower_char d = lower_char c)"

fun lit_ci :: "string \<Rightarrow> regex" where
  "lit_ci [] = Eps"
| "lit_ci (c # s) = Cat (chr_ci c) (lit_ci s)"

fun lit :: "string \<Rightarrow> regex" where
  "lit [] = Eps"
| "lit (c # s) = Cat (Class (\<lambda>d. d = c)) (lit s)"

fun alts :: "regex list \<Rightarrow> regex" where
  "alts [] = Class (\<lambda>c. False)"
| "alts [r] = r"
| "alts (r # rs) = Alt r (alts rs)"

fun cats :: "regex list \<Rightarrow> regex" where
  "cats [] = Eps"
| "cats [r] = r"
| "cats (r # rs) = Cat r (cats rs)"

definition spaces :: regex where "spaces = Rep 0 None True (Class is_space)"
definition spaces1 :: regex where "spaces1 = Rep 1 None True (Class is_space)"
definition maybe :: "regex \<Rightarrow> regex" where "maybe r = Rep 0 (Some 1) True r"
definition any_char :: regex where "any_char = Class (\<lambda>c. c \<noteq> chr_nl)"
definition words_ci :: "string list \<Rightarrow> regex" where "words_ci ws = alts (map lit_ci ws)"

section \<open>The matcher and the patterns' meaning\<close>

text \<open>Which places a pattern leads to, without any order: a repetition is some number of rounds.\<close>

primrec leads :: "regex \<Rightarrow> place \<Rightarrow> place \<Rightarrow> bool" where
  "leads Eps = (\<lambda>p q. q = p)"
| "leads (Class P) = (\<lambda>p q. \<exists>c s. snd p = c # s \<and> P c \<and> q = (Some c, s))"
| "leads (Cat a b) = leads a OO leads b"
| "leads (Alt a b) = (\<lambda>p q. leads a p q \<or> leads b p q)"
| "leads (Rep lo hi greedy a) = (\<lambda>p q. \<exists>k. lo \<le> k \<and> (k = 0 \<or> below (k - 1) hi) \<and> (leads a ^^ k) p q)"
| "leads Bound = (\<lambda>p q. q = p \<and> at_bound p)"
| "leads AtStart = (\<lambda>p q. q = p \<and> fst p = None)"
| "leads AtLine = (\<lambda>p q. q = p \<and> at_line p)"
| "leads AtEnd = (\<lambda>p q. q = p \<and> at_end p)"
| "leads (Not_ahead a) = (\<lambda>p q. q = p \<and> (\<forall>z. \<not> leads a p z))"

text \<open>A match consumes a part of the text in front of it, and stays in place when that is empty.\<close>

definition advances :: "place \<Rightarrow> place \<Rightarrow> bool" where
  "advances p q \<longleftrightarrow> (\<exists>w. snd p = w @ snd q \<and> (w = [] \<longrightarrow> q = p))"

lemma advances_refl [simp]: "advances p p" by (simp add: advances_def)

lemma advances_trans: "advances p q \<Longrightarrow> advances q r \<Longrightarrow> advances p r"
  by (auto simp: advances_def)

lemma advances_length: "advances p q \<Longrightarrow> length (snd q) \<le> length (snd p) \<and> (length (snd q) = length (snd p) \<longrightarrow> q = p)"
  by (auto simp: advances_def)

lemma power_advances: "(\<And>p q. R p q \<Longrightarrow> advances p q) \<Longrightarrow> (R ^^ k) p q \<Longrightarrow> advances p q"
proof (induction k arbitrary: q)
  case (Suc k)
  from Suc.prems(2) obtain z where "(R ^^ k) p z" "R z q" by (simp add: relcompp_apply) blast
  then show ?case using Suc.IH Suc.prems(1) by (blast intro: advances_trans)
qed simp

lemma leads_advances: "leads r p q \<Longrightarrow> advances p q"
proof (induction r arbitrary: p q)
  case (Rep lo hi greedy a)
  then show ?case by (auto intro: power_advances [of "leads a"])
next
  case (Cat a b)
  from Cat.prems obtain z where "leads a p z" "leads b z q" by (simp add: relcompp_apply) blast
  then show ?case using Cat.IH by (blast intro: advances_trans)
qed (auto simp: advances_def)

lemma iterate_sound:
  assumes "\<And>p q. q \<in> set (f p) \<Longrightarrow> R p q"
  shows "q \<in> set (iterate f lo hi greedy k n p) \<Longrightarrow>
    \<exists>j. lo \<le> k + j \<and> (j = 0 \<or> below (k + j - 1) hi) \<and> (R ^^ j) p q"
proof (induction n arbitrary: k p)
  case 0
  then show ?case by (auto split: if_splits intro!: exI [of _ 0])
next
  case (Suc n)
  show ?case
  proof (cases "lo \<le> k \<and> q = p")
    case True
    then show ?thesis by (auto intro!: exI [of _ 0])
  next
    case False
    then obtain z where z: "z \<in> set (f p)" "below k hi" "q \<in> set (iterate f lo hi greedy (Suc k) n z)"
      using Suc.prems by (auto simp: Let_def split: if_splits)
    obtain j where j: "lo \<le> Suc k + j" "j = 0 \<or> below (Suc k + j - 1) hi" "(R ^^ j) z q"
      using Suc.IH [OF z(3)] by blast
    have "(R ^^ Suc j) p q" using assms [OF z(1)] j(3) by (auto simp: relpowp_Suc_left simp del: relpowp.simps)
    then show ?thesis using j z(2) by (intro exI [of _ "Suc j"]) (auto simp: below_def split: option.splits)
  qed
qed

lemma below_mono: "below k hi \<Longrightarrow> j \<le> k \<Longrightarrow> below j hi"
  by (auto simp: below_def split: option.splits)

lemma iterate_complete:
  assumes f: "\<And>p q. R p q \<Longrightarrow> q \<in> set (f p)" and adv: "\<And>p q. R p q \<Longrightarrow> advances p q"
  shows "(R ^^ j) p q \<Longrightarrow> lo \<le> k + j \<Longrightarrow> j = 0 \<or> below (k + j - 1) hi \<Longrightarrow>
    (lo - k) + length (snd p) \<le> n \<Longrightarrow> q \<in> set (iterate f lo hi greedy k n p)"
proof (induction j arbitrary: k n p)
  case 0
  then show ?case by (cases n) (auto simp: Let_def)
next
  case (Suc j)
  obtain z where z: "R p z" "(R ^^ j) z q"
    using Suc.prems(1) by (auto simp: relpowp_Suc_left simp del: relpowp.simps)
  have len: "length (snd z) \<le> length (snd p)" and stay: "length (snd z) = length (snd p) \<Longrightarrow> z = p"
    using advances_length [OF adv [OF z(1)]] by auto
  have b: "below k hi" using Suc.prems(3) by (auto intro: below_mono)
  show ?case
  proof (cases "k < lo \<or> length (snd z) < length (snd p)")
    case True
    then have fuel: "1 \<le> n" "(lo - Suc k) + length (snd z) \<le> n - 1" using Suc.prems(4) len by auto
    then obtain m where n: "n = Suc m" by (cases n) auto
    have "q \<in> set (iterate f lo hi greedy (Suc k) m z)"
      using Suc.IH [OF z(2), of "Suc k" m] Suc.prems fuel n by (auto intro: below_mono)
    then show ?thesis using True f [OF z(1)] b by (auto simp: n Let_def)
  next
    case False
    then have "z = p" "lo \<le> k" using stay len by auto
    moreover have "j = 0 \<or> below (k + j - 1) hi" using Suc.prems(3) by (auto intro: below_mono)
    ultimately show ?thesis using Suc.IH [of p k n] z(2) Suc.prems(4) by simp
  qed
qed

lemma ends_leads: "set (ends r p) = {q. leads r p q}"
proof (induction r arbitrary: p)
  case (Class P)
  then show ?case by (auto split: list.split)
next
  case (Rep lo hi greedy a)
  have "q \<in> set (iterate (ends a) lo hi greedy 0 (lo + length (snd p)) p) \<longleftrightarrow>
      (\<exists>k. lo \<le> k \<and> (k = 0 \<or> below (k - 1) hi) \<and> (leads a ^^ k) p q)" for q
    using iterate_sound [of "ends a" "leads a" q lo hi greedy 0 "lo + length (snd p)" p]
      iterate_complete [of "leads a" "ends a" _ p q lo 0 hi "lo + length (snd p)" greedy]
      Rep.IH leads_advances by fastforce
  then show ?case by auto
next
  case (Not_ahead a)
  have "ends a p = [] \<longleftrightarrow> (\<forall>q. \<not> leads a p q)" unfolding set_empty [symmetric] Not_ahead.IH by blast
  then show ?case by simp
qed (auto simp: at_bound_def)

lemma match_at_None: "match_at r p = None \<longleftrightarrow> (\<forall>q. \<not> leads r p q)"
proof -
  have "match_at r p = None \<longleftrightarrow> set (ends r p) = {}" by (auto simp: match_at_def split: list.split)
  then show ?thesis by (auto simp: ends_leads)
qed

text \<open>The places of a text: after each of its prefixes.\<close>

definition place_after :: "char option \<Rightarrow> string \<Rightarrow> char option" where
  "place_after prev u = (if u = [] then prev else Some (last u))"

declare search_from.simps [simp del]

lemma search_from_None:
  "search_from r prev s = None \<longleftrightarrow> (\<forall>u v. s = u @ v \<longrightarrow> (\<forall>q. \<not> leads r (place_after prev u, v) q))"
proof (induction s arbitrary: prev)
  case Nil
  have "search_from r prev [] = None \<longleftrightarrow> match_at r (prev, []) = None"
    by (simp add: search_from.simps [of r prev "[]"] split: option.split)
  then show ?case by (simp add: match_at_None place_after_def)
next
  case (Cons c s)
  have "(\<forall>u v. c # s = u @ v \<longrightarrow> P u v) \<longleftrightarrow> P [] (c # s) \<and> (\<forall>u v. s = u @ v \<longrightarrow> P (c # u) v)" for P
    by (metis append_Cons append_Nil append_eq_Cons_conv)
  moreover have "place_after prev (c # u) = place_after (Some c) u" for u by (simp add: place_after_def)
  moreover have "search_from r prev (c # s) = None \<longleftrightarrow>
      match_at r (prev, c # s) = None \<and> search_from r (Some c) s = None"
    by (simp add: search_from.simps [of r prev "c # s"] split: option.split)
  ultimately show ?case by (simp add: Cons.IH match_at_None place_after_def [of _ "[]"])
qed

lemma found_iff: "found r s \<longleftrightarrow> (\<exists>u v q. s = u @ v \<and> leads r (place_after None u, v) q)"
  unfolding found_def search_def search_from_None by blast

lemma leads_lit_ci:
  "leads (lit_ci w) p q \<longleftrightarrow>
     (\<exists>v. snd p = v @ snd q \<and> map lower_char v = map lower_char w \<and> fst q = place_after (fst p) v)"
proof (induction w arbitrary: p)
  case Nil
  then show ?case by (auto simp: place_after_def prod_eq_iff)
next
  case (Cons c w)
  show ?case
  proof
    assume "leads (lit_ci (c # w)) p q"
    then obtain d s where d: "snd p = d # s" "lower_char d = lower_char c" "leads (lit_ci w) (Some d, s) q"
      by (auto simp: chr_ci_def)
    then obtain v where "s = v @ snd q" "map lower_char v = map lower_char w" "fst q = place_after (Some d) v"
      using Cons.IH by auto
    then show "\<exists>v. snd p = v @ snd q \<and> map lower_char v = map lower_char (c # w) \<and> fst q = place_after (fst p) v"
      using d by (intro exI [of _ "d # v"]) (auto simp: place_after_def)
  next
    assume "\<exists>v. snd p = v @ snd q \<and> map lower_char v = map lower_char (c # w) \<and> fst q = place_after (fst p) v"
    then obtain v where v: "snd p = v @ snd q" "map lower_char v = map lower_char (c # w)"
      "fst q = place_after (fst p) v" by blast
    then obtain d v' where "v = d # v'" by (cases v) auto
    then have "leads (lit_ci w) (Some d, v' @ snd q) q" "snd p = d # v' @ snd q" "lower_char d = lower_char c"
      using v Cons.IH by (auto simp: place_after_def split: if_splits)
    then show "leads (lit_ci (c # w)) p q" by (auto simp: chr_ci_def intro!: relcomppI)
  qed
qed

text \<open>What evaluates a search on a concrete text.\<close>

lemma ends_chr_ci: "ends (chr_ci c) p =
    (case snd p of d # s \<Rightarrow> if lower_char d = lower_char c then [(Some d, s)] else [] | [] \<Rightarrow> [])"
  by (simp add: chr_ci_def)

lemmas regex_eval = findall_def sub_with_def match_at_def search_from.simps taken_def ends_chr_ci lower_char_def
  at_bound_def at_line_def word_char_def is_alpha_def is_digit_def is_space_def code_def

end
