(* ===== verification/Caveman.thy ===== *)
theory Caveman
  imports Regex
begin

text \<open>
  The caveman skill's scripts, \<open>caveman_compressor.py\<close>, \<open>caveman_lint.py\<close> and
  \<open>token_savings_estimator.py\<close>: text rewritten by a chain of pattern substitutions with the code
  in it set aside, and the check for phrases it should not contain. Reports are values; their
  rendering as text and the reading of the command line are left out. The words of a Python set are
  taken in the order of the source, which does not matter to the patterns built from them.
\<close>

section \<open>The compressor\<close>

definition ARTICLES :: "string list" where "ARTICLES = [''a'', ''an'', ''the'']"

definition FILLER :: "string list" where
  "FILLER = [''just'', ''really'', ''basically'', ''actually'', ''simply'', ''obviously'', ''literally'']"

definition HEDGING :: "string list" where
  "HEDGING = [''might'', ''maybe'', ''perhaps'', ''likely'', ''possibly'', ''probably'']"

definition apostrophe :: "string \<Rightarrow> string \<Rightarrow> string" where
  "apostrophe a b = a @ [chr_quote] @ b"

definition PLEASANTRIES_PHRASES :: "string list" where
  "PLEASANTRIES_PHRASES =
     [''sure!'', ''sure,'', ''certainly!'', ''certainly,'', ''of course!'', ''of course,'', ''happy to help'',
      apostrophe ''i'' ''d be happy to'', ''i would be happy to'', ''great question'', ''good question'',
      ''absolutely!'', ''absolutely,'', ''no problem!'', ''no problem,'']"

definition METATALK_PHRASES :: "string list" where
  "METATALK_PHRASES =
     [''as you can see'', ''it should be noted'', apostrophe ''it'' ''s worth mentioning'',
      ''it is worth mentioning'', ''needless to say'', ''to be clear'', ''in other words'', ''that said'',
      ''having said that'']"

definition ABBREVIATIONS :: "(string \<times> string) list" where
  "ABBREVIATIONS =
     [(''database'', ''DB''), (''databases'', ''DBs''), (''authentication'', ''auth''),
      (''authorization'', ''authz''), (''configuration'', ''config''), (''configurations'', ''configs''),
      (''request'', ''req''), (''requests'', ''reqs''), (''response'', ''res''), (''responses'', ''ress''),
      (''function'', ''fn''), (''functions'', ''fns''), (''implementation'', ''impl''),
      (''implementations'', ''impls''), (''environment'', ''env''), (''dependencies'', ''deps''),
      (''dependency'', ''dep''), (''repository'', ''repo''), (''repositories'', ''repos''),
      (''documentation'', ''docs''), (''application'', ''app''), (''applications'', ''apps'')]"

definition plural_ci :: "string \<Rightarrow> regex" where
  "plural_ci w = Cat (lit_ci w) (maybe (lit_ci ''s''))"

definition CAUSALITY_PATTERNS :: "(regex \<times> string) list" where
  "CAUSALITY_PATTERNS =
     [(cats [Bound, maybe (Cat (lit_ci ''which'') spaces1),
         alts [plural_ci ''lead'', plural_ci ''cause'', cats [plural_ci ''result'', spaces1, lit_ci ''in''],
           cats [plural_ci ''give'', spaces1, lit_ci ''you''], plural_ci ''produce''], spaces1], ''-> ''),
      (cats [Bound, lit_ci ''because'', spaces1, lit_ci ''of'', Bound], ''<- '')]"

text \<open>A code block between triple backticks, the shortest one, and inline code.\<close>

definition CODE_BLOCK :: regex where
  "CODE_BLOCK = cats [lit ''```'', Rep 0 None False (Class (\<lambda>c. True)), lit ''```'']"

definition INLINE_CODE :: regex where
  "INLINE_CODE = cats [lit ''`'', Rep 1 None True (Class (\<lambda>c. c \<noteq> CHR ''`'')), lit ''`'']"

definition placeholder :: "nat \<Rightarrow> string" where
  "placeholder i = [chr_nul] @ ''CODE'' @ show_nat i @ [chr_nul]"

fun protect_matches :: "(string \<times> string) list \<Rightarrow> string list \<Rightarrow> string \<times> string list" where
  "protect_matches [] protected = ([], protected)"
| "protect_matches ((before, m) # ms) protected =
     (case protect_matches ms (protected @ [m]) of
        (text, protected') \<Rightarrow> (before @ placeholder (length protected) @ text, protected'))"

definition protect_with :: "regex \<Rightarrow> string \<times> string list \<Rightarrow> string \<times> string list" where
  "protect_with r tp =
     (case matches_from (Suc (length (fst tp))) r (None, fst tp) of
        (ms, rest) \<Rightarrow> (case protect_matches ms (snd tp) of (text, protected) \<Rightarrow> (text @ rest, protected)))"

definition protect_code :: "string \<Rightarrow> string \<times> string list" where
  "protect_code text = protect_with INLINE_CODE (protect_with CODE_BLOCK (text, []))"

text \<open>\<open>text.replace(old, new)\<close>.\<close>

definition replace_text :: "string \<Rightarrow> string \<Rightarrow> string \<Rightarrow> string" where
  "replace_text old new text = sub_with (lit old) (\<lambda>m. new) text"

definition restore_code :: "string \<Rightarrow> string list \<Rightarrow> string" where
  "restore_code text protected =
     fold (\<lambda>(i, code) t. replace_text (placeholder i) code t) (enumerate 0 protected) text"

definition drop_articles :: "string \<Rightarrow> string" where
  "drop_articles text = sub_with (cats [Bound, words_ci ARTICLES, spaces1]) (\<lambda>m. []) text"

definition drop_word_set :: "string list \<Rightarrow> string \<Rightarrow> string" where
  "drop_word_set ws text = sub_with (cats [Bound, words_ci ws, Bound, spaces]) (\<lambda>m. []) text"

definition bare_phrase :: "string \<Rightarrow> string" where
  "bare_phrase p = rev (dropWhile (\<lambda>c. c = CHR '','' \<or> c = CHR ''!'') (rev p))"

definition drop_phrase :: "string \<Rightarrow> string \<Rightarrow> string" where
  "drop_phrase p text =
     sub_with (Cat (lit_ci (bare_phrase p)) spaces) (\<lambda>m. [])
       (sub_with (Cat (lit_ci p) spaces) (\<lambda>m. []) text)"

definition drop_phrases :: "string list \<Rightarrow> string \<Rightarrow> string" where
  "drop_phrases ps text = fold drop_phrase ps text"

definition apply_abbreviations :: "string \<Rightarrow> string" where
  "apply_abbreviations text =
     fold (\<lambda>(w, short). sub_with (cats [Bound, lit_ci w, Bound]) (\<lambda>m. short)) ABBREVIATIONS text"

definition apply_causality_arrows :: "string \<Rightarrow> string" where
  "apply_causality_arrows text = fold (\<lambda>(r, arrow). sub_with r (\<lambda>m. arrow)) CAUSALITY_PATTERNS text"

text \<open>The first group, kept by the substitution, is the full stop and the blanks before the conjunction.\<close>

definition strip_leading_conjunctions :: "string \<Rightarrow> string" where
  "strip_leading_conjunctions text =
     sub_with (cats [Alt AtStart (Cat (lit ''.'') spaces1), words_ci [''and'', ''but'', ''so''], spaces1])
       (takeWhile (\<lambda>c. c = CHR ''.'' \<or> is_space c)) text"

definition collapse_whitespace :: "string \<Rightarrow> string" where
  "collapse_whitespace text =
     strip (sub_with (Cat spaces1 (Class (\<lambda>c. c \<in> set ''.,;:!?''))) (\<lambda>m. [last m])
       (sub_with spaces1 (\<lambda>m. '' '') text))"

definition compress :: "string \<Rightarrow> string" where
  "compress text =
     (case protect_code text of (t0, protected) \<Rightarrow>
        let t1 = drop_phrases METATALK_PHRASES (drop_phrases PLEASANTRIES_PHRASES t0);
            t2 = drop_articles (drop_word_set HEDGING (drop_word_set FILLER t1));
            t3 = strip_leading_conjunctions (apply_causality_arrows (apply_abbreviations t2))
        in restore_code (collapse_whitespace t3) protected)"

text \<open>The counts of a report; the percentage is given before rounding, as a quotient.\<close>

record compression =
  cp_original_chars :: nat
  cp_compressed_chars :: nat
  cp_original_words :: nat
  cp_compressed_words :: nat
  cp_words_saved :: int
  cp_percent :: "int \<times> nat"
  cp_text :: string

definition compression_report :: "string \<Rightarrow> string \<Rightarrow> compression" where
  "compression_report original compressed =
     (let ow = length (split_ws original); nw = length (split_ws compressed)
      in \<lparr>cp_original_chars = length original, cp_compressed_chars = length compressed,
          cp_original_words = ow, cp_compressed_words = nw, cp_words_saved = int ow - int nw,
          cp_percent = (100 * (int ow - int nw), max ow 1), cp_text = compressed\<rparr>)"

section \<open>The token estimate\<close>

definition TECHNICAL_TOKEN_INDICATORS :: "string list" where
  "TECHNICAL_TOKEN_INDICATORS =
     [''```'', ''{'', ''}'', ''()'', ''->'', ''=='', ''//'', ''/*'', ''import '', ''function '']"

text \<open>Characters per token as a quotient: 3.5 for technical text, 4 for prose.\<close>

definition estimate_chars_per_token :: "string \<Rightarrow> nat \<times> nat" where
  "estimate_chars_per_token text =
     (if length (filter (\<lambda>sig. contains_sub sig text) TECHNICAL_TOKEN_INDICATORS) \<ge> 3 then (7, 2) else (4, 1))"

text \<open>\<open>round\<close> of a quotient: halves go to the even neighbour.\<close>

definition round_div :: "nat \<Rightarrow> nat \<Rightarrow> nat" where
  "round_div n d =
     (let q = n div d; r = n mod d
      in if 2 * r < d then q else if d < 2 * r then q + 1 else if even q then q else q + 1)"

definition estimate_tokens :: "string \<Rightarrow> nat" where
  "estimate_tokens text =
     (case estimate_chars_per_token text of (n, d) \<Rightarrow> round_div (length text * d) n)"

record savings =
  sv_original_chars :: nat
  sv_compressed_chars :: nat
  sv_chars_per_token :: "nat \<times> nat"
  sv_original_tokens :: nat
  sv_compressed_tokens :: nat
  sv_tokens_saved :: int
  sv_percent :: "int \<times> nat"
  sv_preview :: string

definition savings_report :: "string \<Rightarrow> savings" where
  "savings_report original =
     (let compressed = compress original; ot = estimate_tokens original; nt = estimate_tokens compressed;
          saved = int ot - int nt
      in \<lparr>sv_original_chars = length original, sv_compressed_chars = length compressed,
          sv_chars_per_token = estimate_chars_per_token original, sv_original_tokens = ot,
          sv_compressed_tokens = nt, sv_tokens_saved = saved, sv_percent = (100 * saved, max ot 1),
          sv_preview = take 200 compressed @ (if length compressed > 200 then ''...'' else [])\<rparr>)"

section \<open>The lint\<close>

definition BANNED_PHRASES :: "(string \<times> string list) list" where
  "BANNED_PHRASES =
     [(''pleasantry'',
        [''sure!'', ''sure,'', ''certainly'', ''of course'', ''happy to help'', apostrophe ''i'' ''d be happy'',
         ''i would be happy'', ''great question'', ''good question'', ''absolutely'', ''no problem!'']),
      (''filler'', [''just'', ''really'', ''basically'', ''actually'', ''simply'', ''obviously'', ''literally'']),
      (''hedging'', [''might'', ''maybe'', ''perhaps'', ''likely'', ''possibly'', ''probably'']),
      (''metatalk'',
        [''as you can see'', ''it should be noted'', ''worth mentioning'', ''needless to say'', ''to be clear'',
         ''in other words'', ''that said'', ''having said that'']),
      (''verbose'',
        [''implement a solution for'', ''the implementation of'', ''in order to'', ''for the purpose of'',
         ''with respect to'', ''due to the fact that''])]"

definition EXCEPTION_MARKERS :: "regex list" where
  "EXCEPTION_MARKERS =
     [lit_ci ''**warning:**'', cats [Bound, lit_ci ''destructive'', Bound],
      cats [Bound, lit_ci ''irreversible'', Bound], cats [Bound, lit_ci ''cannot be undone'', Bound]]"

definition mask :: "string \<Rightarrow> string" where
  "mask m = replicate (length m) chr_nul"

definition mask_code :: "string \<Rightarrow> string" where
  "mask_code text = sub_with INLINE_CODE mask (sub_with CODE_BLOCK mask text)"

definition has_exception_context :: "string \<Rightarrow> bool" where
  "has_exception_context text \<longleftrightarrow> list_ex (\<lambda>r. found r text) EXCEPTION_MARKERS"

definition phrase_pattern :: "string \<Rightarrow> regex" where
  "phrase_pattern phrase = Cat Bound (Cat (lit_ci phrase) Bound)"

definition count_phrase :: "string \<Rightarrow> string \<Rightarrow> nat" where
  "count_phrase phrase masked = length (findall (phrase_pattern phrase) masked)"

record violation =
  vi_category :: string
  vi_phrase :: string
  vi_count :: nat

definition find_violations :: "string \<Rightarrow> violation list" where
  "find_violations text =
     (let masked = mask_code text
      in filter (\<lambda>v. vi_count v > 0)
           (concat (map (\<lambda>(category, phrases).
              map (\<lambda>p. \<lparr>vi_category = category, vi_phrase = p, vi_count = count_phrase p masked\<rparr>) phrases)
              BANNED_PHRASES)))"

datatype verdict = Clean | Warn | Fail

definition total_violations :: "string \<Rightarrow> nat" where
  "total_violations text = sum_list (map vi_count (find_violations text))"

definition lint_verdict :: "string \<Rightarrow> verdict" where
  "lint_verdict text =
     (let total = total_violations text
      in if total = 0 then Clean
         else if has_exception_context text then Warn
         else if total \<le> 2 then Warn
         else Fail)"

definition lint_exit :: "string \<Rightarrow> int" where
  "lint_exit text = (if lint_verdict text = Clean then 0 else 1)"

section \<open>Lemmas\<close>

lemma bound_after_punctuation:
  "\<not> word_char c \<Longrightarrow> at_bound (Some c, s) \<longleftrightarrow> s \<noteq> [] \<and> word_char (hd s)"
  by (simp add: at_bound_def)

lemma place_after_snoc [simp]: "place_after prev (u @ [c]) = Some c"
  by (simp add: place_after_def)

lemma phrase_found:
  assumes "found (phrase_pattern phrase) s"
  obtains u v t where "s = u @ v @ t" "map lower_char v = map lower_char phrase"
    "at_bound (place_after (place_after None u) v, t)"
proof -
  obtain u x q where x: "s = u @ x" "leads (phrase_pattern phrase) (place_after None u, x) q"
    using assms by (auto simp: found_iff)
  obtain z where z: "leads (lit_ci phrase) (place_after None u, x) z" "at_bound z"
    using x(2) by (auto simp: phrase_pattern_def relcompp_apply)
  obtain v where v: "x = v @ snd z" "map lower_char v = map lower_char phrase"
    "fst z = place_after (place_after None u) v"
    using z(1) by (auto simp: leads_lit_ci)
  then show ?thesis
    using z(2) x(1) by (intro that [of u v "snd z"]) (simp_all flip: v(3))
qed

lemma search_None_findall: "\<not> found r s \<Longrightarrow> findall r s = []"
  by (simp only: found_def search_def not_not findall_def matches_from.simps fst_conv snd_conv option.case list.map)

lemma word_char_lower: "word_char (lower_char c) = word_char c"
proof (cases "65 \<le> code c \<and> code c \<le> 90")
  case True
  then have "code (lower_char c) = code c + 32" by (simp add: lower_char_def)
  then show ?thesis using True by (simp add: word_char_def is_alpha_def)
next
  case False
  then have "lower_char c = c" by (auto simp: lower_char_def)
  then show ?thesis by simp
qed

lemma lower_char_word: "lower_char a = lower_char b \<Longrightarrow> word_char a = word_char b"
  using word_char_lower [of a] word_char_lower [of b] by simp

section \<open>Properties\<close>

text \<open>
  A banned phrase that ends in punctuation is counted only where a letter, a digit or an underscore
  follows it at once, since the pattern ends in a word boundary: ``Sure! Done.'' is not reported.
\<close>

theorem punctuated_phrase_missed:
  assumes "0 < count_phrase (p @ [c]) s" and "\<not> word_char c"
  shows "\<exists>u v d t. s = u @ v @ d # t \<and> map lower_char v = map lower_char (p @ [c]) \<and> word_char d"
proof -
  have "found (phrase_pattern (p @ [c])) s"
    using assms(1) search_None_findall by (fastforce simp: count_phrase_def)
  then obtain u v t where v: "s = u @ v @ t" "map lower_char v = map lower_char (p @ [c])"
    "at_bound (place_after (place_after None u) v, t)"
    by (rule phrase_found)
  obtain v' d where d: "v = v' @ [d]" "lower_char d = lower_char c"
    using v(2) by (cases v rule: rev_cases) auto
  have "t \<noteq> [] \<and> word_char (hd t)"
    using v(3) assms(2) lower_char_word [OF d(2)] by (simp add: d(1) bound_after_punctuation)
  then show ?thesis using v by (cases t) auto
qed

theorem punctuated_phrase_missed_witness:
  "(\<exists>u v d t. ''sure!x'' = u @ v @ d # t \<and> map lower_char v = map lower_char ''sure!'' \<and> word_char d) \<and>
   count_phrase ''sure!'' ''sure! do'' = 0"
proof -
  have "0 < count_phrase (''sure'' @ [CHR ''!'']) ''sure!x''"
    by (simp add: count_phrase_def phrase_pattern_def regex_eval)
  then have "\<exists>u v d t. ''sure!x'' = u @ v @ d # t \<and>
      map lower_char v = map lower_char (''sure'' @ [CHR ''!'']) \<and> word_char d"
    by (rule punctuated_phrase_missed) (simp add: word_char_def is_alpha_def is_digit_def code_def)
  then show ?thesis by (simp add: count_phrase_def phrase_pattern_def regex_eval)
qed

text \<open>
  The compressor takes the letters of a pleasantry out of the middle of other words.
\<close>

theorem pleasantries_cut_words:
  "''sure!'' \<in> set PLEASANTRIES_PHRASES \<and> drop_phrase ''sure!'' ''we measure'' = ''we mea''"
  by (simp add: PLEASANTRIES_PHRASES_def drop_phrase_def bare_phrase_def spaces_def regex_eval)

end
