(* ===== verification/Handoff.thy ===== *)
theory Handoff
  imports Regex Prelude
begin

text \<open>
  The handoff skill's scripts: \<open>artifact_deduplicator.py\<close> finds what a handoff document should refer
  to instead of repeating it, \<open>skill_recommender.py\<close> ranks the skills a document asks for, and
  \<open>handoff_template_generator.py\<close> writes an empty document for a focus. Texts are in ASCII where the
  scripts count characters; the reading of command lines is left out.
\<close>

section \<open>Finding duplicated content\<close>

definition PRD_HEADERS :: "string list" where
  "PRD_HEADERS = [''problem statement'', ''solution'', ''success metrics'', ''out of scope'', ''user stories'',
     ''acceptance criteria'']"

definition ADR_FIELDS :: "string list" where
  "ADR_FIELDS = [''status:'', ''decision:'', ''consequences:'', ''context:'', ''alternatives considered'']"

definition ISSUE_FIELDS :: "string list" where
  "ISSUE_FIELDS = [''steps to reproduce'', ''expected behavior'', ''actual behavior'', ''environment:'', ''labels:'']"

definition COMMIT_PREFIXES :: "string list" where
  "COMMIT_PREFIXES = [''feat:'', ''fix:'', ''docs:'', ''chore:'', ''refactor:'', ''test:'', ''ci:'', ''build:'', ''perf:'']"

record dup_finding =
  df_line :: nat
  df_kind :: string
  df_trigger :: string
  df_context :: string
  df_suggestion :: string

definition make_finding :: "nat \<Rightarrow> string \<Rightarrow> string \<Rightarrow> string \<Rightarrow> string \<Rightarrow> dup_finding" where
  "make_finding line kind trigger ctx suggestion =
     \<lparr>df_line = line, df_kind = kind, df_trigger = trigger, df_context = take 120 ctx, df_suggestion = suggestion\<rparr>"

definition PRD_SUGGESTION :: string where
  "PRD_SUGGESTION = ''Replace this section with a link to the canonical PRD file (e.g., `[Full PRD](path/to/prd.md)`).''"

definition ADR_SUGGESTION :: string where
  "ADR_SUGGESTION = ''Replace with a link to the ADR file (e.g., `[ADR-NNNN](docs/adr/NNNN.md)`).''"

definition ISSUE_SUGGESTION :: string where
  "ISSUE_SUGGESTION = ''Replace with issue reference (e.g., `#NNN` or full URL).''"

definition COMMIT_SUGGESTION :: string where
  "COMMIT_SUGGESTION = ''Replace with commit SHA + URL (e.g., `[abc1234](https://github.com/.../commit/abc1234)`).''"

definition LONG_CODE_SUGGESTION :: string where
  "LONG_CODE_SUGGESTION =
     ''Long code blocks usually duplicate checked-in code. Replace with file path + commit SHA '' @
     ''(e.g., `[src/foo.py:42-80](https://github.com/.../blob/SHA/src/foo.py#L42-L80)`).''"

definition match_header_in_line :: "string \<Rightarrow> nat \<Rightarrow> string \<Rightarrow> string \<Rightarrow> string \<Rightarrow> dup_finding option" where
  "match_header_in_line line n header kind suggestion =
     (if contains_sub header (lower line) \<and> (CHR ''#'' \<in> set line \<or> CHR '':'' \<in> set line)
      then Some (make_finding n kind header (strip line) suggestion) else None)"

definition match_field_in_line :: "string \<Rightarrow> nat \<Rightarrow> string \<Rightarrow> string \<Rightarrow> string \<Rightarrow> dup_finding option" where
  "match_field_in_line line n field kind suggestion =
     (if contains_sub field (lower line) then Some (make_finding n kind field (strip line) suggestion) else None)"

definition match_prefix_in_line :: "string \<Rightarrow> nat \<Rightarrow> string \<Rightarrow> string \<Rightarrow> string \<Rightarrow> dup_finding option" where
  "match_prefix_in_line line n prefix kind suggestion =
     (if starts_with prefix (lower (strip line)) then Some (make_finding n kind prefix (strip line) suggestion) else None)"

text \<open>The first finding of each line: the loops over the triggers stop at a match.\<close>

fun first_some :: "('a \<Rightarrow> 'b option) \<Rightarrow> 'a list \<Rightarrow> 'b option" where
  "first_some f [] = None"
| "first_some f (x # xs) = (case f x of Some y \<Rightarrow> Some y | None \<Rightarrow> first_some f xs)"

definition scan_lines :: "(string \<Rightarrow> nat \<Rightarrow> string \<Rightarrow> dup_finding option) \<Rightarrow> string list \<Rightarrow> string \<Rightarrow> dup_finding list" where
  "scan_lines match triggers text =
     List.map_filter (\<lambda>(n, line). first_some (match line n) triggers) (enumerate 1 (splitlines text))"

definition find_prd_content :: "string \<Rightarrow> dup_finding list" where
  "find_prd_content text =
     scan_lines (\<lambda>line n h. match_header_in_line line n h ''prd_content'' PRD_SUGGESTION) PRD_HEADERS text"

definition find_adr_content :: "string \<Rightarrow> dup_finding list" where
  "find_adr_content text =
     scan_lines (\<lambda>line n h. match_field_in_line line n h ''adr_content'' ADR_SUGGESTION) ADR_FIELDS text"

definition find_issue_content :: "string \<Rightarrow> dup_finding list" where
  "find_issue_content text =
     scan_lines (\<lambda>line n h. match_field_in_line line n h ''issue_content'' ISSUE_SUGGESTION) ISSUE_FIELDS text"

definition find_commit_style :: "string \<Rightarrow> dup_finding list" where
  "find_commit_style text =
     scan_lines (\<lambda>line n h. match_prefix_in_line line n h ''commit_style'' COMMIT_SUGGESTION) COMMIT_PREFIXES text"

definition record_long_block :: "nat \<Rightarrow> nat \<Rightarrow> nat \<Rightarrow> dup_finding" where
  "record_long_block start stop n =
     make_finding start ''long_code_block'' (show_nat n @ '' lines'')
       (''Code block L'' @ show_nat start @ ''-L'' @ show_nat stop) LONG_CODE_SUGGESTION"

text \<open>Inside a block: where it started and how many lines it has so far.\<close>

fun long_blocks :: "nat \<Rightarrow> (nat \<times> nat) option \<Rightarrow> (nat \<times> string) list \<Rightarrow> dup_finding list" where
  "long_blocks threshold block [] = []"
| "long_blocks threshold block ((n, line) # rest) =
     (if starts_with ''```'' (strip line)
      then (case block of
          Some (start, k) \<Rightarrow>
            (if k > threshold then [record_long_block start n k] else []) @ long_blocks threshold None rest
        | None \<Rightarrow> long_blocks threshold (Some (n, 0)) rest)
      else long_blocks threshold (map_option (\<lambda>(start, k). (start, k + 1)) block) rest)"

definition find_long_code_blocks :: "nat \<Rightarrow> string \<Rightarrow> dup_finding list" where
  "find_long_code_blocks threshold text = long_blocks threshold None (enumerate 1 (splitlines text))"

definition LONG_BLOCK_THRESHOLD :: nat where "LONG_BLOCK_THRESHOLD = 20"

definition all_findings :: "string \<Rightarrow> dup_finding list" where
  "all_findings text =
     find_prd_content text @ find_adr_content text @ find_issue_content text @ find_commit_style text @
     find_long_code_blocks LONG_BLOCK_THRESHOLD text"

definition count_kinds :: "dup_finding list \<Rightarrow> (string, nat) dict" where
  "count_kinds fs =
     fold (\<lambda>f d. dict_set (df_kind f) (case dict_get (df_kind f) d of Some n \<Rightarrow> n + 1 | None \<Rightarrow> 1) d) fs []"

definition dup_verdict :: "string \<Rightarrow> string" where
  "dup_verdict text =
     (if all_findings text = [] then ''CLEAN''
      else if length (all_findings text) \<le> 3 then ''WARN'' else ''FAIL'')"

section \<open>Recommending skills\<close>

text \<open>
  A signal: its pattern, the skill, the reason, and the keyword \<open>findall\<close> gives for a match. With one
  group around the alternatives that is the matched text; with two groups it is the two texts joined.
\<close>

record signal =
  sg_pattern :: regex
  sg_skill :: string
  sg_reason :: string
  sg_keyword :: "string \<Rightarrow> string"

definition between_bounds :: "regex list \<Rightarrow> regex" where
  "between_bounds rs = cats [Bound, alts rs, Bound]"

definition spaced_ci :: "string list \<Rightarrow> regex" where
  "spaced_ci ws = cats (tl (concat (map (\<lambda>w. [spaces1, lit_ci w]) ws)))"

definition opt_class :: "(char \<Rightarrow> bool) \<Rightarrow> regex" where
  "opt_class P = maybe (Class P)"

definition dash_or_space :: "char \<Rightarrow> bool" where
  "dash_or_space c \<longleftrightarrow> c = CHR ''-'' \<or> is_space c"

text \<open>\<open>document\<close> and blanks, then the inner group; a matched \<open>skill\<close> may have an article as its second group.\<close>

definition docstring_keyword :: "string \<Rightarrow> string" where
  "docstring_keyword m =
     (if starts_with ''document'' (lower m) then m @ '' '' @ lstrip (drop 8 m) else m)"

definition author_keyword :: "string \<Rightarrow> string" where
  "author_keyword m =
     (let verb = takeWhile is_alpha m; rest = lstrip (drop (length verb) m);
          article = takeWhile is_alpha rest; blanks = takeWhile is_space (drop (length article) rest)
      in if lower article = ''a'' then verb @ '' '' @ article @ blanks else verb)"

definition SKILL_SIGNALS :: "signal list" where
  "SKILL_SIGNALS =
     [\<lparr>sg_pattern = between_bounds [lit_ci ''commit'', spaced_ci [''conventional'', ''commit''], lit_ci ''commitizen'',
          cats [lit_ci ''git'', opt_class is_space, lit_ci ''flow''], spaced_ci [''feature'', ''branch''],
          spaced_ci [''merge'', ''back'']],
        sg_skill = ''commit'',
        sg_reason = ''Next session lands changes in git; commit enforces the single-line type(scope): subject format and the Git Flow branch rules.'',
        sg_keyword = (\<lambda>m. m)\<rparr>,
      \<lparr>sg_pattern = between_bounds [lit_ci ''docstring'', spaced_ci [''google'', ''style''],
          cats [lit_ci ''D4'', Class is_digit, Class is_digit], lit_ci ''pydocstyle'',
          cats [lit_ci ''document'', spaces1, alts [lit_ci ''this'', spaced_ci [''the'', ''code'']]]],
        sg_skill = ''docstrings'',
        sg_reason = ''Next session writes or fixes docstrings; docstrings carries '' @ ''this repo'' @ [chr_quote] @
          ''s convention plus the DS001-DS003 checker.'',
        sg_keyword = docstring_keyword\<rparr>,
      \<lparr>sg_pattern = between_bounds [lit_ci ''karpathy'', lit_ci ''complexity'', lit_ci ''refactor'',
          spaced_ci [''code'', ''quality''], lit_ci ''overcomplicat'',
          cats [lit_ci ''over'', opt_class dash_or_space, lit_ci ''engineer'']],
        sg_skill = ''karpathy-coder'',
        sg_reason = ''Next session involves code-quality discipline; karpathy-coder runs complexity_checker, diff_surgeon, assumption_linter and goal_verifier.'',
        sg_keyword = (\<lambda>m. m)\<rparr>,
      \<lparr>sg_pattern = between_bounds [lit_ci ''grill'', cats [lit_ci ''stress'', opt_class dash_or_space, lit_ci ''test''],
          lit_ci ''interrog'', spaced_ci [''decision'', ''tree''],
          Cat (spaced_ci [''open'', ''decision'']) (maybe (lit_ci ''s''))],
        sg_skill = ''grill-me'',
        sg_reason = ''Next session must resolve open design decisions; grill-me walks the branches one forcing question at a time.'',
        sg_keyword = (\<lambda>m. m)\<rparr>,
      \<lparr>sg_pattern = between_bounds [lit_ci ''caveman'', spaced_ci [''less'', ''tokens''], spaced_ci [''be'', ''brief''],
          lit_ci ''compress''],
        sg_skill = ''caveman'',
        sg_reason = ''Next session benefits from token-compressed replies; caveman applies the compression rules consistently.'',
        sg_keyword = (\<lambda>m. m)\<rparr>,
      \<lparr>sg_pattern = between_bounds [lit_ci ''UI'', lit_ci ''UX'', spaced_ci [''visual'', ''design''], lit_ci ''typography'',
          lit_ci ''palette'', lit_ci ''layout'', spaced_ci [''landing'', ''page'']],
        sg_skill = ''frontend-design'',
        sg_reason = ''Next session shapes an interface; frontend-design pushes for deliberate type, color and layout choices instead of templated defaults.'',
        sg_keyword = (\<lambda>m. m)\<rparr>,
      \<lparr>sg_pattern = between_bounds [lit_ci ''review'', lit_ci ''regression'', lit_ci ''defect'',
          spaced_ci [''inspect'', ''the'', ''diff'']],
        sg_skill = ''review-agent'',
        sg_reason = ''Next session reviews a change; review-agent is Codex'' @ [chr_quote] @ ''s read-only defect-first review skill.'',
        sg_keyword = (\<lambda>m. m)\<rparr>,
      \<lparr>sg_pattern = cats [Bound, words_ci [''write'', ''create'', ''author''], spaces1, maybe (Cat (lit_ci ''a'') spaces1),
          lit_ci ''skill'', Bound],
        sg_skill = ''skill-creator'',
        sg_reason = ''Next session authors or edits a skill; skill-creator is Codex'' @ [chr_quote] @ ''s own skill-authoring guidance.'',
        sg_keyword = author_keyword\<rparr>,
      \<lparr>sg_pattern = between_bounds [lit_ci ''handoff'', spaced_ci [''next'', ''session''],
          spaced_ci [''continue'', ''the'', ''work'']],
        sg_skill = ''handoff'',
        sg_reason = ''Next session may need to be handed off again; handoff produces continuity docs.'',
        sg_keyword = (\<lambda>m. m)\<rparr>]"

record recommendation =
  rc_skill :: string
  rc_reason :: string
  rc_hits :: nat
  rc_keywords :: "string list"

definition signal_hit :: "string \<Rightarrow> signal \<Rightarrow> recommendation option" where
  "signal_hit text sg =
     (let ms = findall (sg_pattern sg) text
      in if ms = [] then None
         else Some \<lparr>rc_skill = sg_skill sg, rc_reason = sg_reason sg, rc_hits = length ms,
                     rc_keywords = map (sg_keyword sg) (take 3 ms)\<rparr>)"

text \<open>Every skill has one signal, so no hit is merged into an earlier one. The sort is stable.\<close>

definition recommend :: "string \<Rightarrow> recommendation list" where
  "recommend text = sort_key (\<lambda>r. - int (rc_hits r)) (List.map_filter (signal_hit text) SKILL_SIGNALS)"

section \<open>The document template\<close>

definition FOCUS_EMPHASIS :: "(string \<times> string) list" where
  "FOCUS_EMPHASIS =
     [(''ship'', ''deployment_emphasis''), (''deploy'', ''deployment_emphasis''), (''pr'', ''deployment_emphasis''),
      (''review'', ''review_emphasis''), (''audit'', ''review_emphasis''), (''debug'', ''debug_emphasis''),
      (''fix'', ''debug_emphasis''), (''investigate'', ''debug_emphasis''), (''design'', ''design_emphasis''),
      (''plan'', ''design_emphasis''), (''scope'', ''design_emphasis''), (''test'', ''test_emphasis''),
      (''qa'', ''test_emphasis'')]"

definition what_s :: "string \<Rightarrow> string" where
  "what_s s = ''What'' @ [chr_quote] @ ''s '' @ s"

definition SECTION_PROMPTS :: "(string, string list) dict" where
  "SECTION_PROMPTS =
     [(''deployment_emphasis'',
        [what_s ''the exact command to ship? `git push` + `mcp__github__create_pull_request`?'',
         ''Which checks must be green before merge?'', ''Who needs to approve?'',
         what_s ''the rollback plan if CI catches something?'']),
      (''review_emphasis'',
        [what_s ''the review checklist for this PR?'', ''Which files are sensitive (security/secrets)?'',
         ''Where are existing similar patterns?'', ''What past PRs reviewed this code path?'']),
      (''debug_emphasis'',
        [what_s ''the exact symptom + reproduction steps?'', what_s ''been tried already?'',
         ''Which logs / traces are most informative?'', what_s ''the smallest reproducing case?'']),
      (''design_emphasis'',
        [what_s ''the user-facing outcome the design must achieve?'', what_s ''the non-negotiable constraint?'',
         ''What are the rejected alternatives + why?'', what_s ''reversible vs irreversible in this design?'']),
      (''test_emphasis'',
        [what_s ''the test plan?'', ''Which existing tests cover this?'', ''Where are edge cases hiding?'',
         ''How is success measured?'']),
      (''default'',
        [what_s ''the immediate next action?'', what_s ''blocking right now?'',
         ''Where are the relevant files?'', ''What decisions are still open?''])]"

definition detect_emphasis :: "string \<Rightarrow> string" where
  "detect_emphasis focus =
     (case List.find (\<lambda>(keyword, e). contains_sub keyword (lower focus)) FOCUS_EMPHASIS of
        Some (keyword, e) \<Rightarrow> if focus = [] then ''default'' else e
      | None \<Rightarrow> ''default'')"

definition section_prompts :: "string \<Rightarrow> string list" where
  "section_prompts emphasis = (case dict_get emphasis SECTION_PROMPTS of Some ps \<Rightarrow> ps | None \<Rightarrow> [])"

text \<open>The dash between the words of a heading, U+2014, in UTF-8.\<close>

definition DASH :: string where "DASH = [CHR 0xE2, CHR 0x80, CHR 0x94]"

definition or_text :: "string \<Rightarrow> string \<Rightarrow> string" where
  "or_text s d = (if s = [] then d else s)"

definition template_lines :: "string \<Rightarrow> string \<Rightarrow> string \<Rightarrow> string list" where
  "template_lines timestamp focus session_id =
     [''# Handoff '' @ DASH @ '' '' @ or_text focus ''(general)'', [],
      ''**Generated:** '' @ timestamp,
      ''**From session:** '' @ or_text session_id ''<session_id>'',
      ''**Next focus:** '' @ or_text focus (''(unspecified '' @ DASH @ '' fill in)''), [],
      ''---'', [], ''## Goal of next session'', [],
      ''[Describe what the next session must accomplish. Tailored to: '' @ or_text focus ''general'' @ '']'', [],
      ''Prompts to answer:''] @
     map (\<lambda>p. ''- '' @ p) (section_prompts (detect_emphasis focus)) @
     [[], ''## State of play'', [], ''**Done:**'',
      ''- [list what'' @ [chr_quote] @ ''s complete with paths/refs to artifacts]'', [], ''**In progress:**'',
      ''- [list what'' @ [chr_quote] @ ''s mid-flight + current branch/PR if applicable]'', [], ''**Blocking:**'',
      ''- [list blockers + who/what unblocks each]'', [], ''## Open decisions'', [],
      ''- [Decision 1: options + current lean]'', ''- [Decision 2: options + current lean]'', [],
      ''## Skills to use (next session)'', [],
      ''- [Skill 1 '' @ DASH @ '' when to invoke]'', ''- [Skill 2 '' @ DASH @ '' when to invoke]'', [],
      ''## Artifacts (reference only '' @ DASH @ '' do NOT duplicate)'', [],
      ''- **PRD/Plan:** [path or URL]'', ''- **ADRs:** [path]'', ''- **Issues:** [#nnn]'', ''- **Branch:** [name]'',
      ''- **Open PRs:** [#nnn]'', ''- **Recent commits:** [paths or SHAs]'', ''- **Validators/tests run:** [results]'',
      [], ''---'', [],
      ''**Rule:** This document references existing artifacts. If you find yourself duplicating content from a PRD/plan/issue, replace it with a path/URL instead.'']"

definition generate_template :: "string \<Rightarrow> string \<Rightarrow> string \<Rightarrow> string" where
  "generate_template timestamp focus session_id = join [chr_nl] (template_lines timestamp focus session_id)"

section \<open>Properties\<close>

lemma first_some_Some: "first_some f xs = Some y \<Longrightarrow> \<exists>x \<in> set xs. f x = Some y"
  by (induction xs) (auto split: option.splits)

lemma scan_lines_mem:
  "x \<in> set (scan_lines match triggers text) \<Longrightarrow>
     \<exists>n line h. (n, line) \<in> set (enumerate 1 (splitlines text)) \<and> h \<in> set triggers \<and> match line n h = Some x"
  by (force simp: scan_lines_def List.map_filter_def dest: first_some_Some split: option.splits)

lemma enumerate_line:
  "(n, line) \<in> set (enumerate 1 ls) \<Longrightarrow> 1 \<le> n \<and> n \<le> length ls \<and> line = ls ! (n - 1)"
  by (auto simp: in_set_enumerate_eq)

text \<open>
  Every finding about a commit message points at a line of the document that starts with the prefix
  it names, whatever blanks and capitals the line has.
\<close>

theorem commit_findings_genuine:
  assumes "x \<in> set (find_commit_style text)"
  shows "1 \<le> df_line x \<and> df_line x \<le> length (splitlines text) \<and> df_trigger x \<in> set COMMIT_PREFIXES \<and>
    starts_with (df_trigger x) (lower (strip (splitlines text ! (df_line x - 1))))"
proof -
  obtain n line h where h: "(n, line) \<in> set (enumerate 1 (splitlines text))" "h \<in> set COMMIT_PREFIXES"
    "match_prefix_in_line line n h ''commit_style'' COMMIT_SUGGESTION = Some x"
    using assms scan_lines_mem unfolding find_commit_style_def by blast
  then show ?thesis
    using enumerate_line [OF h(1)]
    by (auto simp: match_prefix_in_line_def make_finding_def split: if_splits)
qed

text \<open>A block that is never closed is not reported, however long it is.\<close>

lemma unclosed_block_missed:
  "list_all (\<lambda>(n, line). \<not> starts_with ''```'' (strip line)) rest \<Longrightarrow> long_blocks threshold block rest = []"
  by (induction rest arbitrary: block) auto

end
