(* ===== verification/Plans.thy ===== *)
theory Plans
  imports Regex Prelude "HOL-Library.Multiset"
begin

text \<open>
  The scripts that read plans and diffs: \<open>decision_tree_extractor.py\<close>, \<open>question_generator.py\<close> and
  \<open>grill_session_tracker.py\<close> of the grill-me skill, \<open>goal_verifier.py\<close>, \<open>assumption_linter.py\<close> and
  \<open>diff_surgeon.py\<close> of the karpathy-coder skill. A tracker's session file is the record the script
  writes; files it did not write are not followed, and a session's name is that of a file in the
  directory of the sessions (no slash, not empty). Percentages are given as quotients before
  rounding. Texts are in ASCII where the scripts count characters. The reports in text and JSON are
  not written out: a definition holds the values they print.
\<close>

section \<open>Decision branches\<close>

definition quote_s :: "string \<Rightarrow> string \<Rightarrow> string" where
  "quote_s a b = a @ [chr_quote] @ b"

definition DECISION_PATTERNS :: "(regex \<times> string) list" where
  "DECISION_PATTERNS =
     [(cats [Bound, lit_ci ''we'', spaces,
         alts [lit_ci (quote_s [] ''ll''), lit_ci ''will'', cats [lit_ci ''plan'', spaces1, lit_ci ''to''],
           lit_ci ''should'', lit_ci ''could'', lit_ci ''might'', lit_ci ''may''], Bound], ''intent''),
      (cats [Bound, words_ci [''either'', ''or''], Bound, Rep 0 (Some 80) True any_char, Bound,
         words_ci [''or'', ''alternatively''], Bound], ''choice''),
      (Alt (cats [Bound, lit_ci ''versus'', Bound]) (cats [Bound, lit_ci ''vs'', maybe (lit ''.''), Bound]), ''choice''),
      (Alt (cats [Bound, lit_ci ''TBD'', Bound])
         (cats [Bound, lit_ci ''to'', spaces1, lit_ci ''be'', spaces1, words_ci [''decided'', ''determined''], Bound]),
       ''open''),
      (cats [Bound, lit_ci ''open'', spaces1, lit_ci ''question'', Bound], ''open''),
      (cats [Bound, lit_ci ''trade'', maybe (lit ''-''), lit_ci ''off'', maybe (lit_ci ''s''), Bound], ''tradeoff''),
      (cats [Bound, lit_ci ''depend'', maybe (lit_ci ''s''), spaces1, lit_ci ''on'', Bound], ''dependency''),
      (cats [lit ''?'', spaces, AtEnd], ''question'')]"

record branch =
  br_line :: nat
  br_kind :: string
  br_trigger :: string
  br_context :: string

fun first_match :: "string \<Rightarrow> (regex \<times> string) list \<Rightarrow> (string \<times> string) option" where
  "first_match s [] = None"
| "first_match s ((r, kind) # rest) =
     (case search r s of Some (before, m, q) \<Rightarrow> Some (m, kind) | None \<Rightarrow> first_match s rest)"

definition line_branch :: "nat \<times> string \<Rightarrow> branch option" where
  "line_branch nl =
     (case first_match (snd nl) DECISION_PATTERNS of
        Some (m, kind) \<Rightarrow>
          Some \<lparr>br_line = fst nl, br_kind = kind, br_trigger = m, br_context = take 160 (strip (snd nl))\<rparr>
      | None \<Rightarrow> None)"

definition extract_branches :: "string \<Rightarrow> branch list" where
  "extract_branches text = List.map_filter line_branch (enumerate 1 (splitlines text))"

section \<open>Questions\<close>

definition QUESTION_TEMPLATES :: "(string, string) dict" where
  "QUESTION_TEMPLATES =
     [(''intent'', ''Why this approach and not the obvious alternative?''),
      (''choice'', ''Which side of the choice, and '' @ quote_s ''what'' ''s the deciding criterion?''),
      (''open'', quote_s ''What'' ''s blocking this decision? What would unblock it today?''),
      (''tradeoff'', ''Which side of the trade-off are you optimizing for, and '' @ quote_s ''what'' ''s the kill criterion?''),
      (''dependency'', ''Is the dependency locked in? If not, that decision comes first.''),
      (''question'', quote_s ''What'' ''s your current best answer, even if uncertain?'')]"

definition RECOMMENDED_TEMPLATES :: "(string, string) dict" where
  "RECOMMENDED_TEMPLATES =
     [(''intent'', ''State the alternative explicitly + 1 sentence why you rejected it.''),
      (''choice'', ''Pick the option that aligns with the constraint you '' @ quote_s ''can'' ''t change (budget, deadline, team).''),
      (''open'', ''Name the missing input. Estimate when it arrives. Decide now under uncertainty if it '' @
         quote_s ''won'' ''t arrive in time.''),
      (''tradeoff'', ''Choose the side '' @ quote_s ''that'' ''s reversible later. Trade-offs are usually one-way; pick the one with the escape hatch.''),
      (''dependency'', ''Resolve the upstream decision first. Then re-evaluate this one.''),
      (''question'', ''Even a 60%-confidence answer is better than '' @ [chr_quote] @ quote_s ''we'' ''ll figure it out later'' @
         [chr_quote] @ ''.'')]"

record question =
  qu_n :: nat
  qu_line :: nat
  qu_kind :: string
  qu_context :: string
  qu_question :: string
  qu_recommended :: string

definition dict_or :: "string \<Rightarrow> string \<Rightarrow> (string, string) dict \<Rightarrow> string" where
  "dict_or k d m = (case dict_get k m of Some v \<Rightarrow> v | None \<Rightarrow> d)"

text \<open>Branches that depend on others go last; otherwise the order of the document is kept.\<close>

definition order_branches :: "branch list \<Rightarrow> branch list" where
  "order_branches bs =
     filter (\<lambda>b. br_kind b \<noteq> ''dependency'') bs @ filter (\<lambda>b. br_kind b = ''dependency'') bs"

definition question_of :: "nat \<times> branch \<Rightarrow> question" where
  "question_of nb =
     (case nb of (n, b) \<Rightarrow>
        \<lparr>qu_n = n, qu_line = br_line b, qu_kind = br_kind b, qu_context = br_context b,
         qu_question = ''L'' @ show_nat (br_line b) @ '': '' @ br_context b @ '' -> '' @
           dict_or (br_kind b) (quote_s ''What'' ''s the current state?'') QUESTION_TEMPLATES,
         qu_recommended = dict_or (br_kind b) ''State your best answer.'' RECOMMENDED_TEMPLATES\<rparr>)"

definition generate_questions :: "branch list \<Rightarrow> question list" where
  "generate_questions bs = map question_of (enumerate 1 (order_branches bs))"

section \<open>Interrogation sessions\<close>

record grill_session =
  ge_name :: string
  ge_started :: string
  ge_plan :: string
  ge_total :: nat
  ge_questions :: "question list"
  ge_answers :: "(string, string \<times> string) dict"
  ge_status :: string
  ge_closed :: "string option"

type_synonym sessions = "(string, grill_session) dict"

text \<open>Without a path the embedded sample plan is used; its text is an argument.\<close>

definition start_session :: "string \<Rightarrow> string \<Rightarrow> (string \<Rightarrow> string result) \<Rightarrow> string \<Rightarrow> string \<Rightarrow> sessions
     \<Rightarrow> (grill_session \<times> sessions) result" where
  "start_session sample now read name path store =
     rbind (if path \<noteq> [] then read path else Inr sample) (\<lambda>plan.
       let qs = generate_questions (extract_branches plan);
           s = \<lparr>ge_name = name, ge_started = now, ge_plan = (if path \<noteq> [] then path else ''<embedded sample>''),
                ge_total = length qs, ge_questions = qs, ge_answers = [], ge_status = ''active'', ge_closed = None\<rparr>
       in Inr (s, dict_set name s store))"

definition load_session :: "string \<Rightarrow> sessions \<Rightarrow> grill_session result" where
  "load_session name store =
     (case dict_get name store of
        Some s \<Rightarrow> Inr s
      | None \<Rightarrow> Inl (ValueError (''Session not found: '' @ name)))"

definition record_answer :: "string \<Rightarrow> string \<Rightarrow> int \<Rightarrow> string \<Rightarrow> sessions \<Rightarrow> (grill_session \<times> sessions) result" where
  "record_answer now name qid answer store =
     rbind (load_session name store) (\<lambda>s.
       let s' = s\<lparr>ge_answers := dict_set (show_int qid) (answer, now) (ge_answers s)\<rparr>
       in Inr (s', dict_set name s' store))"

definition close_session :: "string \<Rightarrow> string \<Rightarrow> sessions \<Rightarrow> (grill_session \<times> sessions) result" where
  "close_session now name store =
     rbind (load_session name store) (\<lambda>s.
       let s' = s\<lparr>ge_status := ''closed'', ge_closed := Some now\<rparr>
       in Inr (s', dict_set name s' store))"

definition unanswered :: "grill_session \<Rightarrow> question \<Rightarrow> bool" where
  "unanswered s q \<longleftrightarrow> dict_get (show_nat (qu_n q)) (ge_answers s) = None"

record session_state =
  ss_name :: string
  ss_status :: string
  ss_answered :: nat
  ss_total :: nat
  ss_percent :: "nat \<times> nat"
  ss_next :: "question option"
  ss_answers :: "(string, string \<times> string) dict"

definition session_status :: "string \<Rightarrow> sessions \<Rightarrow> session_state option" where
  "session_status name store =
     map_option (\<lambda>s. \<lparr>ss_name = ge_name s, ss_status = ge_status s, ss_answered = length (ge_answers s), ss_total = ge_total s,
         ss_percent = (100 * length (ge_answers s), max (ge_total s) 1),
         ss_next = List.find (unanswered s) (ge_questions s),
         ss_answers = ge_answers s\<rparr>)
       (dict_get name store)"

definition list_sessions :: "sessions \<Rightarrow> string list" where
  "list_sessions store = sort (dict_keys store)"

text \<open>The actions of the command line that change a session: the exit code, or an exception.\<close>

definition action_start :: "string \<Rightarrow> string \<Rightarrow> (string \<Rightarrow> string result) \<Rightarrow> string option \<Rightarrow> string \<Rightarrow> sessions
     \<Rightarrow> (int \<times> sessions) result" where
  "action_start sample now read session path store =
     (let name = (case session of Some (c # n) \<Rightarrow> c # n | _ \<Rightarrow> ''sample-session'')
      in rbind (start_session sample now read name path store) (\<lambda>(s, store'). Inr (0, store')))"

definition action_record :: "string \<Rightarrow> string option \<Rightarrow> int option \<Rightarrow> string option \<Rightarrow> sessions
     \<Rightarrow> (int \<times> sessions) result" where
  "action_record now session qid answer store =
     (case (session, qid, answer) of
        (Some (c # n), Some i, Some (d # a)) \<Rightarrow>
          rbind (record_answer now (c # n) i (d # a) store) (\<lambda>(s, store'). Inr (0, store'))
      | _ \<Rightarrow> Inr (1, store))"

definition action_close :: "string \<Rightarrow> string option \<Rightarrow> sessions \<Rightarrow> (int \<times> sessions) result" where
  "action_close now session store =
     (case session of
        Some (c # n) \<Rightarrow> rbind (close_session now (c # n) store) (\<lambda>(s, store'). Inr (0, store'))
      | _ \<Rightarrow> Inr (1, store))"

section \<open>Verifiable goals\<close>

definition digits1 :: regex where "digits1 = Rep 1 None True (Class is_digit)"
definition equals_or_colon :: regex where "equals_or_colon = Class (\<lambda>c. c = CHR ''='' \<or> c = CHR '':'')"
definition any_text :: regex where "any_text = Rep 0 None True any_char"

definition bounded :: "regex list \<Rightarrow> regex" where
  "bounded rs = cats [Bound, alts rs, Bound]"

definition CONCRETE_VERIFY :: regex where
  "CONCRETE_VERIFY = bounded
     [cats [lit_ci ''test'', spaces1, lit_ci ''pass''], lit_ci ''assert'', lit_ci ''assertEqual'', lit_ci ''expect('',
      lit_ci ''.toBe'', lit_ci ''.toEqual'',
      cats [lit_ci ''exit'', spaces1, lit_ci ''code'', spaces, equals_or_colon, spaces, lit ''0''],
      cats [lit_ci ''status'', spaces, equals_or_colon, spaces, lit ''200''],
      Cat (lit_ci ''curl'') (Class is_space), Cat (lit_ci ''grep'') (Class is_space),
      Cat (lit_ci ''diff'') (Class is_space), cats [lit_ci ''python'', any_text, lit_ci ''test''],
      cats [lit_ci ''npm'', spaces1, lit_ci ''test''], lit_ci ''pytest'', lit_ci ''jest'', lit_ci ''measure'',
      lit_ci ''benchmark'', lit_ci ''metric'', cats [lit_ci ''latency'', spaces, lit ''<''],
      cats [lit_ci ''throughput'', spaces, lit ''>'']]"

definition REASONABLE_VERIFY :: regex where
  "REASONABLE_VERIFY = bounded
     (map lit_ci [''verify'', ''check'', ''confirm'', ''inspect'', ''review'', ''compare'', ''validate''] @
      [cats [lit_ci ''run'', spaces1, lit_ci ''and'', spaces1, lit_ci ''see''], lit_ci ''manually'',
       cats [lit_ci ''open'', spaces1, lit_ci ''in'', spaces1, lit_ci ''browser''], lit_ci ''visual'', lit_ci ''screenshot''])"

definition VAGUE_VERIFY :: regex where
  "VAGUE_VERIFY = bounded
     [cats [lit_ci ''should'', spaces1, lit_ci ''work''],
      cats [lit_ci ''look'', maybe (lit_ci ''s''), spaces1, words_ci [''good'', ''right'', ''fine'', ''ok'']],
      cats [lit_ci ''seem'', maybe (lit_ci ''s''), spaces1, words_ci [''correct'', ''fine'']], lit_ci ''hopefully'',
      cats [lit_ci ''probably'', spaces1, lit_ci ''work'', maybe (lit_ci ''s'')]]"

definition bullet :: regex where "bullet = Class (\<lambda>c. c = CHR ''-'' \<or> c = CHR ''*'')"

definition STEP_PATTERN :: regex where
  "STEP_PATTERN = alts
     [cats [digits1, Class (\<lambda>c. c = CHR ''.'' \<or> c = CHR '')''), spaces1],
      cats [bullet, spaces1, lit ''['', any_char, lit '']'', spaces1],
      cats [bullet, spaces1, lit ''Step'', spaces1, digits1]]"

definition VERIFY_LABEL :: regex where
  "VERIFY_LABEL = cats
     [alts [lit_ci ''verify'', lit_ci ''check'', cats [lit_ci ''success'', spaces1, lit_ci ''criteria''],
        cats [lit_ci ''done'', spaces1, lit_ci ''when''], lit_ci ''acceptance''], spaces, lit '':'']"

definition FINAL_CHECK :: regex where
  "FINAL_CHECK = bounded
     [lit_ci ''final'', lit_ci ''end-to-end'', cats [lit_ci ''full'', any_text, lit_ci ''test''], lit_ci ''regression'',
      cats [lit_ci ''all'', any_text, lit_ci ''pass'']]"

record plan_step =
  ps_title :: string
  ps_body :: string

text \<open>The step being read, if any, with the lines of its body.\<close>

fun read_steps :: "(string \<times> string list) option \<Rightarrow> string list \<Rightarrow> plan_step list" where
  "read_steps None [] = []"
| "read_steps (Some (title, body)) [] = [\<lparr>ps_title = title, ps_body = join [chr_nl] body\<rparr>]"
| "read_steps current (line # rest) =
     (if match_prefix STEP_PATTERN (strip line)
      then (case current of
          Some (title, body) \<Rightarrow> \<lparr>ps_title = title, ps_body = join [chr_nl] body\<rparr> # read_steps (Some (strip line, [])) rest
        | None \<Rightarrow> read_steps (Some (strip line, [])) rest)
      else (case current of
          Some (title, body) \<Rightarrow> read_steps (Some (title, body @ [line])) rest
        | None \<Rightarrow> read_steps None rest))"

definition extract_steps :: "string \<Rightarrow> plan_step list" where
  "extract_steps text = read_steps None (splitlines text)"

definition score_step :: "plan_step \<Rightarrow> nat \<times> string" where
  "score_step s =
     (let full = ps_title s @ [chr_nl] @ ps_body s
      in if found CONCRETE_VERIFY full then (3, ''concrete'')
         else if found VERIFY_LABEL full \<and> found REASONABLE_VERIFY full then (2, ''reasonable'')
         else if found REASONABLE_VERIFY full then (2, ''reasonable'')
         else if found VAGUE_VERIFY full then (1, ''vague'')
         else (0, ''none''))"

record step_result =
  sr_title :: string
  sr_score :: nat
  sr_level :: string
  sr_has_label :: bool

definition step_result_of :: "plan_step \<Rightarrow> step_result" where
  "step_result_of s =
     \<lparr>sr_title = take 120 (ps_title s), sr_score = fst (score_step s), sr_level = snd (score_step s),
      sr_has_label = found VERIFY_LABEL (ps_body s)\<rparr>"

record plan_report =
  pr_score :: nat
  pr_max :: nat
  pr_final :: bool
  pr_verdict :: string
  pr_steps :: "step_result list"
  pr_recommendations :: "string list"

definition plan_recommendations :: "step_result list \<Rightarrow> bool \<Rightarrow> string list" where
  "plan_recommendations rs final =
     (let n = length (filter (\<lambda>r. sr_level r = ''none'') rs); v = length (filter (\<lambda>r. sr_level r = ''vague'') rs);
          recs = (if n > 0
              then [show_nat n @ '' step(s) have no verification. Add '' @ [chr_quote] @ ''verify: [check]'' @ [chr_quote] @ '' to each.'']
              else []) @
            (if v > 0
              then [show_nat v @ '' step(s) have vague criteria. Replace '' @ [chr_quote] @ ''should work'' @ [chr_quote] @
                '' with a concrete check.'']
              else []) @
            (if final then [] else [''No final/end-to-end verification step. Add one at the end.''])
      in if recs = [] then [''Plan has strong verification coverage. Good to go.''] else recs)"

text \<open>\<open>None\<close> is the report of a text without steps, which lacks most of the other report's entries.\<close>

definition analyze_plan :: "string \<Rightarrow> plan_report option" where
  "analyze_plan text =
     (let steps = extract_steps text
      in if steps = [] then None
         else let rs = map step_result_of steps; score = sum_list (map sr_score rs); top = 3 * length steps;
                  final = found FINAL_CHECK (ps_title (last steps) @ ps_body (last steps))
              in Some \<lparr>pr_score = score, pr_max = top, pr_final = final,
                  pr_verdict = (if 100 * score \<ge> 70 * top then ''STRONG'' else if 100 * score \<ge> 40 * top then ''WEAK'' else ''MISSING''),
                  pr_steps = rs, pr_recommendations = plan_recommendations rs final\<rparr>)"

text \<open>The entry \<open>percentage\<close>, as a quotient before rounding; the text report reads it in its second line.\<close>

definition report_percentage :: "plan_report option \<Rightarrow> (nat \<times> nat) result" where
  "report_percentage r =
     (case r of
        None \<Rightarrow> Inl (KeyError ''percentage'')
      | Some p \<Rightarrow> Inr (100 * pr_score p, pr_max p))"

section \<open>Diff noise\<close>

definition sign :: regex where "sign = Class (\<lambda>c. c = CHR ''+'' \<or> c = CHR ''-'')"

definition COMMENT_ONLY :: regex where
  "COMMENT_ONLY = cats [sign, spaces, alts [lit ''#'', lit ''//'', lit ''/*'', lit ''*'', lit ''<!--'']]"

definition WHITESPACE_ONLY :: regex where "WHITESPACE_ONLY = cats [sign, spaces, AtEnd]"

definition DOCSTRING_ADD :: regex where
  "DOCSTRING_ADD = cats [lit ''+'', spaces, lit [chr_dquote, chr_dquote, chr_dquote]]"

definition SEMICOLON_CHANGE :: regex where
  "SEMICOLON_CHANGE = cats [sign, any_text, lit '';'', spaces, AtEnd]"

fun after_last :: "string \<Rightarrow> string \<Rightarrow> string option" where
  "after_last sep [] = None"
| "after_last sep (c # s) =
     (case after_last sep s of
        Some r \<Rightarrow> Some r
      | None \<Rightarrow> if starts_with sep (c # s) then Some (drop (length sep) (c # s)) else None)"

type_synonym file_diff = "string \<times> string list"

text \<open>The changed lines of each file; hunk headers are kept apart and not used again.\<close>

fun read_diff :: "file_diff option \<Rightarrow> string list \<Rightarrow> file_diff list" where
  "read_diff None [] = []"
| "read_diff (Some f) [] = [f]"
| "read_diff current (line # rest) =
     (if starts_with ''diff --git'' line
      then (let new = ((case after_last '' b/'' line of Some p \<Rightarrow> p | None \<Rightarrow> ''unknown''), [])
            in case current of
                 Some f \<Rightarrow> (if fst f = [] then [] else [f]) @ read_diff (Some new) rest
               | None \<Rightarrow> read_diff (Some new) rest)
      else if starts_with ''+++ '' line \<or> starts_with ''--- '' line then read_diff current rest
      else if starts_with ''@@'' line then read_diff current rest
      else if starts_with ''+'' line \<or> starts_with ''-'' line
      then read_diff (map_option (\<lambda>(f, ls). (f, ls @ [line])) current) rest
      else read_diff current rest)"

definition parse_hunks :: "string \<Rightarrow> file_diff list" where
  "parse_hunks text = filter (\<lambda>f. fst f \<noteq> []) (read_diff None (splitlines text))"

definition classify_line :: "string \<Rightarrow> string option" where
  "classify_line l =
     (if match_prefix WHITESPACE_ONLY l then Some ''whitespace''
      else if match_prefix COMMENT_ONLY l then Some ''comment-only''
      else if match_prefix DOCSTRING_ADD l then Some ''docstring-addition''
      else if match_prefix SEMICOLON_CHANGE l
      then (let stripped = rstrip (rev (dropWhile (\<lambda>c. c = CHR '';'') (rev (tl l))))
            in if strip stripped = [] then None else Some ''semicolon-style'')
      else None)"

definition same_quotes :: "string \<Rightarrow> string" where
  "same_quotes s = strip (map (\<lambda>c. if c = chr_dquote then chr_quote else c) (tl s))"

text \<open>The arrow between the two lines of a swap, U+2192, in UTF-8.\<close>

definition swap_finding :: "string \<times> string \<Rightarrow> (string \<times> string) option" where
  "swap_finding ad =
     (case ad of (a, d) \<Rightarrow>
        if same_quotes a = same_quotes d \<and> strip (tl a) \<noteq> strip (tl d)
        then Some (''quote-style-swap'', take 60 d @ '' '' @ [CHR 0xE2, CHR 0x86, CHR 0x92] @ '' '' @ take 60 a)
        else None)"

definition analyze_file_diff :: "file_diff \<Rightarrow> (string \<times> string) list" where
  "analyze_file_diff f =
     (let ls = snd f
      in List.map_filter (\<lambda>l. map_option (\<lambda>cat. (cat, take 120 l)) (classify_line l)) ls @
         List.map_filter swap_finding
           (zip (sort (filter (starts_with ''+'') ls)) (sort (filter (starts_with ''-'') ls))))"

definition diff_verdict :: "string \<Rightarrow> string" where
  "diff_verdict text =
     (let fs = parse_hunks text; noise = length (concat (map analyze_file_diff fs));
          total = length (concat (map snd fs))
      in if total = 0 \<or> 10 * noise < total then ''CLEAN'' else if 10 * noise < 3 * total then ''NOISY'' else ''VERY_NOISY'')"

text \<open>The exit code: an empty diff and a JSON report end before it is set.\<close>

definition surgeon_exit :: "bool \<Rightarrow> string \<Rightarrow> int" where
  "surgeon_exit json_output text =
     (if strip text = [] \<or> json_output then 0 else if diff_verdict text \<noteq> ''CLEAN'' then 1 else 0)"

section \<open>Hidden assumptions\<close>

definition ASSUMPTION_SIGNALS :: "(regex \<times> string \<times> string) list" where
  "ASSUMPTION_SIGNALS =
     [(bounded [lit_ci (quote_s ''I'' ''ll just''), lit_ci ''let me just'', lit_ci ''we can just'', lit_ci ''just''],
       ''assumption-just'', quote_s [] ''just'' @ quote_s [] '' often hides complexity. '' @ quote_s ''What'' ''s being skipped?''),
      (bounded (map lit_ci [''obviously'', ''clearly'', ''of course'', ''naturally'']),
       ''assumption-obvious'', ''Signals an unstated assumption. Is it really obvious?''),
      (bounded (map lit_ci [''simply'', ''straightforward'', ''trivial'', ''easy'']),
       ''assumption-simple'', ''Minimizing language. Could be hiding real complexity.''),
      (bounded [lit_ci ''should be fine'', lit_ci ''should work'', lit_ci (quote_s ''shouldn'' ''t be a problem'')],
       ''assumption-hopeful'', ''Hopeful rather than verified. How will you confirm?''),
      (bounded [lit_ci ''I assume'', lit_ci ''assuming'', lit_ci (quote_s ''I'' ''m guessing''), lit_ci ''probably''],
       ''assumption-explicit'', ''At least '' @ quote_s ''it'' ''s explicit '' @ [CHR 0xE2, CHR 0x80, CHR 0x94] @ '' but have you verified?''),
      (bounded (map lit_ci [''all users'', ''every'', ''everything'', ''always'', ''never'']),
       ''scope-absolute'', ''Absolute scope. Is that really the case?'')]"

definition MISSING_CLARIFICATION :: "(regex \<times> string \<times> string) list" where
  "MISSING_CLARIFICATION =
     [(cats [bounded (map lit_ci [''export'', ''import'', ''save'', ''load'', ''fetch'', ''send'']), any_text,
         bounded (map lit_ci [''data'', ''file'', ''users''])],
       ''missing-format'', ''Export/save/fetch mentioned but format not specified (JSON? CSV? API?)''),
      (bounded (map lit_ci [''fix'', ''improve'', ''optimize'', ''refactor'', ''update'']),
       ''vague-action'', ''Vague action verb. What specifically changes? '' @ quote_s ''What'' ''s the measurable improvement?''),
      (cats [bounded (map lit_ci [''handle'', ''deal with'', ''take care of'']), any_text,
         bounded (map lit_ci [''error'', ''edge'', ''case''])],
       ''vague-error-handling'', ''Error handling mentioned vaguely. Which errors? What behavior?''),
      (Cat (bounded (map lit_ci [''the user'', ''users'']))
         (Not_ahead (Cat any_text (bounded (map lit_ci [''who'', ''which'', ''specific'', ''certain'', ''admin'', ''role''])))),
       ''unscoped-user'', ''Which user(s)? All? Specific role? Authenticated only?'')]"

record assumption =
  as_line :: nat
  as_category :: string
  as_matched :: string
  as_message :: string
  as_context :: string

definition line_assumptions :: "nat \<times> string \<Rightarrow> assumption list" where
  "line_assumptions nl =
     (let s = strip (snd nl);
          finding = (\<lambda>cat msg m. \<lparr>as_line = fst nl, as_category = cat, as_matched = m, as_message = msg, as_context = take 120 s\<rparr>)
      in if s = [] \<or> starts_with ''#'' s then []
         else concat (map (\<lambda>(r, cat, msg). map (finding cat msg) (findall r s)) ASSUMPTION_SIGNALS) @
           concat (map (\<lambda>(r, cat, msg). case search r s of
               Some (before, m, q) \<Rightarrow> [finding cat msg m] | None \<Rightarrow> []) MISSING_CLARIFICATION))"

text \<open>A block of numbered lines; the line break before it is not part of the block.\<close>

definition PLAN_BLOCK :: regex where
  "PLAN_BLOCK = Cat (Alt AtStart (lit [chr_nl]))
     (Rep 1 None True (cats [digits1, lit ''.'', spaces1, Rep 1 None True any_char, maybe (lit [chr_nl])]))"

definition block_text :: "string \<Rightarrow> string" where
  "block_text m = (if m \<noteq> [] \<and> hd m = chr_nl then tl m else m)"

definition HAS_VERIFICATION :: regex where
  "HAS_VERIFICATION = bounded
     (map lit_ci [''test'', ''verify'', ''check'', ''assert'', ''confirm'', ''ensure'', ''validate''])"

definition on_one_line :: "string \<Rightarrow> string" where
  "on_one_line s = map (\<lambda>c. if c = chr_nl then CHR '' '' else c) s"

definition block_assumption :: "string \<Rightarrow> assumption option" where
  "block_assumption b =
     (if found HAS_VERIFICATION b then None
      else Some \<lparr>as_line = 0, as_category = ''missing-verification'', as_matched = on_one_line (take 80 b),
          as_message = ''Plan block has no verification step. Add '' @ [chr_quote] @ ''verify:'' @ [chr_quote] @ '' checks.'',
          as_context = on_one_line (take 120 b)\<rparr>)"

definition lint_text :: "string \<Rightarrow> assumption list" where
  "lint_text text =
     concat (map line_assumptions (enumerate 1 (splitlines text))) @
     List.map_filter block_assumption (map block_text (findall PLAN_BLOCK text))"

definition assumptions_verdict :: "string \<Rightarrow> string" where
  "assumptions_verdict text =
     (let n = length (lint_text text)
      in if n = 0 then ''CLEAN'' else if n < 5 then ''REVIEW'' else ''CLARIFY'')"


section \<open>An interrogation taken in turn\<close>

text \<open>A user who answers whatever question the status shows next, one answer after the other.\<close>

fun answer_in_turn :: "string \<Rightarrow> string \<Rightarrow> string list \<Rightarrow> sessions \<Rightarrow> sessions result" where
  "answer_in_turn now name [] store = Inr store"
| "answer_in_turn now name (a # as) store =
     (case session_status name store of
        None \<Rightarrow> Inl (ValueError (''Session not found: '' @ name))
      | Some st \<Rightarrow>
          (case ss_next st of
             None \<Rightarrow> Inr store
           | Some q \<Rightarrow> rbind (record_answer now name (int (qu_n q)) a store)
               (\<lambda>(s, store'). answer_in_turn now name as store')))"

lemma show_nat_inj [simp]: "show_nat m = show_nat n \<longleftrightarrow> m = n"
  by (metis foldl_show_nat of_nat_eq_iff)

lemma show_int_of_nat [simp]: "show_int (int n) = show_nat n"
  by (simp add: show_int_def)

text \<open>A session whose first questions have been answered in order, the others not at all.\<close>

definition answered_to :: "string \<Rightarrow> string list \<Rightarrow> grill_session \<Rightarrow> bool" where
  "answered_to now done s \<longleftrightarrow>
     map qu_n (ge_questions s) = [1..<Suc (ge_total s)] \<and> length done \<le> ge_total s \<and>
     ge_answers s = map (\<lambda>(i, a). (show_nat i, a, now)) (enumerate 1 done)"

lemma dict_get_enumerate:
  "dict_get (show_nat k) (map (\<lambda>(i, a). (show_nat i, a, now)) (enumerate n as)) =
     (if n \<le> k \<and> k < n + length as then Some (as ! (k - n), now) else None)"
proof (induction as arbitrary: n)
  case (Cons a as)
  show ?case by (cases "k = n") (auto simp: Cons.IH Suc_diff_Suc nth_Cons')
qed simp

lemma dict_set_at_end: "dict_get k d = None \<Longrightarrow> dict_set k v d = d @ [(k, v)]"
  by (induction d) (auto simp: dict_set_def dict_get_def split: if_splits)

lemma answered_to_unanswered:
  "answered_to now done s \<Longrightarrow> q \<in> set (ge_questions s) \<Longrightarrow> unanswered s q \<longleftrightarrow> length done < qu_n q"
proof -
  assume a: "answered_to now done s" and q: "q \<in> set (ge_questions s)"
  have "qu_n q \<in> set (map qu_n (ge_questions s))" using q by simp
  then have "1 \<le> qu_n q" using a unfolding answered_to_def by (auto simp del: set_map)
  then show ?thesis using a by (auto simp: unanswered_def answered_to_def dict_get_enumerate)
qed

lemma answered_to_length: "answered_to now done s \<Longrightarrow> length (ge_questions s) = ge_total s"
  unfolding answered_to_def by (metis length_map length_upt diff_Suc_1)

lemma answered_to_nth: "answered_to now done s \<Longrightarrow> i < ge_total s \<Longrightarrow> qu_n (ge_questions s ! i) = Suc i"
proof -
  assume a: "answered_to now done s" and i: "i < ge_total s"
  have "qu_n (ge_questions s ! i) = map qu_n (ge_questions s) ! i" using answered_to_length [OF a] i by simp
  then show ?thesis using a i unfolding answered_to_def by (simp del: upt_Suc)
qed

lemma next_question:
  assumes a: "answered_to now done s"
  shows "List.find (unanswered s) (ge_questions s) =
    (if length done < ge_total s then Some (ge_questions s ! length done) else None)"
proof (cases "length done < ge_total s")
  case True
  have "unanswered s (ge_questions s ! length done)"
    using answered_to_unanswered [OF a] answered_to_nth [OF a True] answered_to_length [OF a] True by simp
  moreover have "\<not> unanswered s (ge_questions s ! i)" if "i < length done" for i
    using answered_to_unanswered [OF a, of "ge_questions s ! i"] answered_to_nth [OF a, of i] answered_to_length [OF a] True that
    by simp
  ultimately show ?thesis using True answered_to_length [OF a]
    by (auto simp: find_Some_iff)
next
  case False
  have "\<not> unanswered s q" if q: "q \<in> set (ge_questions s)" for q
  proof -
    obtain i where "i < ge_total s" "q = ge_questions s ! i"
      using q answered_to_length [OF a] by (auto simp: in_set_conv_nth)
    then show ?thesis using answered_to_unanswered [OF a q] answered_to_nth [OF a] False by simp
  qed
  then show ?thesis using False by (auto simp: find_None_iff)
qed

lemma answered_to_record:
  assumes a: "answered_to now done s" and l: "length done < ge_total s"
  shows "answered_to now (done @ [x])
    (s\<lparr>ge_answers := dict_set (show_nat (Suc (length done))) (x, now) (ge_answers s)\<rparr>)"
  using a l by (simp add: answered_to_def dict_set_at_end dict_get_enumerate enumerate_append_eq)

lemma answering_in_turn:
  assumes "dict_get name store = Some s" "answered_to now done s" "length done + length as \<le> ge_total s"
  shows "\<exists>store' s'. answer_in_turn now name as store = Inr store' \<and> dict_get name store' = Some s' \<and>
    answered_to now (done @ as) s' \<and> ge_total s' = ge_total s \<and> ge_questions s' = ge_questions s"
  using assms
proof (induction as arbitrary: store s "done")
  case (Cons a as)
  let ?s = "s\<lparr>ge_answers := dict_set (show_nat (Suc (length done))) (a, now) (ge_answers s)\<rparr>"
  have l: "length done < ge_total s" using Cons.prems(3) by simp
  have step: "answer_in_turn now name (a # as) store = answer_in_turn now name as (dict_set name ?s store)"
    using Cons.prems(1) next_question [OF Cons.prems(2)] l answered_to_nth [OF Cons.prems(2) l]
    by (simp add: session_status_def record_answer_def load_session_def Let_def del: of_nat_Suc)
  show ?case
    using Cons.IH [of "dict_set name ?s store" ?s "done @ [a]"] answered_to_record [OF Cons.prems(2) l] Cons.prems(3)
    unfolding step by simp
qed auto

lemma questions_numbered: "map qu_n (generate_questions bs) = [1..<Suc (length (generate_questions bs))]"
proof -
  have "map qu_n (map question_of ps) = map fst ps" for ps by (induction ps) (auto simp: question_of_def)
  then show ?thesis by (simp add: generate_questions_def del: map_map upt_Suc)
qed

lemma fresh_session_numbered:
  assumes "start_session sample now read name path store = Inr (s, store1)"
  shows "dict_get name store1 = Some s" "answered_to now' [] s"
  using assms by (auto simp: start_session_def rbind_eq_Inr answered_to_def Let_def questions_numbered simp del: upt_Suc)

text \<open>
  C40. Whatever the plan, a user who answers the questions the status shows, one after the other, comes to
  the end after as many answers as the session has questions: then no question is left, every one is
  counted as answered, and the answers stand under the numbers 1, 2, ... in the order given.
\<close>

theorem interrogation_finishes:
  assumes "start_session sample now read name path store = Inr (s, store1)" "length answers = ge_total s"
  shows "\<exists>store2 st. answer_in_turn now' name answers store1 = Inr store2 \<and> session_status name store2 = Some st \<and>
    ss_next st = None \<and> ss_answered st = ss_total st \<and>
    (\<forall>i < length answers. dict_get (show_nat (Suc i)) (ss_answers st) = Some (answers ! i, now'))"
proof -
  obtain store2 s' where r: "answer_in_turn now' name answers store1 = Inr store2" "dict_get name store2 = Some s'"
      "answered_to now' answers s'" "ge_total s' = ge_total s"
    using answering_in_turn [OF fresh_session_numbered [OF assms(1)], of answers now'] assms(2) by auto
  have "ge_answers s' = map (\<lambda>(i, a). (show_nat i, a, now')) (enumerate 1 answers)"
    using r(3) unfolding answered_to_def by blast
  then show ?thesis using r assms(2) next_question [OF r(3)]
    by (simp add: session_status_def dict_get_enumerate)
qed

lemmas tbd_eval = DECISION_PATTERNS_def search_def regex_eval spaces_def spaces1_def maybe_def words_ci_def
  any_char_def quote_s_def below_def

lemma tbd_search_0: "search (fst (DECISION_PATTERNS ! 0)) ''TBD'' = None" by (simp add: tbd_eval)
lemma tbd_search_1: "search (fst (DECISION_PATTERNS ! 1)) ''TBD'' = None" by (simp add: tbd_eval)
lemma tbd_search_2: "search (fst (DECISION_PATTERNS ! 2)) ''TBD'' = None" by (simp add: tbd_eval)
lemma tbd_search_3: "search (fst (DECISION_PATTERNS ! 3)) ''TBD'' = Some ([], ''TBD'', (Some CHR ''D'', []))"
  by (simp add: tbd_eval)

lemma first_patterns: "DECISION_PATTERNS =
    (fst (DECISION_PATTERNS ! 0), ''intent'') # (fst (DECISION_PATTERNS ! 1), ''choice'') #
    (fst (DECISION_PATTERNS ! 2), ''choice'') # (fst (DECISION_PATTERNS ! 3), ''open'') # drop 4 DECISION_PATTERNS"
  unfolding DECISION_PATTERNS_def by simp

lemma tbd_match: "first_match ''TBD'' DECISION_PATTERNS = Some (''TBD'', ''open'')"
  by (subst first_patterns)
    (simp only: first_match.simps tbd_search_0 tbd_search_1 tbd_search_2 tbd_search_3 option.case prod.case)

lemma tbd_plan: "extract_branches ''TBD'' =
    [\<lparr>br_line = 1, br_kind = ''open'', br_trigger = ''TBD'', br_context = ''TBD''\<rparr>]"
proof -
  have "splitlines ''TBD'' = [''TBD'']" by (simp add: break_rest_def is_break_def code_def)
  moreover have "strip ''TBD'' = ''TBD''" by (simp add: strip_def lstrip_def rstrip_def is_space_def code_def)
  ultimately show ?thesis
    by (simp add: extract_branches_def List.map_filter_simps line_branch_def tbd_match)
qed

theorem interrogation_finishes_witness:
  "\<exists>store1 store2 st. start_session [] ''t0'' (\<lambda>p. Inr ''TBD'') ''s'' ''p'' [] = Inr store1 \<and>
    answer_in_turn ''t1'' ''s'' [''yes''] (snd store1) = Inr store2 \<and> session_status ''s'' store2 = Some st \<and>
    ss_next st = None \<and> dict_get ''1'' (ss_answers st) = Some (''yes'', ''t1'')"
proof -
  obtain s store1 where s: "start_session [] ''t0'' (\<lambda>p. Inr ''TBD'') ''s'' ''p'' [] = Inr (s, store1)" "ge_total s = 1"
    by (simp add: start_session_def tbd_plan Let_def generate_questions_def order_branches_def)
  obtain store2 st where "answer_in_turn ''t1'' ''s'' [''yes''] store1 = Inr store2" "session_status ''s'' store2 = Some st"
      "ss_next st = None" "\<forall>i < length [''yes'']. dict_get (show_nat (Suc i)) (ss_answers st) = Some ([''yes''] ! i, ''t1'')"
    using interrogation_finishes [OF s(1), of "[''yes'']" "''t1''"] s(2) by auto
  moreover have "show_nat (Suc 0) = ''1''" by (simp add: show_nat.simps [of "Suc 0"] digit_char_def char_of_def bit_0)
  ultimately show ?thesis using s(1) by (intro exI [of _ "(s, store1)"] exI [of _ store2] exI [of _ st]) simp
qed

text \<open>Every branch is asked about once, whatever the order.\<close>

theorem branches_asked_once:
  "mset (map (\<lambda>q. (qu_line q, qu_kind q, qu_context q)) (generate_questions bs)) =
     mset (map (\<lambda>b. (br_line b, br_kind b, br_context b)) bs)"
proof -
  have "map (\<lambda>q. (qu_line q, qu_kind q, qu_context q)) (map question_of ps) =
      map (\<lambda>b. (br_line b, br_kind b, br_context b)) (map snd ps)" for ps
    by (induction ps) (auto simp: question_of_def)
  then have "map (\<lambda>q. (qu_line q, qu_kind q, qu_context q)) (generate_questions bs) =
      map (\<lambda>b. (br_line b, br_kind b, br_context b)) (order_branches bs)"
    by (simp add: generate_questions_def del: map_map)
  moreover have "mset (order_branches bs) = mset bs"
    by (simp add: order_branches_def)
  ultimately show ?thesis by simp
qed

text \<open>An answer to a question the session does not have counts as progress.\<close>

theorem stray_answer_counts:
  assumes s: "dict_get name store = Some s" and fresh: "dict_get (show_int qid) (ge_answers s) = None"
    and stray: "qid \<notin> int ` qu_n ` set (ge_questions s)"
  shows "\<exists>s' store' st st'. record_answer now name qid answer store = Inr (s', store') \<and>
    session_status name store = Some st \<and> session_status name store' = Some st' \<and>
    ss_answered st' = Suc (ss_answered st) \<and> ss_next st' = ss_next st"
proof -
  let ?s = "s\<lparr>ge_answers := dict_set (show_int qid) (answer, now) (ge_answers s)\<rparr>"
  have "unanswered ?s q = unanswered s q" if "q \<in> set (ge_questions s)" for q
  proof -
    have "int (qu_n q) \<noteq> qid" using stray that by auto
    then have "show_nat (qu_n q) \<noteq> show_int qid" by (metis parse_show_int show_int_of_nat option.inject)
    then show ?thesis by (simp add: unanswered_def)
  qed
  then have "List.find (unanswered ?s) (ge_questions s) = List.find (unanswered s) (ge_questions s)"
    by (intro find_cong) auto
  then show ?thesis using s fresh
    by (simp add: record_answer_def load_session_def session_status_def Let_def dict_set_at_end)
qed

section \<open>Verdicts\<close>

lemma score_step_bound: "fst (score_step s) \<le> 3"
  by (simp add: score_step_def Let_def)

theorem plan_score_bounded: "analyze_plan text = Some r \<Longrightarrow> pr_score r \<le> pr_max r \<and> pr_max r = 3 * length (pr_steps r)"
proof -
  have "sum_list (map sr_score (map step_result_of ss)) \<le> 3 * length ss" for ss
    by (induction ss) (auto simp: step_result_of_def intro: add_mono score_step_bound)
  then show "analyze_plan text = Some r \<Longrightarrow> ?thesis"
    by (auto simp: analyze_plan_def Let_def split: if_splits)
qed

text \<open>The text report of a text without steps cannot be printed.\<close>

lemma no_plan_no_report: "extract_steps text = [] \<Longrightarrow> report_percentage (analyze_plan text) = Inl (KeyError ''percentage'')"
  by (simp add: analyze_plan_def report_percentage_def)

text \<open>Every changed line of code that ends in a semicolon is taken for noise, whatever the change.\<close>

lemma power_class: "\<forall>d \<in> set w. P d \<Longrightarrow> (leads (Class P) ^^ length w) (prev, w @ v) (place_after prev w, v)"
proof (induction w arbitrary: prev)
  case (Cons d w)
  have "place_after prev (d # w) = place_after (Some d) w" by (simp add: place_after_def)
  then have "(leads (Class P) ^^ length w) (Some d, w @ v) (place_after prev (d # w), v)"
    using Cons.IH [of "Some d"] Cons.prems by (simp del: leads.simps)
  moreover have "leads (Class P) (prev, (d # w) @ v) (Some d, w @ v)" using Cons.prems by simp
  ultimately show ?case by (auto simp: relpowp_Suc_left simp del: relpowp.simps)
qed (simp add: place_after_def)

lemma leads_run: "\<forall>d \<in> set w. P d \<Longrightarrow> leads (Rep 0 None g (Class P)) (prev, w @ v) (place_after prev w, v)"
  using power_class [of w P prev v] by (auto simp: below_def simp del: leads.simps(2))

lemma rev_dropWhile_keeps: "d \<in> set w \<Longrightarrow> \<not> P d \<Longrightarrow> d \<in> set (rev (dropWhile P (rev w)))"
  by (induction w rule: rev_induct) auto

lemma lstrip_keeps: "d \<in> set w \<Longrightarrow> \<not> is_space d \<Longrightarrow> d \<in> set (lstrip w)"
  by (induction w) (auto simp: lstrip_def)

lemma rstrip_keeps: "d \<in> set w \<Longrightarrow> \<not> is_space d \<Longrightarrow> d \<in> set (rstrip w)"
  unfolding rstrip_def by (rule rev_dropWhile_keeps)

theorem semicolon_lines_are_noise:
  assumes c: "c = CHR ''+'' \<or> c = CHR ''-''" and w: "\<forall>d \<in> set w. d \<noteq> chr_nl"
    and d: "d \<in> set w" "\<not> is_space d" "d \<noteq> CHR '';''"
  shows "classify_line (c # w @ '';'') \<noteq> None"
proof -
  have "leads sign (None, c # w @ '';'') (Some c, w @ '';'')" using c by (auto simp: sign_def)
  moreover have "leads any_text (Some c, w @ '';'') (place_after (Some c) w, '';'')"
    using leads_run [of w "\<lambda>d. d \<noteq> chr_nl" True] w by (simp add: any_text_def any_char_def)
  moreover have "leads (lit '';'') (p, '';'') (Some (CHR '';''), [])" for p by (auto intro: relcomppI)
  moreover have "leads spaces (Some (CHR '';''), []) (Some (CHR '';''), [])"
    using leads_run [of "[]" is_space True "Some (CHR '';'')" "[]"] by (simp add: spaces_def place_after_def)
  moreover have "leads AtEnd (Some (CHR '';''), []) (Some (CHR '';''), [])" by (simp add: at_end_def)
  ultimately have "leads SEMICOLON_CHANGE (None, c # w @ '';'') (Some (CHR '';''), [])"
    unfolding SEMICOLON_CHANGE_def cats.simps leads.simps(3) by blast
  then have m: "match_prefix SEMICOLON_CHANGE (c # w @ '';'')"
    unfolding match_prefix_def using match_at_None by blast
  let ?t = "rev (dropWhile (\<lambda>c. c = CHR '';'') (rev (w @ '';'')))"
  have "d \<in> set ?t" by (rule rev_dropWhile_keeps) (use d in auto)
  then have "strip (rstrip ?t) \<noteq> []"
    using rstrip_keeps [OF lstrip_keeps [OF rstrip_keeps]] d(2) unfolding strip_def by (metis emptyE list.set(1))
  then show ?thesis using m by (simp add: classify_line_def)
qed

end
