(* ===== verification/Checks.thy ===== *)
theory Checks
  imports Regex Prelude "HOL-Library.Multiset"
begin

text \<open>
  The two scripts that check source code: \<open>complexity_checker.py\<close> of the karpathy-coder skill, which
  works on the text with patterns, and \<open>check_docstrings.py\<close>, which works on the tree that Python's
  \<open>ast\<close> module parses; the parser is an argument. A finding holds the values its message prints, and
  an average is a quotient. Texts are in ASCII; a path is its normal form.
\<close>

section \<open>Thresholds\<close>

record thresholds =
  th_cyclomatic :: nat
  th_nesting :: nat
  th_function_lines :: nat
  th_imports :: nat
  th_classes_per_100 :: nat
  th_file_lines :: nat

definition THRESHOLDS :: "(string, thresholds) dict" where
  "THRESHOLDS =
     [(''strict'', \<lparr>th_cyclomatic = 5, th_nesting = 3, th_function_lines = 30, th_imports = 10,
         th_classes_per_100 = 2, th_file_lines = 300\<rparr>),
      (''medium'', \<lparr>th_cyclomatic = 8, th_nesting = 4, th_function_lines = 50, th_imports = 15,
         th_classes_per_100 = 3, th_file_lines = 500\<rparr>),
      (''relaxed'', \<lparr>th_cyclomatic = 12, th_nesting = 5, th_function_lines = 80, th_imports = 25,
         th_classes_per_100 = 5, th_file_lines = 1000\<rparr>)]"

section \<open>Patterns\<close>

datatype lang = Python | TypeScript

definition line_start :: "regex list \<Rightarrow> regex" where
  "line_start rs = cats (AtLine # rs)"

definition word1 :: regex where "word1 = Rep 1 None True (Class word_char)"
definition non_spaces :: regex where "non_spaces = Rep 1 None True (Class (\<lambda>c. \<not> is_space c))"

definition opened :: "string \<Rightarrow> regex" where
  "opened w = cats [lit w, spaces, lit ''('']"

definition BRANCH_KEYWORDS_PY :: regex where
  "BRANCH_KEYWORDS_PY = line_start
     [spaces, alts (map lit [''if '', ''elif '', ''for '', ''while '', ''except '', ''with '', ''and '', ''or '', ''case ''])]"

definition BRANCH_KEYWORDS_TS :: regex where
  "BRANCH_KEYWORDS_TS = line_start
     [spaces, alts [opened ''if'', lit ''else if'', opened ''for'', opened ''while'', opened ''catch'', lit ''case '',
        opened ''switch'', lit ''??'', lit ''&&'', lit ''||'']]"

definition FUNC_DEF_PY :: regex where
  "FUNC_DEF_PY = line_start [spaces, maybe (Cat (lit ''async'') spaces1), lit ''def'', spaces1, word1]"

definition FUNC_DEF_TS :: regex where
  "FUNC_DEF_TS = line_start
     [spaces, maybe (Cat (lit ''export'') spaces1), maybe (Cat (lit ''async'') spaces1),
      Alt (cats [lit ''function'', spaces1, word1])
        (cats [Alt (lit ''const'') (lit ''let''), spaces1, word1, spaces, lit ''='', spaces,
           maybe (Cat (lit ''async'') spaces1), lit ''(''])]"

definition CLASS_DEF_PY :: regex where
  "CLASS_DEF_PY = line_start [spaces, lit ''class'', spaces1, word1]"

definition CLASS_DEF_TS :: regex where
  "CLASS_DEF_TS = line_start
     [spaces, maybe (Cat (lit ''export'') spaces1), maybe (Cat (lit ''abstract'') spaces1), lit ''class'', spaces1, word1]"

definition IMPORT_PY :: regex where
  "IMPORT_PY = line_start [Alt (lit ''import '') (cats [lit ''from '', non_spaces, lit '' import ''])]"

definition IMPORT_TS :: regex where
  "IMPORT_TS = line_start [lit ''import'', spaces1]"

definition ABC_PATTERN :: regex where
  "ABC_PATTERN = alts [lit ''ABC'', lit ''abstractmethod'', lit ''Protocol'', lit ''@abstract'',
     cats [lit ''Abstract'', word1, lit ''Base'']]"

definition INDENT_RE :: regex where
  "INDENT_RE = line_start [Rep 0 None True (Class (\<lambda>c. c = CHR '' '')), Class (\<lambda>c. \<not> is_space c)]"

section \<open>One file\<close>

text \<open>\<open>Path.name\<close> and \<open>Path.suffix\<close>.\<close>

definition path_name :: "string \<Rightarrow> string" where
  "path_name p = last (split_on CHR ''/'' p)"

definition path_suffix :: "string \<Rightarrow> string" where
  "path_suffix p =
     (let name = path_name p; ext = rev (takeWhile (\<lambda>c. c \<noteq> CHR ''.'') (rev name))
      in if ext \<noteq> [] \<and> length ext + 1 < length name then CHR ''.'' # ext else [])"

definition detect_lang :: "string \<Rightarrow> lang option" where
  "detect_lang path =
     (let ext = lower (path_suffix path)
      in if ext = ''.py'' then Some Python
         else if ext \<in> set [''.ts'', ''.tsx'', ''.js'', ''.jsx''] then Some TypeScript
         else None)"

definition count_branches :: "string \<Rightarrow> lang \<Rightarrow> nat" where
  "count_branches text l =
     length (findall (case l of Python \<Rightarrow> BRANCH_KEYWORDS_PY | TypeScript \<Rightarrow> BRANCH_KEYWORDS_TS) text)"

text \<open>\<open>finditer\<close>: every match with the text in front of it.\<close>

fun with_prefix :: "string \<Rightarrow> (string \<times> string) list \<Rightarrow> (string \<times> string) list" where
  "with_prefix u [] = []"
| "with_prefix u ((before, m) # ms) = (u @ before, m) # with_prefix (u @ before @ m) ms"

definition finditer :: "regex \<Rightarrow> string \<Rightarrow> (string \<times> string) list" where
  "finditer r s = with_prefix [] (fst (matches_from (Suc (length s)) r (None, s)))"

definition func_pattern :: "lang \<Rightarrow> regex" where
  "func_pattern l = (case l of Python \<Rightarrow> FUNC_DEF_PY | TypeScript \<Rightarrow> FUNC_DEF_TS)"

text \<open>
  The group that holds the name: the word at the end of a match, or, where the match ends with an
  opening parenthesis, the word behind \<open>const\<close> or \<open>let\<close>.
\<close>

fun words_of :: "string \<Rightarrow> string list" where
  "words_of [] = []"
| "words_of (c # s) =
     (if word_char c
      then (case s of
          [] \<Rightarrow> [[c]]
        | d # s' \<Rightarrow> if word_char d then (case words_of s of w # ws \<Rightarrow> (c # w) # ws | [] \<Rightarrow> [[c]])
            else [c] # words_of s)
      else words_of s)"

definition func_name :: "string \<Rightarrow> string" where
  "func_name m =
     (if last m = CHR ''(''
      then hd (tl (dropWhile (\<lambda>w. w \<noteq> ''const'' \<and> w \<noteq> ''let'') (words_of m)))
      else last (words_of m))"

definition ends_function :: "lang \<Rightarrow> nat \<Rightarrow> string \<Rightarrow> bool" where
  "ends_function l indent stripped \<longleftrightarrow>
     (let inner = lstrip stripped
      in length stripped - length inner \<le> indent \<and> inner \<noteq> [] \<and>
         \<not> list_ex (\<lambda>p. starts_with p inner) [''#'', ''//'', ''/*'', ''*''] \<and>
         (case l of
            Python \<Rightarrow> starts_with ''def '' inner \<or> starts_with ''class '' inner \<or> starts_with ''async def '' inner
          | TypeScript \<Rightarrow> match_prefix FUNC_DEF_TS stripped))"

text \<open>The end of a function so far, and the lines behind its first with their numbers from 0.\<close>

fun function_end :: "lang \<Rightarrow> nat \<Rightarrow> nat \<Rightarrow> (nat \<times> string) list \<Rightarrow> nat" where
  "function_end l indent stop [] = stop"
| "function_end l indent stop ((i, line) # rest) =
     (let stripped = rstrip line
      in if stripped = [] then function_end l indent stop rest
         else if ends_function l indent stripped then stop
         else function_end l indent (i + 1) rest)"

record func_info =
  fu_name :: string
  fu_start_line :: nat
  fu_lines :: nat

definition count_newlines :: "string \<Rightarrow> nat" where
  "count_newlines s = length (filter (\<lambda>c. c = chr_nl) s)"

definition func_of :: "lang \<Rightarrow> string list \<Rightarrow> string \<times> string \<Rightarrow> func_info" where
  "func_of l lines um =
     (case um of (u, m) \<Rightarrow>
        let start = count_newlines u; indent = length m - length (lstrip m);
            stop = function_end l indent (start + 1) (drop (start + 1) (enumerate 0 lines))
        in \<lparr>fu_name = func_name m, fu_start_line = start + 1, fu_lines = stop - start\<rparr>)"

definition extract_functions :: "string \<Rightarrow> lang \<Rightarrow> func_info list" where
  "extract_functions text l = map (func_of l (splitlines text)) (finditer (func_pattern l) text)"

definition max_nesting :: "string \<Rightarrow> lang \<Rightarrow> nat" where
  "max_nesting text l =
     (let step = (case l of Python \<Rightarrow> 4 | TypeScript \<Rightarrow> 2)
      in foldr max (map (\<lambda>m. (length m - 1) div step) (findall INDENT_RE text)) 0)"

datatype smell =
    FileLength nat nat
  | ImportCount nat nat
  | ClassDensity nat nat
  | PrematureAbstraction
  | NestingDepth nat nat
  | CyclomaticComplexity nat nat nat
  | FunctionLength string nat nat nat

record file_report =
  fr_file :: string
  fr_lang :: lang
  fr_lines :: nat
  fr_functions :: nat
  fr_classes :: nat
  fr_imports :: nat
  fr_nesting :: nat
  fr_cyclomatic :: "nat \<times> nat"
  fr_score :: nat
  fr_findings :: "smell list"

text \<open>A check that reports something when its condition holds.\<close>

definition flag :: "bool \<Rightarrow> smell \<Rightarrow> smell list" where
  "flag b f = (if b then [f] else [])"

definition file_smells :: "thresholds \<Rightarrow> nat \<Rightarrow> nat \<Rightarrow> nat \<Rightarrow> bool \<Rightarrow> nat \<Rightarrow> nat \<Rightarrow> func_info list \<Rightarrow> smell list" where
  "file_smells th lines imports classes abstract depth branches funcs =
     flag (lines > th_file_lines th) (FileLength lines (th_file_lines th)) @
     flag (imports > th_imports th) (ImportCount imports (th_imports th)) @
     flag (lines > 0 \<and> 100 * classes > th_classes_per_100 th * lines) (ClassDensity classes lines) @
     flag (classes > 0 \<and> lines < 200 \<and> abstract) PrematureAbstraction @
     flag (depth > th_nesting th) (NestingDepth depth (th_nesting th)) @
     flag (branches > th_cyclomatic th * max (length funcs) 1)
       (CyclomaticComplexity branches (max (length funcs) 1) (th_cyclomatic th)) @
     concat (map (\<lambda>f. flag (fu_lines f > th_function_lines th)
       (FunctionLength (fu_name f) (fu_lines f) (th_function_lines th) (fu_start_line f))) funcs)"

definition analyze_file :: "string \<Rightarrow> string \<Rightarrow> thresholds \<Rightarrow> file_report option" where
  "analyze_file path text th =
     map_option (\<lambda>l.
       let lines = length (splitlines text);
           imports = length (findall (case l of Python \<Rightarrow> IMPORT_PY | TypeScript \<Rightarrow> IMPORT_TS) text);
           classes = length (findall (case l of Python \<Rightarrow> CLASS_DEF_PY | TypeScript \<Rightarrow> CLASS_DEF_TS) text);
           depth = max_nesting text l; branches = count_branches text l; funcs = extract_functions text l;
           fs = file_smells th lines imports classes (found ABC_PATTERN text) depth branches funcs
       in \<lparr>fr_file = path, fr_lang = l, fr_lines = lines, fr_functions = length funcs, fr_classes = classes,
           fr_imports = imports, fr_nesting = depth, fr_cyclomatic = (branches, max (length funcs) 1),
           fr_score = 100 - 15 * length fs, fr_findings = fs\<rparr>)
       (detect_lang path)"

section \<open>All files\<close>

definition SKIPPED_PARTS :: "string list" where
  "SKIPPED_PARTS = [''node_modules'', ''.git'', ''__pycache__'', ''.venv'', ''venv'', ''dist'', ''build'']"

definition path_parts :: "string \<Rightarrow> string list" where
  "path_parts p = split_on CHR ''/'' p"

text \<open>The file system: whether a path is a file, and the files below it with an extension.\<close>

definition checker_files :: "(string \<Rightarrow> bool) \<Rightarrow> (string \<Rightarrow> string \<Rightarrow> string list) \<Rightarrow> string \<Rightarrow> string list \<Rightarrow> string list" where
  "checker_files is_file rglob target extensions =
     (if is_file target then [target]
      else filter (\<lambda>f. \<not> list_ex (\<lambda>p. p \<in> set SKIPPED_PARTS) (path_parts f)) (concat (map (rglob target) extensions)))"

definition read_extensions :: "string \<Rightarrow> string list" where
  "read_extensions s = map (\<lambda>e. dropWhile (\<lambda>c. c = CHR ''.'') (strip e)) (split_on CHR '','' s)"

record check_summary =
  cs_analyzed :: nat
  cs_total :: nat
  cs_average :: "nat \<times> nat"
  cs_verdict :: string
  cs_results :: "file_report list"

definition summarize :: "file_report list \<Rightarrow> check_summary" where
  "summarize rs =
     (let total = sum_list (map (length \<circ> fr_findings) rs);
          average = (if rs = [] then (100, 1) else (sum_list (map fr_score rs), length rs))
      in \<lparr>cs_analyzed = length rs, cs_total = total, cs_average = average,
          cs_verdict = (if total = 0 then ''PASS'' else if fst average \<ge> 50 * snd average then ''WARN'' else ''FAIL''),
          cs_results = rs\<rparr>)"

text \<open>\<open>None\<close> where no file is found and the script exits with 1.\<close>

definition check_complexity :: "(string \<Rightarrow> bool) \<Rightarrow> (string \<Rightarrow> string \<Rightarrow> string list) \<Rightarrow> (string \<Rightarrow> string)
     \<Rightarrow> thresholds \<Rightarrow> string \<Rightarrow> string \<Rightarrow> check_summary option" where
  "check_complexity is_file rglob read th ext target =
     (let files = checker_files is_file rglob target (read_extensions ext)
      in if files = [] then None
         else Some (summarize (List.map_filter (\<lambda>f. analyze_file f (read f) th) (sort_key path_parts files))))"

section \<open>Syntax trees\<close>

text \<open>
  A node of Python's \<open>ast\<close>: its kind, its line, and its children in the order of its fields, split at
  the list \<open>body\<close>; the value of an expression statement is its \<open>body\<close>.
\<close>

datatype node_kind =
    ModuleNode | ClassDefNode | FunctionDefNode | AsyncFunctionDefNode | ExprNode | ConstantStr string | OtherNode

datatype py_node = PyNode (pn_kind: node_kind) (pn_line: nat) (pn_before: "py_node list")
  (pn_body: "py_node list") (pn_after: "py_node list")

definition children :: "py_node \<Rightarrow> py_node list" where
  "children n = pn_before n @ pn_body n @ pn_after n"

lemma size_children: "sum_list (map size (children n)) < size n"
  by (cases n) (simp add: children_def size_list_conv_sum_list)

text \<open>\<open>ast.walk\<close>, a queue of nodes.\<close>

function walk :: "py_node list \<Rightarrow> py_node list" where
  "walk [] = []"
| "walk (n # queue) = n # walk (queue @ children n)"
  by pat_completeness auto
termination by (relation "measure (\<lambda>q. sum_list (map size q))") (auto simp: size_children)

text \<open>\<open>str.expandtabs\<close>, from a column on.\<close>

fun expand_tabs :: "nat \<Rightarrow> string \<Rightarrow> string" where
  "expand_tabs col [] = []"
| "expand_tabs col (c # s) =
     (if c = chr_tab then replicate (8 - col mod 8) (CHR '' '') @ expand_tabs 0 s
      else c # expand_tabs (if c = chr_nl \<or> c = chr_cr then 0 else col + 1) s)"

definition is_blank :: "char \<Rightarrow> bool" where "is_blank c \<longleftrightarrow> c = CHR '' ''"

text \<open>\<open>inspect.cleandoc\<close> of Python 3.13.\<close>

definition cleandoc :: "string \<Rightarrow> string" where
  "cleandoc doc =
     (let lines = split_on chr_nl (expand_tabs 0 doc);
          indents = map (length \<circ> takeWhile is_blank) (filter (\<lambda>l. dropWhile is_blank l \<noteq> []) (tl lines));
          rest = (if indents = [] then tl lines else map (drop (foldr min indents (hd indents))) (tl lines));
          cleaned = dropWhile is_blank (hd lines) # rest
      in join [chr_nl] (dropWhile (\<lambda>l. l = []) (rev (dropWhile (\<lambda>l. l = []) (rev cleaned)))))"

definition documented :: "py_node \<Rightarrow> bool" where
  "documented n \<longleftrightarrow> pn_kind n \<in> {ModuleNode, ClassDefNode, FunctionDefNode, AsyncFunctionDefNode}"

text \<open>\<open>ast.get_docstring\<close>, with the line of the literal.\<close>

definition get_docstring :: "py_node \<Rightarrow> (nat \<times> string) option" where
  "get_docstring n =
     (case pn_body n of
        PyNode ExprNode l before (PyNode (ConstantStr s) l' before' body' after' # rest') after # rest \<Rightarrow>
          Some (l', cleandoc s)
      | _ \<Rightarrow> None)"

section \<open>Docstring rules\<close>

definition SECTION_NAMES :: "string list" where
  "SECTION_NAMES =
     [''Args'', ''Arguments'', ''Attributes'', ''Example'', ''Examples'', ''Note'', ''Notes'', ''Raises'', ''References'',
      ''Returns'', ''See Also'', ''Todo'', ''Warning'', ''Warnings'', ''Yields'']"

definition SECTION_RE :: regex where
  "SECTION_RE = cats
     [Class (\<lambda>c. is_alpha c \<and> lower_char c \<noteq> c), Rep 0 None True (Class (\<lambda>c. is_alpha c \<or> c = CHR '' '')),
      lit '':'', spaces, AtEnd]"

definition ARG_WITH_TYPE_RE :: regex where
  "ARG_WITH_TYPE_RE = cats
     [spaces1, Rep 0 (Some 2) True (lit ''*''), word1, spaces, lit ''('', Rep 0 None True (Class (\<lambda>c. c \<noteq> CHR '')'')),
      lit '')'', spaces, lit '':'']"

definition DEFAULT_MAX_SUMMARY :: int where "DEFAULT_MAX_SUMMARY = 79"

text \<open>The section a line opens, if it is one of the known ones: group 1 is what stands before the colon.\<close>

definition opens_section :: "string \<Rightarrow> string option" where
  "opens_section s =
     (let name = takeWhile (\<lambda>c. c \<noteq> CHR '':'') s
      in if match_prefix SECTION_RE s \<and> name \<in> set SECTION_NAMES then Some name else None)"

datatype doc_issue = DS000 string | DS001 nat int | DS002 | DS003 string

type_synonym doc_finding = "string \<times> nat \<times> doc_issue"

text \<open>The outer \<open>None\<close> is the exception for a line the file does not have.\<close>

definition summary_too_long :: "string \<Rightarrow> nat \<Rightarrow> string list \<Rightarrow> int \<Rightarrow> doc_finding option option" where
  "summary_too_long path lineno source_lines limit =
     (if length source_lines < lineno then None
      else let line = rstrip (source_lines ! (lineno - 1))
           in Some (if int (length line) \<le> limit then None else Some (path, lineno, DS001 (length line) limit)))"

fun description_in :: "string \<Rightarrow> nat \<Rightarrow> string list \<Rightarrow> doc_finding option" where
  "description_in path lineno [] = None"
| "description_in path lineno (raw # rest) =
     (if strip raw = [] then description_in path (lineno + 1) rest
      else if opens_section (strip raw) \<noteq> None then None
      else Some (path, lineno, DS002))"

definition has_description_paragraph :: "string \<Rightarrow> nat \<Rightarrow> string \<Rightarrow> doc_finding option" where
  "has_description_paragraph path lineno doc = description_in path (lineno + 1) (tl (splitlines doc))"

fun typed_args :: "string \<Rightarrow> bool \<Rightarrow> nat \<Rightarrow> string list \<Rightarrow> doc_finding list" where
  "typed_args path in_args lineno [] = []"
| "typed_args path in_args lineno (raw # rest) =
     (case opens_section (strip raw) of
        Some name \<Rightarrow> typed_args path (name = ''Args'' \<or> name = ''Arguments'') (lineno + 1) rest
      | None \<Rightarrow>
          (if in_args \<and> match_prefix ARG_WITH_TYPE_RE raw then [(path, lineno, DS003 (strip raw))] else []) @
          typed_args path in_args (lineno + 1) rest)"

definition args_carry_types :: "string \<Rightarrow> nat \<Rightarrow> string \<Rightarrow> doc_finding list" where
  "args_carry_types path lineno doc = typed_args path False lineno (splitlines doc)"

definition check_node :: "string \<Rightarrow> string list \<Rightarrow> int \<Rightarrow> py_node \<Rightarrow> doc_finding list option" where
  "check_node path source_lines limit n =
     (case get_docstring n of
        Some (lineno, doc) \<Rightarrow>
          if strip doc = [] then Some []
          else map_option (\<lambda>long. (case long of Some f \<Rightarrow> [f] | None \<Rightarrow> []) @
              (case has_description_paragraph path lineno doc of Some f \<Rightarrow> [f] | None \<Rightarrow> []) @
              args_carry_types path lineno doc)
            (summary_too_long path lineno source_lines limit)
      | None \<Rightarrow> Some [])"

fun check_nodes :: "string \<Rightarrow> string list \<Rightarrow> int \<Rightarrow> py_node list \<Rightarrow> doc_finding list option" where
  "check_nodes path source_lines limit [] = Some []"
| "check_nodes path source_lines limit (n # ns) =
     (case check_node path source_lines limit n of
        Some fs \<Rightarrow> map_option (\<lambda>gs. fs @ gs) (check_nodes path source_lines limit ns)
      | None \<Rightarrow> None)"

text \<open>The parser gives the tree, or the line, if known, and the message of a syntax error.\<close>

type_synonym py_parser = "string \<Rightarrow> (nat option \<times> string) + py_node"

definition check_file :: "py_parser \<Rightarrow> string \<Rightarrow> string \<Rightarrow> int \<Rightarrow> doc_finding list option" where
  "check_file parse path source limit =
     (case parse source of
        Inl (line, msg) \<Rightarrow> Some [(path, (case line of Some (Suc n) \<Rightarrow> Suc n | _ \<Rightarrow> 1), DS000 msg)]
      | Inr tree \<Rightarrow>
          map_option (sort_key (fst \<circ> snd)) (check_nodes path (splitlines source) limit (filter documented (walk [tree]))))"

definition docstring_files :: "(string \<Rightarrow> bool) \<Rightarrow> (string \<Rightarrow> string list) \<Rightarrow> string list \<Rightarrow> string list" where
  "docstring_files is_dir rglob_py targets =
     sort_key path_parts (remdups (concat (map (\<lambda>t.
       if is_dir t then rglob_py t else if path_suffix t = ''.py'' then [t] else []) targets)))"

fun check_all :: "py_parser \<Rightarrow> (string \<Rightarrow> string) \<Rightarrow> int \<Rightarrow> string list \<Rightarrow> doc_finding list option" where
  "check_all parse read limit [] = Some []"
| "check_all parse read limit (p # ps) =
     (case check_file parse p (read p) limit of
        Some fs \<Rightarrow> map_option (\<lambda>gs. fs @ gs) (check_all parse read limit ps)
      | None \<Rightarrow> None)"

text \<open>The exit code; without paths the directory \<open>src\<close> is checked.\<close>

definition check_docstrings :: "(string \<Rightarrow> bool) \<Rightarrow> (string \<Rightarrow> string list) \<Rightarrow> py_parser \<Rightarrow> (string \<Rightarrow> string)
     \<Rightarrow> int \<Rightarrow> string list \<Rightarrow> int option" where
  "check_docstrings is_dir rglob_py parse read limit paths =
     map_option (\<lambda>fs. if fs = [] then 0 else 1)
       (check_all parse read limit (docstring_files is_dir rglob_py (if paths = [] then [''src''] else paths)))"

section \<open>What the checks report\<close>

text \<open>The queue visits every node of the trees once, in whatever order.\<close>

fun nodes :: "py_node \<Rightarrow> py_node list" and nodes_of :: "py_node list \<Rightarrow> py_node list" where
  "nodes (PyNode k l before body after) =
     PyNode k l before body after # nodes_of before @ nodes_of body @ nodes_of after"
| "nodes_of [] = []"
| "nodes_of (n # ns) = nodes n @ nodes_of ns"

lemma nodes_of_append [simp]: "nodes_of (ms @ ns) = nodes_of ms @ nodes_of ns"
  by (induction ms) auto

lemma nodes_unfold: "nodes n = n # nodes_of (children n)"
  by (cases n) (simp add: children_def)

theorem walk_visits_every_node: "mset (walk queue) = mset (nodes_of queue)"
  by (induction queue rule: walk.induct) (simp_all add: nodes_unfold)

text \<open>A finding is produced by one documented node of the tree, and they come in the order of lines.\<close>

lemma check_nodes_Some:
  "check_nodes path ls limit ns = Some fs \<Longrightarrow> f \<in> set fs \<longleftrightarrow>
     (\<exists>n \<in> set ns. \<exists>gs. check_node path ls limit n = Some gs \<and> f \<in> set gs)"
proof (induction ns arbitrary: fs)
  case (Cons n ns)
  then obtain gs hs where "check_node path ls limit n = Some gs" "check_nodes path ls limit ns = Some hs" "fs = gs @ hs"
    by (auto split: option.splits)
  then show ?case using Cons.IH by auto
qed simp

theorem docstring_findings_exact:
  assumes "parse source = Inr tree" "check_file parse path source limit = Some fs"
  shows "sorted (map (fst \<circ> snd) fs)"
    and "f \<in> set fs \<longleftrightarrow> (\<exists>n \<in> set (nodes tree). documented n \<and>
           (\<exists>gs. check_node path (splitlines source) limit n = Some gs \<and> f \<in> set gs))"
proof -
  obtain gs where gs: "check_nodes path (splitlines source) limit (filter documented (walk [tree])) = Some gs"
      "fs = sort_key (fst \<circ> snd) gs"
    using assms by (auto simp: check_file_def)
  have "set (walk [tree]) = set (nodes tree)" using walk_visits_every_node [of "[tree]"] by (metis mset_eq_setD append_Nil2 nodes_of.simps)
  then show "f \<in> set fs \<longleftrightarrow> (\<exists>n \<in> set (nodes tree). documented n \<and>
      (\<exists>gs. check_node path (splitlines source) limit n = Some gs \<and> f \<in> set gs))"
    using check_nodes_Some [OF gs(1), of f] gs(2) by auto
  show "sorted (map (fst \<circ> snd) fs)" using gs(2) by simp
qed

text \<open>
  The line breaks at the start of a docstring are cleaned away before its lines are counted: the text
  of this one stands two lines below the opening quotes, and is reported one line below them.
\<close>

theorem leading_break_shifts_lines:
  "cleandoc ([chr_nl] @ ''S'' @ [chr_nl] @ ''T'') = ''S'' @ [chr_nl] @ ''T'' \<and>
   has_description_paragraph path 10 (''S'' @ [chr_nl] @ ''T'') = Some (path, 11, DS002)"
proof
  show "cleandoc ([chr_nl] @ ''S'' @ [chr_nl] @ ''T'') = ''S'' @ [chr_nl] @ ''T''"
    by (simp add: cleandoc_def chr_defs is_blank_def)
  have "splitlines (''S'' @ [chr_nl] @ ''T'') = [''S'', ''T'']"
    by (simp add: break_rest_def is_break_def code_def chr_defs)
  moreover have "strip ''T'' = ''T''" by (simp add: strip_def lstrip_def rstrip_def is_space_def code_def)
  moreover have "opens_section ''T'' = None" by (simp add: opens_section_def SECTION_NAMES_def)
  ultimately show "has_description_paragraph path 10 (''S'' @ [chr_nl] @ ''T'') = Some (path, 11, DS002)"
    by (simp add: has_description_paragraph_def)
qed

text \<open>The verdict over all files: nothing is found exactly where every score is full.\<close>

definition scored :: "file_report \<Rightarrow> bool" where
  "scored r \<longleftrightarrow> fr_score r = 100 - 15 * length (fr_findings r)"

lemma analyzed_scored: "analyze_file path text th = Some r \<Longrightarrow> scored r"
  by (auto simp: analyze_file_def scored_def Let_def)

lemma summarize_simps:
  "cs_results (summarize rs) = rs"
  "cs_average (summarize rs) = (if rs = [] then (100, 1) else (sum_list (map fr_score rs), length rs))"
  "cs_verdict (summarize rs) = ''PASS'' \<longleftrightarrow> (\<forall>r \<in> set rs. fr_findings r = [])"
  by (simp_all add: summarize_def Let_def)

lemma summary_scored:
  assumes "check_complexity is_file rglob read th ext target = Some s"
  shows "\<exists>rs. s = summarize rs \<and> (\<forall>r \<in> set rs. scored r)"
proof -
  obtain files where "s = summarize (List.map_filter (\<lambda>f. analyze_file f (read f) th) files)"
    using assms by (auto simp: check_complexity_def Let_def split: if_splits)
  moreover have "\<forall>r \<in> set (List.map_filter (\<lambda>f. analyze_file f (read f) th) files). scored r"
    by (auto simp: List.map_filter_def dest: analyzed_scored)
  ultimately show ?thesis by blast
qed

lemma score_bound: "scored r \<Longrightarrow> fr_score r \<le> 100 \<and> (fr_score r = 100 \<longleftrightarrow> fr_findings r = [])"
  by (cases "fr_findings r") (auto simp: scored_def)

lemma scores_bound: "\<forall>r \<in> set rs. scored r \<Longrightarrow> sum_list (map fr_score rs) \<le> 100 * length rs"
  by (induction rs) (use score_bound in fastforce)+

lemma full_scores: "\<forall>r \<in> set rs. scored r \<Longrightarrow>
    (\<forall>r \<in> set rs. fr_findings r = []) \<longleftrightarrow> sum_list (map fr_score rs) = 100 * length rs"
proof (induction rs)
  case (Cons r rs)
  then show ?case using score_bound [of r] scores_bound [of rs] by auto
qed simp

theorem passes_with_full_average:
  assumes "check_complexity is_file rglob read th ext target = Some s" "cs_average s = (n, d)"
  shows "cs_verdict s = ''PASS'' \<longleftrightarrow> n = 100 * d" and "n \<le> 100 * d"
proof -
  obtain rs where rs: "s = summarize rs" "\<forall>r \<in> set rs. scored r"
    using summary_scored [OF assms(1)] by blast
  show "cs_verdict s = ''PASS'' \<longleftrightarrow> n = 100 * d" and "n \<le> 100 * d"
    using assms(2) full_scores [OF rs(2)] scores_bound [OF rs(2)]
    by (auto simp: rs(1) summarize_simps split: if_splits)
qed

text \<open>
  The white space in front of a definition may match line breaks, and counts as its indentation: behind
  a blank line the scan for the end starts at the definition's own line, and stops there. The same
  function is two lines long without the blank line and one with it.
\<close>

lemma same_splits: "splitlines (''def f'' @ [chr_nl] @ '' a'') = [''def f'', '' a'']"
    "splitlines ([chr_nl] @ ''def f'' @ [chr_nl] @ '' a'') = [[], ''def f'', '' a'']"
  by (simp_all add: break_rest_def is_break_def code_def chr_defs)

theorem blank_line_ends_function:
  "extract_functions (''def f'' @ [chr_nl] @ '' a'') Python = [\<lparr>fu_name = ''f'', fu_start_line = 1, fu_lines = 2\<rparr>] \<and>
   extract_functions ([chr_nl] @ ''def f'' @ [chr_nl] @ '' a'') Python = [\<lparr>fu_name = ''f'', fu_start_line = 1, fu_lines = 1\<rparr>]"
proof
  have "finditer FUNC_DEF_PY (''def f'' @ [chr_nl] @ '' a'') = [([], ''def f'')]"
    by (simp add: finditer_def FUNC_DEF_PY_def line_start_def maybe_def word1_def spaces_def spaces1_def below_def regex_eval chr_defs)
  then show "extract_functions (''def f'' @ [chr_nl] @ '' a'') Python = [\<lparr>fu_name = ''f'', fu_start_line = 1, fu_lines = 2\<rparr>]"
    unfolding extract_functions_def same_splits func_pattern_def lang.case
    by (simp add: func_of_def count_newlines_def func_name_def ends_function_def rstrip_def lstrip_def regex_eval)
next
  have "finditer FUNC_DEF_PY ([chr_nl] @ ''def f'' @ [chr_nl] @ '' a'') = [([], [chr_nl] @ ''def f'')]"
    by (simp add: finditer_def FUNC_DEF_PY_def line_start_def maybe_def word1_def spaces_def spaces1_def below_def regex_eval chr_defs)
  then show "extract_functions ([chr_nl] @ ''def f'' @ [chr_nl] @ '' a'') Python =
      [\<lparr>fu_name = ''f'', fu_start_line = 1, fu_lines = 1\<rparr>]"
    unfolding extract_functions_def same_splits func_pattern_def lang.case
    by (simp add: func_of_def count_newlines_def func_name_def ends_function_def rstrip_def lstrip_def regex_eval chr_defs)
qed

end
