(* ===== verification/Spec2Isabelle.thy ===== *)
theory Spec2Isabelle
  imports Commands Gateway Relay Records Dashboards Program Caveman Handoff Plans Checks
begin

text \<open>
  Verification development of rackphone's host software (\<open>src/cli/src/rackphone\<close>, with its dashboards
  and the agents' scripts beside it): a gateway that
  drains messages and calls from rooted phones over adb into a database, serves them over an
  authenticated HTTP interface, leases the phones' screens and call audio to one client at a time,
  and a command line that keeps the phones' settings and their unit files in step.

  How the parts interact. Every access to a phone goes through the adb wrapper (\<open>device/adb.py\<close>).
  The drain loop (\<open>gateway/drain.py\<close>) asks each unit's companion app for its spool, commits the
  events to the store (\<open>gateway/store.py\<close>) and only then acknowledges the batch. The HTTP
  interface (\<open>gateway/api.py\<close>) authenticates a caller through the login service
  (\<open>gateway/login.py\<close>), which owns sessions, lockouts and the second factor in the tables of
  \<open>gateway/authstore.py\<close>; it filters rows by the capabilities of \<open>gateway/config.py\<close>, marks them
  with the verdict of \<open>gateway/filters.py\<close>, and hands device actions to \<open>call.py\<close>, \<open>send.py\<close>,
  \<open>sims.py\<close>, \<open>contacts.py\<close>, \<open>files.py\<close>, \<open>session.py\<close> and the relays.

  Theories, and the code each models.
  \<^item> \<open>Prelude\<close>: exceptions, dictionaries, results, effectful code over a world; list lemmas.
  \<^item> \<open>PyStr\<close>, \<open>Json\<close>: the string operations, decimal notation, \<open>splitlines\<close>, UTF-8 and JSON of the
    Python library that the sources use. Text is its UTF-8 bytes.
  \<^item> \<open>EventStore\<close>: \<open>gateway/store.py\<close>. The \<open>events\<close> table is the list of its rows; the locale
    \<open>event_sink\<close> is the contract the drain relies on, interpreted on \<open>add_events\<close>.
  \<^item> \<open>Filters\<close>: \<open>gateway/filters.py\<close>. Rule loading, matching and \<open>should_push\<close>.
  \<^item> \<open>Auth\<close>: \<open>gateway/auth.py\<close>. Scopes, password records, one-time codes, access tokens, with the
    locale \<open>codec\<close> for the base64 variants.
  \<^item> \<open>AuthStore\<close>: \<open>gateway/authstore.py\<close>. The tables of the login database and every operation on
    them; locales \<open>lock_ledger\<close> and \<open>rotating_sessions\<close>.
  \<^item> \<open>Config\<close>, \<open>Login\<close>: \<open>gateway/config.py\<close> and \<open>gateway/login.py\<close>.
  \<^item> \<open>Adb\<close>, \<open>Units\<close>: \<open>device/adb.py\<close> and \<open>units.py\<close>. The record \<open>host\<close> holds what lies outside the
    program: processes, files, sockets, random numbers, as functions of a world.
  \<^item> \<open>Plugins\<close>: \<open>device/plugins.py\<close>. The schema of a unit and the validation of settings.
  \<^item> \<open>Session\<close>: \<open>gateway/session.py\<close>, with the locale \<open>lease\<close>.
  \<^item> \<open>Drain\<close>: \<open>gateway/drain.py\<close> and the phone's side of its protocol, \<open>Inbox.kt\<close>.
  \<^item> \<open>JsonTrip\<close>, \<open>Records\<close>: what \<open>json.dumps\<close> writes reads back; the rows of the store against the
    lines of the phone.
  \<^item> \<open>Files\<close>, \<open>Calls\<close>, \<open>Contacts\<close>: \<open>gateway/files.py\<close>; \<open>call.py\<close>, \<open>send.py\<close>, \<open>sims.py\<close>; \<open>contacts.py\<close>
    with the interleaving of concurrent requests as a step relation.
  \<^item> \<open>Relay\<close>: \<open>gateway/relay.py\<close> and \<open>gateway/voice.py\<close>.
  \<^item> \<open>Exposition\<close>: \<open>metrics/exposition.py\<close> and the answers of \<open>metrics/server.py\<close>.
  \<^item> \<open>Api\<close>: the policies of \<open>gateway/api.py\<close>, its event stream and the life of a relay.
  \<^item> \<open>Routes\<close>: the request handlers of \<open>gateway/api.py\<close>, one definition each, and \<open>serve\<close>, which takes
    a \<open>request\<close> with its \<open>exchange\<close> (header, peer, clocks, random draws) to a \<open>reply\<close>.
  \<^item> \<open>Gateway\<close>: \<open>serve\<close> as a whole, over single requests and sequences of them. \<open>spares g m\<close> says that
    \<open>m\<close> leaves the part \<open>g\<close> of the world alone, \<open>moves R p m\<close> that it takes the part \<open>p\<close> through steps
    of \<open>R\<close>; both are built up along the code.
  \<^item> \<open>Cli\<close>, \<open>Commands\<close>: \<open>cli/context.py\<close> and \<open>cli/commands\<close>: what the commands do, without what they print.
  \<^item> \<open>Argparse\<close>, \<open>CommandLine\<close>: Python's argument parser as far as the program uses it, and the command
    tree of \<open>cli/parser.py\<close> as data for it.
  \<^item> \<open>Console\<close>, \<open>Screens\<close>: \<open>render.py\<close> and what the commands print. A screen is the command of \<open>Cli\<close> or
    \<open>Commands\<close> with the blocks it shows; \<open>displays\<close> says that the one refines the other.
  \<^item> \<open>Program\<close>: \<open>cli/main.py\<close>, from a list of words to the exit status.
  \<^item> \<open>Layout\<close>, \<open>Dashboards\<close>: \<open>src/monitoring/generate-dashboards.py\<close>, the grid and the four dashboards
    as the JSON documents it writes.
  \<^item> \<open>Regex\<close>: the patterns of Python's \<open>re\<close> that the agents' skill scripts use, as a backtracking matcher,
    with the relation \<open>leads\<close> as its meaning (\<open>ends_leads\<close>).
  \<^item> \<open>Caveman\<close>, \<open>Handoff\<close>, \<open>Plans\<close>, \<open>Checks\<close>: the scripts under \<open>.codex/skills\<close>: compressor, lint and token estimate;
    deduplicator, recommender and template; decision branches, questions, interrogation sessions and the
    checks of plans and diffs; the complexity and docstring checks of source code.

  What the lemmas show. State invariants hold over every sequence of operations (the tables of the
  two databases, the address-book cache, the leases). Each protocol end to end: no event is lost
  between phone and store whatever fails and none invented, tokens are issued only for every factor, replayed and
  revoked tokens stay refused whatever requests follow, a lease has one holder and is released on
  every path, a caller without a scope or a unit without a capability gets nothing done. What crosses
  a trust boundary is exactly what was meant: the words of a device command, a file name, a
  deployed configuration, the rows of a stream, the hop a client is counted under. Round trips:
  tokens, unit files, settings, stored records and dashboard files. The properties named after a defect state what the code does there.

  Bounds. \<open>json_loads\<close> gives its parser twice the length of the text in fuel, and every call
  consumes a character. Loading a unit whose file is missing lists the units again: the recursion
  takes \<open>RECURSION_DEPTH\<close> nested calls, after which Python raises; the result is the same for any
  depth. A repetition in a pattern gets as many rounds as its lower bound and the rest of the text
  need (\<open>iterate_complete\<close>), and a search for all matches one more than the text has characters. All other recursions are structural or have a measure.

  Not modelled: the web framework's own work (routing, request validation, the WebSocket handshake),
  the terminal rendering of rich, the socket servers of \<open>serve\<close> and \<open>gateway\<close> once they run, an
  interrupt from the keyboard, and the background threads, which appear as the operations they call;
  of the skill scripts their reports in text, their own command lines and Python's parser;
  the Android app apart from \<open>Inbox.kt\<close>, the modules' shell scripts and the web client.
  Hash functions, the
  regular-expression engine of the filters and the clock are parameters; floats keep their literal
  or their exact decimal value.
\<close>

end
